(* ===== verification/Prelude.thy ===== *)
theory Prelude
  imports Main "HOL-Library.Word" "HOL-Library.State_Monad"
begin

text \<open>
  What every component of the development shares: the C integer types at their widths, the
  errno values the code returns, the record of external calls and the monad that threads it,
  byte order helpers, and the generic lemmas on them.

  External code (the Zephyr kernel and drivers, the Infineon PDL, the TF-M framework, the
  hardware behind a register) is never defined here. A call to it is an entry of the state's
  \<open>calls\<close> list, the call with its arguments paired with the answer it got, and the answer
  comes from an environment: a function of all the earlier calls and of the call itself. A
  theorem that quantifies over the environment holds for every behaviour of that code.
\<close>

unbundle bit_operations_syntax

section \<open>C integer types and errno values\<close>

type_synonym u8 = "8 word"
type_synonym u16 = "16 word"
type_synonym u32 = "32 word"
type_synonym u64 = "64 word"

text \<open>The values of \<open>errno.h\<close> in the C library the images are linked with.\<close>

abbreviation EIO :: int where "EIO \<equiv> 5"
abbreviation EAGAIN :: int where "EAGAIN \<equiv> 11"
abbreviation ENODEV :: int where "ENODEV \<equiv> 19"
abbreviation EINVAL :: int where "EINVAL \<equiv> 22"
abbreviation ETIMEDOUT :: int where "ETIMEDOUT \<equiv> 116"
abbreviation ENOTSUP :: int where "ENOTSUP \<equiv> 134"

text \<open>Integer promotions to \<open>uint32_t\<close> keep the value.\<close>

lemma unat_ucast_upcast:
  "LENGTH('a::len) \<le> LENGTH('b::len) \<Longrightarrow> unat (ucast (x :: 'a word) :: 'b word) = unat x"
proof -
  assume le: "LENGTH('a) \<le> LENGTH('b)"
  have "unat x < 2 ^ LENGTH('a)" by (rule unsigned_less)
  also have "\<dots> \<le> 2 ^ LENGTH('b)" using le by simp
  finally show ?thesis by (simp add: unsigned_ucast_eq take_bit_nat_eq_self)
qed

lemma unat_less:
  "unat (x :: u8) < 256" "unat (y :: u16) < 65536" "unat (z :: u32) < 4294967296"
  using unsigned_less [of x] unsigned_less [of y] unsigned_less [of z] by simp_all

lemma unat_take_bit_mod: "unat (take_bit n w) = unat w mod 2 ^ n"
proof -
  have "unat (take_bit n w) = take_bit n (unat w)" by (rule unsigned_take_bit_eq)
  then show ?thesis by (simp only: take_bit_eq_mod)
qed

text \<open>Bits of the constants a mask is made of.\<close>

lemma bit_single: "k < LENGTH('a) \<Longrightarrow> bit (push_bit k (1 :: 'a::len word)) n \<longleftrightarrow> n = k"
  by (auto simp: bit_simps)

lemma bit_block:
  "k + m \<le> LENGTH('a) \<Longrightarrow> bit (push_bit k (mask m :: 'a::len word)) n \<longleftrightarrow> k \<le> n \<and> n < k + m"
  by (auto simp: bit_simps)

lemma ucast_down_up [simp]:
  "ucast (ucast (x :: u8) :: u32) = x" "ucast (ucast (y :: u16) :: u32) = y"
  by (rule bit_word_eqI; auto simp: bit_simps)+

lemma unat_ucast_u32 [simp]:
  "unat (ucast (x :: u8) :: u32) = unat x" "unat (ucast (y :: u16) :: u32) = unat y"
  by (simp_all add: unat_ucast_upcast)

section \<open>External calls\<close>

record ('c, 'r) io =
  calls :: "('c \<times> 'r) list"

type_synonym ('c, 'r) env = "('c \<times> 'r) list \<Rightarrow> 'c \<Rightarrow> 'r"

definition ask :: "('c, 'r) env \<Rightarrow> 'c \<Rightarrow> (('c, 'r, 'z) io_scheme, 'r) state" where
  "ask env c = State (\<lambda>s. (env (calls s) c, s\<lparr>calls := calls s @ [(c, env (calls s) c)]\<rparr>))"

definition tell :: "('c, 'r) env \<Rightarrow> 'c \<Rightarrow> (('c, 'r, 'z) io_scheme, unit) state" where
  "tell env c = State (\<lambda>s. ((), s\<lparr>calls := calls s @ [(c, env (calls s) c)]\<rparr>))"

definition gets :: "('s \<Rightarrow> 'a) \<Rightarrow> ('s, 'a) state" where
  "gets f = State (\<lambda>s. (f s, s))"

definition modify :: "('s \<Rightarrow> 's) \<Rightarrow> ('s, unit) state" where
  "modify f = State (\<lambda>s. ((), f s))"

abbreviation return :: "'a \<Rightarrow> ('s, 'a) state" where
  "return \<equiv> State_Monad.return"

text \<open>The result and the final state of a program.\<close>

abbreviation result :: "('s, 'a) state \<Rightarrow> 's \<Rightarrow> 'a" where
  "result m s \<equiv> fst (run_state m s)"

abbreviation final :: "('s, 'a) state \<Rightarrow> 's \<Rightarrow> 's" where
  "final m s \<equiv> snd (run_state m s)"

lemma run_state_ask [simp]:
  "run_state (ask env c) s = (env (calls s) c, s\<lparr>calls := calls s @ [(c, env (calls s) c)]\<rparr>)"
  by (simp add: ask_def)

lemma run_state_tell [simp]:
  "run_state (tell env c) s = ((), s\<lparr>calls := calls s @ [(c, env (calls s) c)]\<rparr>)"
  by (simp add: tell_def)

lemma run_state_gets [simp]: "run_state (gets f) s = (f s, s)"
  by (simp add: gets_def)

lemma run_state_modify [simp]: "run_state (modify f) s = ((), f s)"
  by (simp add: modify_def)

text \<open>A branch of a program runs the branch taken.\<close>

lemma run_state_if [simp]:
  "run_state (if b then m else n) s = (if b then run_state m s else run_state n s)"
  by simp

subsection \<open>Programs only ever add to the record of calls\<close>

definition appends :: "(('c, 'r, 'z) io_scheme, 'a) state \<Rightarrow> bool" where
  "appends m \<longleftrightarrow> (\<forall>s. \<exists>new. calls (final m s) = calls s @ new)"

text \<open>The calls a program makes when it is started in a state.\<close>

definition made :: "(('c, 'r, 'z) io_scheme, 'a) state \<Rightarrow> ('c, 'r, 'z) io_scheme \<Rightarrow> ('c \<times> 'r) list"
  where
  "made m s = drop (length (calls s)) (calls (final m s))"

named_theorems appends_intros "programs that only add calls"

lemma appendsD: "appends m \<Longrightarrow> calls (final m s) = calls s @ made m s"
  by (auto simp: appends_def made_def dest!: spec [of _ s])

lemma appends_ask [appends_intros]: "appends (ask env c)"
  by (simp add: appends_def)

lemma appends_tell [appends_intros]: "appends (tell env c)"
  by (simp add: appends_def)

lemma appends_return [appends_intros]: "appends (return x)"
  by (simp add: appends_def)

lemma appends_gets [appends_intros]: "appends (gets f)"
  by (simp add: appends_def)

lemma appends_modify [appends_intros]: "(\<And>s. calls (f s) = calls s) \<Longrightarrow> appends (modify f)"
  by (simp add: appends_def)

lemma appends_bind [appends_intros]:
  assumes m: "appends m" and f: "\<And>x. appends (f x)"
  shows "appends (m \<bind> f)"
proof -
  have "\<exists>new. calls (final (m \<bind> f) s) = calls s @ new" for s
  proof (cases "run_state m s")
    case (Pair a t)
    obtain u where u: "calls t = calls s @ u"
      using m Pair unfolding appends_def by (metis snd_conv)
    obtain v where "calls (final (f a) t) = calls t @ v"
      using f unfolding appends_def by blast
    with u Pair show ?thesis by auto
  qed
  then show ?thesis by (simp add: appends_def)
qed

lemma appends_if [appends_intros]: "appends m \<Longrightarrow> appends n \<Longrightarrow> appends (if b then m else n)"
  by simp

lemma made_bind:
  assumes m: "appends m" and f: "\<And>x. appends (f x)"
  shows "made (m \<bind> f) s = made m s @ made (f (result m s)) (final m s)"
proof -
  have "calls (final (m \<bind> f) s) = calls s @ made m s @ made (f (result m s)) (final m s)"
    using appendsD [OF m, of s] appendsD [OF f, of "result m s" "final m s"]
    by (simp add: split_beta)
  then show ?thesis by (simp add: made_def)
qed

section \<open>Loops\<close>

text \<open>
  A C \<open>for\<close> loop over an index range or an array: with a body that always goes on, and with
  a body that leaves the function on a negative return code.
\<close>

primrec for_each :: "'a list \<Rightarrow> ('a \<Rightarrow> ('s, unit) state) \<Rightarrow> ('s, unit) state" where
  "for_each [] body = return ()"
| "for_each (x # xs) body = do { body x; for_each xs body }"

primrec for_ok :: "'a list \<Rightarrow> ('a \<Rightarrow> ('s, int) state) \<Rightarrow> ('s, int) state" where
  "for_ok [] body = return 0"
| "for_ok (x # xs) body = do { ret \<leftarrow> body x; if ret < 0 then return ret else for_ok xs body }"

text \<open>Going on after a step that may not return (\<open>None\<close>).\<close>

definition obind ::
  "('s, 'a option) state \<Rightarrow> ('a \<Rightarrow> ('s, 'b option) state) \<Rightarrow> ('s, 'b option) state" where
  "obind m f = do { r \<leftarrow> m; case r of None \<Rightarrow> return None | Some x \<Rightarrow> f x }"

lemma run_obind:
  "run_state (obind m f) s =
     (case run_state m s of (None, t) \<Rightarrow> (None, t) | (Some x, t) \<Rightarrow> run_state (f x) t)"
  by (simp add: obind_def split: prod.split option.split)

lemma appends_for_each [appends_intros]:
  "(\<And>x. appends (body x)) \<Longrightarrow> appends (for_each xs body)"
  by (induction xs) (auto intro!: appends_intros)

lemma appends_for_ok [appends_intros]:
  "(\<And>x. appends (body x)) \<Longrightarrow> appends (for_ok xs body)"
  by (induction xs) (auto intro!: appends_intros)

lemma for_each_append:
  "run_state (for_each (xs @ ys) body) s = run_state (for_each ys body) (final (for_each xs body) s)"
  by (induction xs arbitrary: s) (simp_all add: split_beta)

section \<open>A logic for programs\<close>

text \<open>
  \<open>quiet C m\<close>: the program touches no variable and makes only calls in \<open>C\<close>.
  \<open>triple P m Q\<close>: from a state in \<open>P\<close> the result and the final state are in \<open>Q\<close>; programs
  here are total, and one that runs out of fuel has the result \<open>None\<close>.
\<close>

definition quiet :: "('c \<Rightarrow> bool) \<Rightarrow> (('c, 'r, 'z) io_scheme, 'a) state \<Rightarrow> bool" where
  "quiet C m \<longleftrightarrow> (\<forall>s. \<exists>new. final m s = s\<lparr>calls := calls s @ new\<rparr> \<and> list_all (C \<circ> fst) new)"

definition triple :: "('s \<Rightarrow> bool) \<Rightarrow> ('s, 'a) state \<Rightarrow> ('a \<Rightarrow> 's \<Rightarrow> bool) \<Rightarrow> bool" where
  "triple P m Q \<longleftrightarrow> (\<forall>s. P s \<longrightarrow> Q (result m s) (final m s))"

named_theorems quiet_intros "programs that only make calls"

lemma quietE:
  assumes "quiet C m"
  obtains new where "final m s = s\<lparr>calls := calls s @ new\<rparr>" and "list_all (C \<circ> fst) new"
  using assms unfolding quiet_def by blast

lemma quiet_return [quiet_intros]: "quiet C (return x)"
  by (auto simp: quiet_def intro: exI [of _ "[]"])

lemma quiet_ask [quiet_intros]: "C c \<Longrightarrow> quiet C (ask env c)"
  by (auto simp: quiet_def)

lemma quiet_tell [quiet_intros]: "C c \<Longrightarrow> quiet C (tell env c)"
  by (auto simp: quiet_def)

lemma quiet_gets [quiet_intros]: "quiet C (gets f)"
  by (auto simp: quiet_def intro: exI [of _ "[]"])

lemma quiet_if [quiet_intros]: "quiet C m \<Longrightarrow> quiet C n \<Longrightarrow> quiet C (if b then m else n)"
  by simp

lemma quiet_bind [quiet_intros]:
  assumes "quiet C m" and f: "\<And>x. quiet C (f x)"
  shows "quiet C (m \<bind> f)"
  unfolding quiet_def
proof
  fix s
  obtain new where m: "final m s = s\<lparr>calls := calls s @ new\<rparr>" "list_all (C \<circ> fst) new"
    using quietE [OF assms(1)] .
  obtain new' where "final (f (result m s)) (s\<lparr>calls := calls s @ new\<rparr>) =
      s\<lparr>calls := calls s @ new @ new'\<rparr>" "list_all (C \<circ> fst) new'"
    using quietE [OF f, of "result m s" "s\<lparr>calls := calls s @ new\<rparr>"] by auto
  with m show "\<exists>new. final (m \<bind> f) s = s\<lparr>calls := calls s @ new\<rparr> \<and> list_all (C \<circ> fst) new"
    by (intro exI [of _ "new @ new'"]) (simp add: split_beta)
qed

lemma quiet_obind [quiet_intros]:
  "quiet C m \<Longrightarrow> (\<And>x. quiet C (f x)) \<Longrightarrow> quiet C (obind m f)"
  unfolding obind_def by (rule quiet_bind) (simp_all add: quiet_return split: option.split)

lemma quiet_for_each [quiet_intros]: "(\<And>x. quiet C (body x)) \<Longrightarrow> quiet C (for_each xs body)"
  by (induction xs) (auto intro!: quiet_intros)

lemma quiet_mono: "quiet C m \<Longrightarrow> (\<And>c. C c \<Longrightarrow> D c) \<Longrightarrow> quiet D m"
  unfolding quiet_def list_all_iff by fastforce

lemma quiet_appends: "quiet C m \<Longrightarrow> appends m"
  unfolding quiet_def appends_def by (elim all_forward ex_forward) simp

lemma tripleD: "triple P m Q \<Longrightarrow> P s \<Longrightarrow> run_state m s = (x, t) \<Longrightarrow> Q x t"
  unfolding triple_def by (metis fst_conv snd_conv)

lemma triple_return: "(\<And>s. P s \<Longrightarrow> Q x s) \<Longrightarrow> triple P (return x) Q"
  by (simp add: triple_def)

lemma triple_bind:
  "triple P m R \<Longrightarrow> (\<And>x. triple (R x) (f x) Q) \<Longrightarrow> triple P (m \<bind> f) Q"
  by (simp add: triple_def split_beta)

lemma triple_obind:
  "triple P m R \<Longrightarrow> (\<And>x. triple (R (Some x)) (f x) Q) \<Longrightarrow> (\<And>s. R None s \<Longrightarrow> Q None s) \<Longrightarrow>
   triple P (obind m f) Q"
  unfolding obind_def by (rule triple_bind) (auto simp: triple_def split: option.split)

lemma triple_ask:
  "(\<And>s. P s \<Longrightarrow> Q (env (calls s) c) (s\<lparr>calls := calls s @ [(c, env (calls s) c)]\<rparr>)) \<Longrightarrow>
   triple P (ask env c) Q"
  by (simp add: triple_def)

lemma triple_tell:
  "(\<And>s r. P s \<Longrightarrow> Q () (s\<lparr>calls := calls s @ [(c, r)]\<rparr>)) \<Longrightarrow> triple P (tell env c) Q"
  by (simp add: triple_def)

lemma triple_modify: "(\<And>s. P s \<Longrightarrow> Q () (f s)) \<Longrightarrow> triple P (modify f) Q"
  by (simp add: triple_def)

lemma triple_gets: "(\<And>s. P s \<Longrightarrow> Q (f s) s) \<Longrightarrow> triple P (gets f) Q"
  by (simp add: triple_def)

lemma triple_quiet:
  assumes "quiet C m"
    and "\<And>s new. P s \<Longrightarrow> list_all (C \<circ> fst) new \<Longrightarrow> P (s\<lparr>calls := calls s @ new\<rparr>)"
  shows "triple P m (\<lambda>_. P)"
  using assms unfolding quiet_def triple_def by metis

lemma triple_conseq:
  "triple P m Q \<Longrightarrow> (\<And>s. P' s \<Longrightarrow> P s) \<Longrightarrow> (\<And>x s. Q x s \<Longrightarrow> Q' x s) \<Longrightarrow> triple P' m Q'"
  by (simp add: triple_def)

section \<open>Spinning on a status register\<close>

text \<open>
  \<open>while (!ready(read)) {}\<close>: one unit of fuel per read, \<open>None\<close> when still spinning.
  \<open>settles\<close> is the hypothesis under which such a loop ends: from every history, one of the
  first \<open>n\<close> reads in a row is ready.
\<close>

primrec spin :: "('c, 'r) env \<Rightarrow> 'c \<Rightarrow> ('r \<Rightarrow> bool) \<Rightarrow> nat \<Rightarrow>
    (('c, 'r, 'z) io_scheme, unit option) state" where
  "spin env c ready 0 = return None"
| "spin env c ready (Suc fuel) = do {
     r \<leftarrow> ask env c;
     if ready r then return (Some ()) else spin env c ready fuel
   }"

primrec polls :: "('c, 'r) env \<Rightarrow> 'c \<Rightarrow> nat \<Rightarrow> ('c \<times> 'r) list \<Rightarrow> ('c \<times> 'r) list" where
  "polls env c 0 h = h"
| "polls env c (Suc k) h = polls env c k (h @ [(c, env h c)])"

definition settles :: "('c, 'r) env \<Rightarrow> 'c \<Rightarrow> ('r \<Rightarrow> bool) \<Rightarrow> nat \<Rightarrow> bool" where
  "settles env c ready n \<longleftrightarrow> (\<forall>h. \<exists>k<n. ready (env (polls env c k h) c))"

lemma quiet_spin [quiet_intros]: "C c \<Longrightarrow> quiet C (spin env c ready fuel)"
  by (induction fuel) (auto intro!: quiet_intros)

lemma spin_returns_within:
  "\<exists>k<n. ready (env (polls env c k (calls s)) c) \<Longrightarrow> n \<le> fuel \<Longrightarrow>
   result (spin env c ready fuel) s = Some ()"
proof (induction fuel arbitrary: n s)
  case 0
  then show ?case by auto
next
  case (Suc fuel)
  show ?case
  proof (cases "ready (env (calls s) c)")
    case False
    from Suc.prems obtain k where k: "k < n" "ready (env (polls env c k (calls s)) c)" by blast
    with False obtain j where "k = Suc j" by (cases k) auto
    let ?t = "s\<lparr>calls := calls s @ [(c, env (calls s) c)]\<rparr>"
    from k \<open>k = Suc j\<close> have "j < n - 1" "ready (env (polls env c j (calls ?t)) c)" by simp_all
    then have "\<exists>k<n - 1. ready (env (polls env c k (calls ?t)) c)" by blast
    from Suc.IH [OF this] Suc.prems(2) False show ?thesis by simp
  qed simp
qed

lemma spin_returns: "settles env c ready n \<Longrightarrow> n \<le> fuel \<Longrightarrow> result (spin env c ready fuel) s = Some ()"
  unfolding settles_def by (blast intro: spin_returns_within)

text \<open>The reads a spin makes: not ready up to the last, and that one ready when it returns.\<close>

lemma run_spin:
  obtains vs where "run_state (spin env c ready fuel) s =
      (if vs \<noteq> [] \<and> ready (last vs) then Some () else None,
       s\<lparr>calls := calls s @ map (Pair c) vs\<rparr>)"
    and "list_all (\<lambda>v. \<not> ready v) (butlast vs)"
proof -
  have "\<exists>vs. run_state (spin env c ready fuel) s =
      (if vs \<noteq> [] \<and> ready (last vs) then Some () else None,
       s\<lparr>calls := calls s @ map (Pair c) vs\<rparr>) \<and> list_all (\<lambda>v. \<not> ready v) (butlast vs)"
  proof (induction fuel arbitrary: s)
    case 0
    show ?case by (intro exI [of _ "[]"]) simp
  next
    case (Suc fuel)
    let ?v = "env (calls s) c"
    obtain vs where vs: "run_state (spin env c ready fuel) (s\<lparr>calls := calls s @ [(c, ?v)]\<rparr>) =
        (if vs \<noteq> [] \<and> ready (last vs) then Some () else None,
         s\<lparr>calls := calls s @ map (Pair c) (?v # vs)\<rparr>)" "list_all (\<lambda>v. \<not> ready v) (butlast vs)"
      using Suc.IH [of "s\<lparr>calls := calls s @ [(c, ?v)]\<rparr>"] by auto
    show ?case
    proof (cases "ready ?v")
      case True
      then show ?thesis by (intro exI [of _ "[?v]"]) simp
    next
      case False
      with vs show ?thesis by (intro exI [of _ "?v # vs"]) simp
    qed
  qed
  with that show ?thesis by blast
qed

lemma settles_weaken: "settles env c P n \<Longrightarrow> (\<And>r. P r \<Longrightarrow> Q r) \<Longrightarrow> settles env c Q n"
  unfolding settles_def by blast

section \<open>Words as bytes in memory and on the wire\<close>

text \<open>
  The targets are little-endian, so \<open>memcpy\<close> of an integer writes its low byte first, and
  \<open>sys_cpu_to_be32\<close> and \<open>sys_be32_to_cpu\<close> reverse the four bytes.
\<close>

definition bytes_le :: "nat \<Rightarrow> 'a::len word \<Rightarrow> u8 list" where
  "bytes_le n w = map (\<lambda>i. ucast (drop_bit (8 * i) w)) [0..<n]"

fun word_le :: "u8 list \<Rightarrow> 'a::len word" where
  "word_le [] = 0"
| "word_le (b # bs) = ucast b OR push_bit 8 (word_le bs)"

definition bswap32 :: "u32 \<Rightarrow> u32" where
  "bswap32 w =
     push_bit 24 (take_bit 8 w) OR push_bit 16 (take_bit 8 (drop_bit 8 w)) OR
     push_bit 8 (take_bit 8 (drop_bit 16 w)) OR drop_bit 24 w"

lemma length_bytes_le [simp]: "length (bytes_le n w) = n"
  by (simp add: bytes_le_def)

lemma bit_bswap32:
  "bit (bswap32 w) n \<longleftrightarrow>
     (if n < 8 then bit w (n + 24) else if n < 16 then bit w (n + 8)
      else if n < 24 then bit w (n - 8) else n < 32 \<and> bit w (n - 24))"
proof -
  have big: "\<not> bit w k" if "32 \<le> k" for k
    using that bit_imp_le_length [of w k] by auto
  consider "n < 8" | "8 \<le> n" "n < 16" | "16 \<le> n" "n < 24" | "24 \<le> n" "n < 32" | "32 \<le> n"
    by linarith
  then show ?thesis
    by cases (auto simp: bswap32_def bit_simps big add.commute)
qed

lemma bswap32_bswap32 [simp]: "bswap32 (bswap32 w) = w"
proof (rule bit_word_eqI)
  fix n assume "n < LENGTH(32)"
  then consider "n < 8" | "8 \<le> n" "n < 16" | "16 \<le> n" "n < 24" | "24 \<le> n" "n < 32"
    by fastforce
  then show "bit (bswap32 (bswap32 w)) n = bit w n"
    by cases (auto simp: bit_bswap32)
qed

lemma bytes_le_bswap32:
  "bytes_le 4 (bswap32 w) =
     [ucast (drop_bit 24 w), ucast (drop_bit 16 w), ucast (drop_bit 8 w), ucast w]"
proof -
  have "[0..<4] = [0, 1, 2, 3::nat]" by (simp add: upt_rec)
  moreover have "ucast (drop_bit (8 * 0) (bswap32 w)) = (ucast (drop_bit 24 w) :: u8)"
    and "ucast (drop_bit (8 * 1) (bswap32 w)) = (ucast (drop_bit 16 w) :: u8)"
    and "ucast (drop_bit (8 * 2) (bswap32 w)) = (ucast (drop_bit 8 w) :: u8)"
    and "ucast (drop_bit (8 * 3) (bswap32 w)) = (ucast w :: u8)"
    by (rule bit_word_eqI; simp add: bit_simps bit_bswap32 add.commute)+
  ultimately show ?thesis by (simp add: bytes_le_def)
qed

lemma word_le_bytes_le:
  "LENGTH('a) \<le> 8 * n \<Longrightarrow> word_le (bytes_le n w) = (w :: 'a::len word)"
proof -
  have gen: "bit (word_le (map (\<lambda>i. ucast (drop_bit (8 * i) w)) [k..<k + n]) :: 'a word) j \<longleftrightarrow>
      j < 8 * n \<and> bit w (8 * k + j)" if "j < LENGTH('a)" for j k
    using that
  proof (induction n arbitrary: k j)
    case 0
    then show ?case by simp
  next
    case (Suc n)
    have "[k..<k + Suc n] = k # [Suc k..<Suc k + n]" by (simp add: upt_rec)
    moreover have "8 \<le> j \<Longrightarrow> 8 * Suc k + (j - 8) = 8 * k + j" by simp
    ultimately show ?case
      using Suc.IH [of "j - 8" "Suc k"] Suc.prems
      by (auto simp: bit_simps)
  qed
  assume "LENGTH('a) \<le> 8 * n"
  then show ?thesis
    by (intro bit_word_eqI) (use gen [of _ 0] in \<open>auto simp: bytes_le_def\<close>)
qed

section \<open>Lists written by index\<close>

text \<open>Writing a block of values at consecutive indices, the loop the code uses for buffers.\<close>

fun write_at :: "nat \<Rightarrow> 'a list \<Rightarrow> 'a list \<Rightarrow> 'a list" where
  "write_at k [] buf = buf"
| "write_at k (x # xs) buf = write_at (Suc k) xs (buf[k := x])"

lemma length_write_at [simp]: "length (write_at k xs buf) = length buf"
  by (induction xs arbitrary: k buf) auto

lemma nth_write_at:
  "k + length xs \<le> length buf \<Longrightarrow> i < length buf \<Longrightarrow>
   write_at k xs buf ! i = (if k \<le> i \<and> i < k + length xs then xs ! (i - k) else buf ! i)"
proof (induction xs arbitrary: k buf)
  case Nil
  then show ?case by auto
next
  case (Cons x xs)
  have "i - k = Suc (i - Suc k)" if "Suc k \<le> i" using that by simp
  with Cons show ?case by (auto simp: nth_list_update nth_Cons')
qed

section \<open>Numbers as text\<close>

text \<open>Formatting of \<open>%u\<close> and \<open>%X\<close>, with the field width of the conversion.\<close>

definition digit :: "nat \<Rightarrow> char" where
  "digit d = char_of (if d < 10 then 48 + d else 55 + d)"

fun digits :: "nat \<Rightarrow> nat \<Rightarrow> string" where
  "digits base n =
     (if n < base \<or> base < 2 then [digit n] else digits base (n div base) @ [digit (n mod base)])"

declare digits.simps [simp del]

definition pad :: "nat \<Rightarrow> char \<Rightarrow> string \<Rightarrow> string" where
  "pad k c t = replicate (k - length t) c @ t"

lemma length_pad [simp]: "length (pad k c t) = max k (length t)"
  by (simp add: pad_def)

lemma length_digits: "2 \<le> base \<Longrightarrow> n < base ^ Suc k \<Longrightarrow> length (digits base n) \<le> Suc k"
proof (induction k arbitrary: n)
  case 0
  then show ?case by (subst digits.simps) simp
next
  case (Suc k)
  have "n div base < base ^ Suc k"
    using Suc.prems by (simp add: less_mult_imp_div_less mult.commute)
  then have "length (digits base (n div base)) \<le> Suc k" using Suc by blast
  then show ?case by (subst digits.simps) simp
qed

end
