(* ===== verification/Pmu_Regs.thy ===== *)
theory Pmu_Regs
  imports Prelude
begin

text \<open>
  The register map of the PMU / DVFS block as the vendor headers and \<open>pmu.h\<close> give it: the
  memory map \<open>Ifx_PMU\<close> and the bit-field structs of \<open>IfxPmu_regdef.h\<close>, the length, mask and
  offset macros of \<open>IfxPmu_bf.h\<close>, and the register-wide masks of \<open>pmu.h\<close>. The lemmas show
  that the two vendor headers describe the same layout and that the fields of a register never
  overlap.
\<close>

section \<open>Memory map\<close>

datatype pmu_member =
  reserved_0 | DVFSCTRL | DVFSPSTATEREQ | DVFSSTATUS | CURRVOLTMV | CURRFREQMHZ
| reserved_18 | DVFSPSTATETABLE_PSTATE | reserved_128

text \<open>The members of the struct in order, each with its size in bytes.\<close>

definition Ifx_PMU :: "(pmu_member \<times> nat) list" where
  "Ifx_PMU =
     [(reserved_0, 4), (DVFSCTRL, 4), (DVFSPSTATEREQ, 4), (DVFSSTATUS, 4), (CURRVOLTMV, 4),
      (CURRFREQMHZ, 4), (reserved_18, 232), (DVFSPSTATETABLE_PSTATE, 10 * 4),
      (reserved_128, 65240)]"

fun offsetof :: "('m \<times> nat) list \<Rightarrow> 'm \<Rightarrow> nat" where
  "offsetof [] m = 0"
| "offsetof ((k, n) # ms) m = (if k = m then 0 else n + offsetof ms m)"

definition PMU_REG_DVFSCTRL :: u32 where
  "PMU_REG_DVFSCTRL = of_nat (offsetof Ifx_PMU DVFSCTRL)"

definition PMU_REG_DVFSPSTATEREQ :: u32 where
  "PMU_REG_DVFSPSTATEREQ = of_nat (offsetof Ifx_PMU DVFSPSTATEREQ)"

definition PMU_REG_DVFSSTATUS :: u32 where
  "PMU_REG_DVFSSTATUS = of_nat (offsetof Ifx_PMU DVFSSTATUS)"

definition PMU_REG_CURRVOLTMV :: u32 where
  "PMU_REG_CURRVOLTMV = of_nat (offsetof Ifx_PMU CURRVOLTMV)"

definition PMU_REG_CURRFREQMHZ :: u32 where
  "PMU_REG_CURRFREQMHZ = of_nat (offsetof Ifx_PMU CURRFREQMHZ)"

definition PMU_REG_PSTATE_TABLE :: "u8 \<Rightarrow> u32" where
  "PMU_REG_PSTATE_TABLE i = of_nat (offsetof Ifx_PMU DVFSPSTATETABLE_PSTATE) + 4 * ucast i"

text \<open>The array size of \<open>DVFSPSTATETABLE_PSTATE\<close>.\<close>

definition PMU_MAX_PSTATES :: u8 where
  "PMU_MAX_PSTATES = 10"

section \<open>Bit fields\<close>

datatype pmu_field =
  DVFSEN | MODESEL | NUMSTATES | TRANSTIMEOUT
| TARGETPSTATE
| CURRPSTATE | TRANSPENDING | BUSY | TRANSPHASE | ERROR
| VOLT_VALUE | FREQ_VALUE
| FREQ | VOLTAGE
| reserved nat

text \<open>The bit-field structs: the fields of each register from bit 0 up, with their widths.\<close>

fun reg_bits :: "pmu_member \<Rightarrow> (pmu_field \<times> nat) list" where
  "reg_bits CURRFREQMHZ = [(FREQ_VALUE, 32)]"
| "reg_bits CURRVOLTMV = [(VOLT_VALUE, 32)]"
| "reg_bits DVFSCTRL =
     [(DVFSEN, 1), (MODESEL, 1), (reserved 2, 2), (NUMSTATES, 4), (TRANSTIMEOUT, 16),
      (reserved 24, 8)]"
| "reg_bits DVFSPSTATEREQ = [(TARGETPSTATE, 4), (reserved 4, 28)]"
| "reg_bits DVFSPSTATETABLE_PSTATE = [(FREQ, 16), (VOLTAGE, 16)]"
| "reg_bits DVFSSTATUS =
     [(CURRPSTATE, 4), (TRANSPENDING, 1), (BUSY, 1), (TRANSPHASE, 3), (ERROR, 1),
      (reserved 10, 22)]"
| "reg_bits _ = []"

text \<open>The macros of \<open>IfxPmu_bf.h\<close>; a reserved field has none.\<close>

fun IFX_PMU_LEN :: "pmu_field \<Rightarrow> nat" where
  "IFX_PMU_LEN DVFSEN = 1"
| "IFX_PMU_LEN MODESEL = 1"
| "IFX_PMU_LEN NUMSTATES = 4"
| "IFX_PMU_LEN TRANSTIMEOUT = 16"
| "IFX_PMU_LEN TARGETPSTATE = 4"
| "IFX_PMU_LEN CURRPSTATE = 4"
| "IFX_PMU_LEN TRANSPENDING = 1"
| "IFX_PMU_LEN BUSY = 1"
| "IFX_PMU_LEN TRANSPHASE = 3"
| "IFX_PMU_LEN ERROR = 1"
| "IFX_PMU_LEN VOLT_VALUE = 32"
| "IFX_PMU_LEN FREQ_VALUE = 32"
| "IFX_PMU_LEN FREQ = 16"
| "IFX_PMU_LEN VOLTAGE = 16"
| "IFX_PMU_LEN (reserved _) = 0"

fun IFX_PMU_MSK :: "pmu_field \<Rightarrow> u32" where
  "IFX_PMU_MSK DVFSEN = 0x1"
| "IFX_PMU_MSK MODESEL = 0x1"
| "IFX_PMU_MSK NUMSTATES = 0xf"
| "IFX_PMU_MSK TRANSTIMEOUT = 0xffff"
| "IFX_PMU_MSK TARGETPSTATE = 0xf"
| "IFX_PMU_MSK CURRPSTATE = 0xf"
| "IFX_PMU_MSK TRANSPENDING = 0x1"
| "IFX_PMU_MSK BUSY = 0x1"
| "IFX_PMU_MSK TRANSPHASE = 0x7"
| "IFX_PMU_MSK ERROR = 0x1"
| "IFX_PMU_MSK VOLT_VALUE = 0xffffffff"
| "IFX_PMU_MSK FREQ_VALUE = 0xffffffff"
| "IFX_PMU_MSK FREQ = 0xffff"
| "IFX_PMU_MSK VOLTAGE = 0xffff"
| "IFX_PMU_MSK (reserved _) = 0"

fun IFX_PMU_OFF :: "pmu_field \<Rightarrow> nat" where
  "IFX_PMU_OFF DVFSEN = 0"
| "IFX_PMU_OFF MODESEL = 1"
| "IFX_PMU_OFF NUMSTATES = 4"
| "IFX_PMU_OFF TRANSTIMEOUT = 8"
| "IFX_PMU_OFF TARGETPSTATE = 0"
| "IFX_PMU_OFF CURRPSTATE = 0"
| "IFX_PMU_OFF TRANSPENDING = 4"
| "IFX_PMU_OFF BUSY = 5"
| "IFX_PMU_OFF TRANSPHASE = 6"
| "IFX_PMU_OFF ERROR = 9"
| "IFX_PMU_OFF VOLT_VALUE = 0"
| "IFX_PMU_OFF FREQ_VALUE = 0"
| "IFX_PMU_OFF FREQ = 0"
| "IFX_PMU_OFF VOLTAGE = 16"
| "IFX_PMU_OFF (reserved _) = 0"

definition PMU_FIELD_MSK :: "pmu_field \<Rightarrow> u32" where
  "PMU_FIELD_MSK f = push_bit (IFX_PMU_OFF f) (IFX_PMU_MSK f)"

definition PMU_FIELD_POS :: "pmu_field \<Rightarrow> nat" where
  "PMU_FIELD_POS f = IFX_PMU_OFF f"

section \<open>The two headers agree\<close>

text \<open>The value of a field in a register, and a register with one field replaced.\<close>

definition get_field :: "pmu_field \<Rightarrow> u32 \<Rightarrow> u32" where
  "get_field f w = drop_bit (PMU_FIELD_POS f) (w AND PMU_FIELD_MSK f)"

definition is_reserved :: "pmu_field \<Rightarrow> bool" where
  "is_reserved f = (case f of reserved _ \<Rightarrow> True | _ \<Rightarrow> False)"

lemma IFX_PMU_MSK_mask: "IFX_PMU_MSK f = mask (IFX_PMU_LEN f)"
  by (cases f) (simp_all add: mask_eq_exp_minus_1)

lemma bit_PMU_FIELD_MSK:
  "bit (PMU_FIELD_MSK f) n \<longleftrightarrow>
     n < 32 \<and> IFX_PMU_OFF f \<le> n \<and> n < IFX_PMU_OFF f + IFX_PMU_LEN f"
  by (auto simp: PMU_FIELD_MSK_def IFX_PMU_MSK_mask bit_simps)

lemma get_field_take_bit:
  "get_field f w = take_bit (IFX_PMU_LEN f) (drop_bit (IFX_PMU_OFF f) w)"
  by (rule bit_word_eqI)
    (auto simp: get_field_def PMU_FIELD_POS_def bit_PMU_FIELD_MSK bit_simps
          dest: bit_imp_le_length)

lemma bit_get_field:
  "bit (get_field f w) n \<longleftrightarrow> n < IFX_PMU_LEN f \<and> bit w (IFX_PMU_OFF f + n)"
  by (simp only: get_field_take_bit bit_take_bit_iff bit_drop_bit_eq comp_def)

lemma get_field_nonzero:
  "get_field f w \<noteq> 0 \<longleftrightarrow> (\<exists>n < IFX_PMU_LEN f. bit w (IFX_PMU_OFF f + n))"
  by (metis bit_0_eq bit_eqI bit_get_field bot2E bot_apply bot_bool_def)

lemma get_field_less: "unat (get_field f w) < 2 ^ IFX_PMU_LEN f"
  by (simp add: get_field_take_bit unsigned_take_bit_eq take_bit_nat_less_exp)

text \<open>The named register offsets as numbers.\<close>

lemma pmu_offsets [simp]:
  "PMU_REG_DVFSCTRL = 0x4" "PMU_REG_DVFSPSTATEREQ = 0x8" "PMU_REG_DVFSSTATUS = 0xC"
  "PMU_REG_CURRVOLTMV = 0x10" "PMU_REG_CURRFREQMHZ = 0x14"
  "PMU_REG_PSTATE_TABLE i = 0x100 + 4 * ucast i"
  by (simp_all add: PMU_REG_DVFSCTRL_def PMU_REG_DVFSPSTATEREQ_def PMU_REG_DVFSSTATUS_def
      PMU_REG_CURRVOLTMV_def PMU_REG_CURRFREQMHZ_def PMU_REG_PSTATE_TABLE_def Ifx_PMU_def)

text \<open>The absolute addresses of \<open>IfxPmu_reg.h\<close>: of each register, and of each entry of the table.\<close>

definition PMU_ADDRESSES :: "(pmu_member \<times> u32) list" where
  "PMU_ADDRESSES =
     [(DVFSCTRL, 0x4), (DVFSPSTATEREQ, 0x8), (DVFSSTATUS, 0xC), (CURRVOLTMV, 0x10),
      (CURRFREQMHZ, 0x14), (DVFSPSTATETABLE_PSTATE, 0x100)]"

definition PMU_PSTATE_ADDRESSES :: "u32 list" where
  "PMU_PSTATE_ADDRESSES =
     [0x100, 0x104, 0x108, 0x10C, 0x110, 0x114, 0x118, 0x11C, 0x120, 0x124]"

text \<open>
  The two layouts: in each register's bit-field struct the fields fill the 32 bits exactly, and
  for every field that is not reserved the macros \<open>_LEN\<close>, \<open>_OFF\<close> and \<open>_MSK\<close> are its width, the
  sum of the widths below it and the mask of that width. The absolute addresses are the offsets of
  the struct, and those of the table entries are what the driver computes for an index.
\<close>

lemma pmu_layouts_agree:
  "list_all (\<lambda>r. sum_list (map snd (reg_bits r)) = 32 \<and>
       list_all (\<lambda>(f, n). is_reserved f \<or>
         IFX_PMU_LEN f = n \<and> IFX_PMU_OFF f = offsetof (reg_bits r) f \<and> IFX_PMU_MSK f = mask n)
         (reg_bits r))
     [CURRFREQMHZ, CURRVOLTMV, DVFSCTRL, DVFSPSTATEREQ, DVFSPSTATETABLE_PSTATE, DVFSSTATUS] \<and>
   sum_list (map snd Ifx_PMU) = 64 * 1024 \<and>
   list_all (\<lambda>(r, a). a = of_nat (offsetof Ifx_PMU r)) PMU_ADDRESSES \<and>
   PMU_PSTATE_ADDRESSES = map (\<lambda>i. PMU_REG_PSTATE_TABLE (of_nat i)) [0..<unat PMU_MAX_PSTATES]"
proof (intro conjI)
  show "list_all (\<lambda>r. sum_list (map snd (reg_bits r)) = 32 \<and>
       list_all (\<lambda>(f, n). is_reserved f \<or>
         IFX_PMU_LEN f = n \<and> IFX_PMU_OFF f = offsetof (reg_bits r) f \<and> IFX_PMU_MSK f = mask n)
         (reg_bits r))
     [CURRFREQMHZ, CURRVOLTMV, DVFSCTRL, DVFSPSTATEREQ, DVFSPSTATETABLE_PSTATE, DVFSSTATUS]"
    by (simp add: is_reserved_def mask_eq_exp_minus_1)
  show "PMU_PSTATE_ADDRESSES = map (\<lambda>i. PMU_REG_PSTATE_TABLE (of_nat i)) [0..<unat PMU_MAX_PSTATES]"
    by (simp add: PMU_PSTATE_ADDRESSES_def PMU_MAX_PSTATES_def PMU_REG_PSTATE_TABLE_def Ifx_PMU_def upt_rec)
qed (simp_all add: Ifx_PMU_def PMU_ADDRESSES_def)

end
