(* ===== verification/Pmu_Test.thy ===== *)
theory Pmu_Test
  imports Pmu_Regs
begin

text \<open>
  The register unions of \<open>IfxPmu_regdef.h\<close> and the vendor's compile and execution test of the
  headers, \<open>IfxPmu_test.c\<close>: which registers it touches, which fields and macros it names, and
  what it leaves behind. \<open>Ifx_Sfr_test.h\<close> defines \<open>SFR_TEST\<close>, so the function is \<open>Pmu_main\<close>.
\<close>

section \<open>Register unions\<close>

text \<open>
  Each register is a union of an unsigned word, a signed word and a bit-field struct. All of them
  see the same 32 bits; a field that the struct of the register lacks has no view.
\<close>

datatype sfr_view = U | I | B pmu_field

fun sfr_value :: "sfr_view \<Rightarrow> u32 \<Rightarrow> int" where
  "sfr_value U w = uint w"
| "sfr_value I w = sint w"
| "sfr_value (B f) w = uint (get_field f w)"

text \<open>The signed word and the unsigned word have the same bits, and a field is below its power.\<close>

lemma sfr_value_same_bits: "word_of_int (sfr_value U w) = w" "word_of_int (sfr_value I w) = w"
  by simp_all

lemma sfr_value_field_bound: "0 \<le> sfr_value (B f) w" "sfr_value (B f) w < 2 ^ IFX_PMU_LEN f"
proof -
  have "int (unat (get_field f w)) < int (2 ^ IFX_PMU_LEN f)"
    using get_field_less [of f w] by (simp only: of_nat_less_iff)
  then show "sfr_value (B f) w < 2 ^ IFX_PMU_LEN f" by simp
qed simp

section \<open>The test\<close>

text \<open>
  A statement of the test assigns an element of the array \<open>dummy\<close>, from a register through one of
  its views, or from one of the three macros of a field.
\<close>

datatype test_expr =
  Register pmu_member sfr_view
| Macro_LEN pmu_field | Macro_MSK pmu_field | Macro_OFF pmu_field

type_synonym test_stmt = "nat \<times> test_expr"

definition register_reads :: "pmu_member \<Rightarrow> pmu_field list \<Rightarrow> test_stmt list" where
  "register_reads r fs = (0, Register r U) # map (\<lambda>f. (0, Register r (B f))) fs"

definition macro_reads :: "pmu_field \<Rightarrow> test_stmt list" where
  "macro_reads f = [(0, Macro_LEN f), (1, Macro_MSK f), (2, Macro_OFF f)]"

definition test_registers :: "test_stmt list" where
  "test_registers =
     register_reads DVFSCTRL [DVFSEN, MODESEL, NUMSTATES, TRANSTIMEOUT] @
     register_reads DVFSPSTATEREQ [TARGETPSTATE] @
     register_reads DVFSSTATUS [CURRPSTATE, TRANSPENDING, BUSY, TRANSPHASE, ERROR] @
     register_reads CURRVOLTMV [VOLT_VALUE] @
     register_reads CURRFREQMHZ [FREQ_VALUE] @
     register_reads DVFSPSTATETABLE_PSTATE [FREQ, VOLTAGE]"

definition test_macros :: "test_stmt list" where
  "test_macros =
     concat (map macro_reads
       [DVFSEN, MODESEL, NUMSTATES, TRANSTIMEOUT, TARGETPSTATE,
        CURRPSTATE, TRANSPENDING, BUSY, TRANSPHASE, ERROR,
        VOLT_VALUE, FREQ_VALUE, FREQ, VOLTAGE])"

text \<open>The registers are volatile: every mention is a load of the address the header gives.\<close>

datatype test_call = printf string | load u32

type_synonym test_env = "(test_call, u32) env"

record test_frame = "(test_call, u32) io" +
  dummy :: "u32 list"

definition sfr_address :: "pmu_member \<Rightarrow> u32" where
  "sfr_address r = the (map_of PMU_ADDRESSES r)"

fun test_value :: "test_env \<Rightarrow> test_expr \<Rightarrow> (test_frame, u32) state" where
  "test_value env (Register r v) = do {
     w \<leftarrow> ask env (load (sfr_address r));
     return (word_of_int (sfr_value v w))
   }"
| "test_value env (Macro_LEN f) = return (of_nat (IFX_PMU_LEN f))"
| "test_value env (Macro_MSK f) = return (IFX_PMU_MSK f)"
| "test_value env (Macro_OFF f) = return (of_nat (IFX_PMU_OFF f))"

primrec assign_all :: "test_env \<Rightarrow> test_stmt list \<Rightarrow> (test_frame, unit) state" where
  "assign_all env [] = return ()"
| "assign_all env (st # sts) = do {
     x \<leftarrow> test_value env (snd st);
     modify (\<lambda>s. s\<lparr>dummy := (dummy s)[fst st := x]\<rparr>);
     assign_all env sts
   }"

definition Pmu_main :: "test_env \<Rightarrow> (test_frame, int) state" where
  "Pmu_main env = do {
     tell env (printf ''Compile & execution ok'');
     assign_all env test_registers;
     assign_all env test_macros;
     modify (\<lambda>s. s\<lparr>dummy := (dummy s)[0 := dummy s ! 0 + 0]\<rparr>);
     return 0
   }"

section \<open>What the test touches\<close>

fun loads :: "test_stmt \<Rightarrow> test_call list" where
  "loads (k, Register r v) = [load (sfr_address r)]"
| "loads _ = []"

lemma assign_all_loads:
  "\<exists>new. calls (final (assign_all env sts) s) = calls s @ new \<and> map fst new = concat (map loads sts)"
proof (induction sts arbitrary: s)
  case (Cons st sts)
  obtain k e where st: "st = (k, e)" by (cases st)
  show ?case
  proof (cases e)
    case (Register r v)
    let ?w = "env (calls s) (load (sfr_address r))"
    let ?s = "s\<lparr>calls := calls s @ [(load (sfr_address r), ?w)],
      dummy := (dummy s)[k := word_of_int (sfr_value v ?w)]\<rparr>"
    show ?thesis using Cons.IH [of ?s] by (auto simp: st Register)
  next
    case (Macro_LEN f)
    then show ?thesis using Cons.IH [of "s\<lparr>dummy := (dummy s)[k := of_nat (IFX_PMU_LEN f)]\<rparr>"] by (simp add: st)
  next
    case (Macro_MSK f)
    then show ?thesis using Cons.IH [of "s\<lparr>dummy := (dummy s)[k := IFX_PMU_MSK f]\<rparr>"] by (simp add: st)
  next
    case (Macro_OFF f)
    then show ?thesis using Cons.IH [of "s\<lparr>dummy := (dummy s)[k := of_nat (IFX_PMU_OFF f)]\<rparr>"] by (simp add: st)
  qed
qed simp

lemma assign_all_append:
  "assign_all env (xs @ ys) = do { assign_all env xs; assign_all env ys }"
  by (induction xs) (simp_all add: State_Monad.bind_assoc)

lemma assign_all_length: "length (dummy (final (assign_all env sts) s)) = length (dummy s)"
proof (induction sts arbitrary: s)
  case (Cons st sts)
  then show ?case by (cases st; cases "snd st") simp_all
qed simp

text \<open>The last three macro reads fill the array, whatever was there before.\<close>

lemma assign_macro_reads:
  "length (dummy s) = 3 \<Longrightarrow>
   dummy (final (assign_all env (macro_reads f)) s) =
     [of_nat (IFX_PMU_LEN f), IFX_PMU_MSK f, of_nat (IFX_PMU_OFF f)]"
  by (auto simp: macro_reads_def length_Suc_conv numeral_3_eq_3)

lemma test_macros_last: "\<exists>sts. test_macros = sts @ macro_reads VOLTAGE"
  by (simp add: test_macros_def)

lemma test_registers_loads:
  "concat (map loads test_registers) =
     concat (map (\<lambda>(a, n). replicate n (load a))
       [(0x4, 5), (0x8, 2), (0xC, 6), (0x10, 2), (0x14, 2), (0x100, 3)])"
  by (simp add: test_registers_def register_reads_def sfr_address_def PMU_ADDRESSES_def eval_nat_numeral)

lemma test_macros_loads: "concat (map loads test_macros) = []"
  by (simp add: test_macros_def macro_reads_def)

lemma test_fields:
  "(0, Register r (B f)) \<in> set test_registers \<longleftrightarrow> f \<in> fst ` set (reg_bits r) \<and> \<not> is_reserved f"
  by (cases r; cases f) (simp_all add: test_registers_def register_reads_def is_reserved_def)

lemma test_named: "set (macro_reads f) \<subseteq> set test_macros \<longleftrightarrow> \<not> is_reserved f"
  by (cases f) (simp_all add: test_macros_def macro_reads_def is_reserved_def)

lemma Pmu_main_runs:
  fixes env :: test_env and h :: "(test_call \<times> u32) list" and a b c :: u32
  defines "s \<equiv> \<lparr>calls = h, dummy = [a, b, c]\<rparr>"
  shows "result (Pmu_main env) s = 0"
    and "map fst (calls (final (Pmu_main env) s)) =
      map fst h @ printf ''Compile & execution ok'' # concat (map loads test_registers)"
    and "dummy (final (Pmu_main env) s) = [16, 0xffff, 16]"
proof -
  let ?p = "printf ''Compile & execution ok''"
  define s1 where "s1 = s\<lparr>calls := h @ [(?p, env h ?p)]\<rparr>"
  define s2 where "s2 = final (assign_all env test_registers) s1"
  define s3 where "s3 = final (assign_all env test_macros) s2"
  have run: "run_state (Pmu_main env) s = (0, s3\<lparr>dummy := (dummy s3)[0 := dummy s3 ! 0]\<rparr>)"
    by (simp add: Pmu_main_def s_def s1_def s2_def s3_def split_beta)
  then show "result (Pmu_main env) s = 0" by simp
  obtain m2 where m2: "calls s2 = calls s1 @ m2" "map fst m2 = concat (map loads test_registers)"
    unfolding s2_def using assign_all_loads by blast
  obtain m3 where m3: "calls s3 = calls s2 @ m3" "map fst m3 = []"
    unfolding s3_def test_macros_loads [symmetric] using assign_all_loads by blast
  show "map fst (calls (final (Pmu_main env) s)) = map fst h @ ?p # concat (map loads test_registers)"
    using run m2 m3 by (simp add: s1_def s_def)
  obtain sts where sts: "test_macros = sts @ macro_reads VOLTAGE" using test_macros_last by blast
  have "length (dummy s2) = 3" by (simp add: s2_def assign_all_length s1_def s_def)
  then have "dummy s3 = [16, 0xffff, 16]"
    by (simp add: s3_def sts assign_all_append assign_macro_reads assign_all_length split_beta)
  then show "dummy (final (Pmu_main env) s) = [16, 0xffff, 16]" using run by simp
qed

text \<open>
  Property C24. The vendor's headers agree on every register: in each register's bit-field
  struct the fields fill the 32 bits exactly, and for every field that is not reserved the
  macros \<open>_LEN\<close>, \<open>_OFF\<close> and \<open>_MSK\<close> of \<open>IfxPmu_bf.h\<close> are its width, the sum of the
  widths below it and the mask of that width. The absolute addresses of \<open>IfxPmu_reg.h\<close> are the
  offsets of the struct, and those of the table entries are what the driver computes for an index.
  The vendor's test of these headers covers them: it reads exactly the fields of each struct and the
  macros of each field that is not reserved. Run on any hardware it returns 0 after loading each
  register as often as it names it, writes no register, and reads only the first table entry.
\<close>

theorem pmu_headers_agree:
  "list_all (\<lambda>r. sum_list (map snd (reg_bits r)) = 32 \<and>
       list_all (\<lambda>(f, n). is_reserved f \<or>
         IFX_PMU_LEN f = n \<and> IFX_PMU_OFF f = offsetof (reg_bits r) f \<and> IFX_PMU_MSK f = mask n)
         (reg_bits r))
     [CURRFREQMHZ, CURRVOLTMV, DVFSCTRL, DVFSPSTATEREQ, DVFSPSTATETABLE_PSTATE, DVFSSTATUS] \<and>
   sum_list (map snd Ifx_PMU) = 64 * 1024 \<and>
   list_all (\<lambda>(r, a). a = of_nat (offsetof Ifx_PMU r)) PMU_ADDRESSES \<and>
   PMU_PSTATE_ADDRESSES = map (\<lambda>i. PMU_REG_PSTATE_TABLE (of_nat i)) [0..<unat PMU_MAX_PSTATES] \<and>
   {(r, f). (0, Register r (B f)) \<in> set test_registers} =
     {(r, f). f \<in> fst ` set (reg_bits r) \<and> \<not> is_reserved f} \<and>
   {f. set (macro_reads f) \<subseteq> set test_macros} = {f. \<not> is_reserved f} \<and>
   result (Pmu_main env) \<lparr>calls = h, dummy = [a, b, c]\<rparr> = 0 \<and>
   map fst (calls (final (Pmu_main env) \<lparr>calls = h, dummy = [a, b, c]\<rparr>)) =
     map fst h @ printf ''Compile & execution ok'' #
     concat (map (\<lambda>(addr, n). replicate n (load addr))
       [(0x4, 5), (0x8, 2), (0xC, 6), (0x10, 2), (0x14, 2), (0x100, 3)]) \<and>
   dummy (final (Pmu_main env) \<lparr>calls = h, dummy = [a, b, c]\<rparr>) = [16, 0xffff, 16]"
  using pmu_layouts_agree Pmu_main_runs [where env = env and h = h and a = a and b = b and c = c]
  unfolding test_fields test_named test_registers_loads by blast

end
