(* ===== verification/Pmu_Driver.thy ===== *)
theory Pmu_Driver
  imports Pmu_Regs
begin

text \<open>
  The driver of \<open>modules/pmu/drivers/pmu/pmu.c\<close>: every function of its API table, the init
  hook and the inline wrappers of \<open>pmu.h\<close>. The memory-mapped block, the kernel's
  timepoints and \<open>k_busy_wait\<close> are external: a register access is a \<open>sys_read32\<close> or
  \<open>sys_write32\<close> call in the record of calls, and what a read returns is up to the
  environment. Log output is left out. The lemmas give the calls each operation makes and
  what it returns, for every environment.
\<close>

section \<open>State and configuration\<close>

datatype pmu_call =
  sys_read32 u32 | sys_write32 u32 u32
| sys_timepoint_calc u32 | sys_timepoint_expired u32 | k_busy_wait u32 | k_msleep u32

type_synonym pmu_env = "(pmu_call, u32) env"

text \<open>\<open>pmu_data\<close>, together with the calls made so far.\<close>

record pmu_data = "(pmu_call, u32) io" +
  initialized :: bool

record pmu_config =
  base :: u32
  reg_size :: u32
  num_pstates :: u8
  transition_timeout_us :: u16
  init_enable :: bool
  init_pstate :: u8
  pstate_table :: "u32 list option"
  pstate_table_len :: u32

text \<open>
  The instance that \<open>PMU_DEFINE\<close> builds from the devicetree properties: the table length is
  the array's size, or 0 when the property is absent.
\<close>

definition PMU_DEFINE ::
  "u32 \<Rightarrow> u32 \<Rightarrow> u8 \<Rightarrow> u16 \<Rightarrow> bool \<Rightarrow> u8 \<Rightarrow> u32 list option \<Rightarrow> pmu_config" where
  "PMU_DEFINE addr wsize n tmo ie ip tab =
     \<lparr>base = addr, reg_size = wsize, num_pstates = n, transition_timeout_us = tmo,
      init_enable = ie, init_pstate = ip, pstate_table = tab,
      pstate_table_len = (case tab of None \<Rightarrow> 0 | Some t \<Rightarrow> of_nat (length t))\<rparr>"

datatype pmu_mode = PMU_MODE_REGISTER | PMU_MODE_SIGNAL

record pmu_status =
  curr_pstate :: u8
  trans_pending :: bool
  busy :: bool
  trans_phase :: u8
  error_flag :: bool

record pmu_pstate =
  freq_mhz :: u16
  voltage_mv :: u16

type_synonym 'a pmu_prog = "(pmu_data, 'a) state"

section \<open>Low-level helpers\<close>

definition pmu_reg_check :: "pmu_config \<Rightarrow> u32 \<Rightarrow> int" where
  "pmu_reg_check cfg offset =
     (if offset AND 3 \<noteq> 0 then - EINVAL
      else if reg_size cfg \<le> offset then - EINVAL
      else 0)"

definition pmu_ctrl_rmw :: "pmu_env \<Rightarrow> u32 \<Rightarrow> u32 \<Rightarrow> u32 \<Rightarrow> unit pmu_prog" where
  "pmu_ctrl_rmw env bs mask' val = do {
     reg \<leftarrow> ask env (sys_read32 (bs + PMU_REG_DVFSCTRL));
     tell env (sys_write32 (bs + PMU_REG_DVFSCTRL) ((reg AND NOT mask') OR (val AND mask')))
   }"

section \<open>Raw register access\<close>

text \<open>
  A function with an out-parameter returns \<open>Inl\<close> of the error code, or \<open>Inr\<close> of what it
  stored there; the caller's pointer may be \<open>NULL\<close>.
\<close>

definition pmu_api_read_reg :: "pmu_env \<Rightarrow> pmu_config \<Rightarrow> u32 \<Rightarrow> bool \<Rightarrow> (int + u32) pmu_prog"
  where
  "pmu_api_read_reg env cfg offset val_is_null =
     (let ret = pmu_reg_check cfg offset in
      if ret < 0 \<or> val_is_null then return (Inl (if ret \<noteq> 0 then ret else - EINVAL))
      else do {
        v \<leftarrow> ask env (sys_read32 (base cfg + offset));
        return (Inr v)
      })"

definition pmu_api_write_reg :: "pmu_env \<Rightarrow> pmu_config \<Rightarrow> u32 \<Rightarrow> u32 \<Rightarrow> int pmu_prog" where
  "pmu_api_write_reg env cfg offset val =
     (let ret = pmu_reg_check cfg offset in
      if ret < 0 then return ret
      else do {
        tell env (sys_write32 (base cfg + offset) val);
        return 0
      })"

section \<open>P-state table\<close>

definition pstate_word :: "u16 \<Rightarrow> u16 \<Rightarrow> u32" where
  "pstate_word freq volt =
     push_bit (PMU_FIELD_POS VOLTAGE) (ucast volt) OR (ucast freq AND PMU_FIELD_MSK FREQ)"

definition pmu_api_set_pstate_entry ::
  "pmu_env \<Rightarrow> pmu_config \<Rightarrow> u8 \<Rightarrow> u16 \<Rightarrow> u16 \<Rightarrow> int pmu_prog" where
  "pmu_api_set_pstate_entry env cfg idx freq volt =
     (if PMU_MAX_PSTATES \<le> idx then return (- EINVAL)
      else do {
        tell env (sys_write32 (base cfg + PMU_REG_PSTATE_TABLE idx) (pstate_word freq volt));
        return 0
      })"

definition decode_pstate :: "u32 \<Rightarrow> pmu_pstate" where
  "decode_pstate val =
     \<lparr>freq_mhz = ucast (val AND PMU_FIELD_MSK FREQ),
      voltage_mv = ucast (drop_bit (PMU_FIELD_POS VOLTAGE) (val AND PMU_FIELD_MSK VOLTAGE))\<rparr>"

definition pmu_api_get_pstate_entry ::
  "pmu_env \<Rightarrow> pmu_config \<Rightarrow> u8 \<Rightarrow> bool \<Rightarrow> (int + pmu_pstate) pmu_prog" where
  "pmu_api_get_pstate_entry env cfg idx entry_is_null =
     (if PMU_MAX_PSTATES \<le> idx \<or> entry_is_null then return (Inl (- EINVAL))
      else do {
        val \<leftarrow> ask env (sys_read32 (base cfg + PMU_REG_PSTATE_TABLE idx));
        return (Inr (decode_pstate val))
      })"

section \<open>Control-register helpers\<close>

definition pmu_api_set_num_states :: "pmu_env \<Rightarrow> pmu_config \<Rightarrow> u8 \<Rightarrow> int pmu_prog" where
  "pmu_api_set_num_states env cfg num =
     (if num = 0 \<or> PMU_MAX_PSTATES < num then return (- EINVAL)
      else do {
        pmu_ctrl_rmw env (base cfg) (PMU_FIELD_MSK NUMSTATES)
          (push_bit (PMU_FIELD_POS NUMSTATES) (ucast num));
        return 0
      })"

definition pmu_api_set_timeout_us :: "pmu_env \<Rightarrow> pmu_config \<Rightarrow> u16 \<Rightarrow> int pmu_prog" where
  "pmu_api_set_timeout_us env cfg us = do {
     pmu_ctrl_rmw env (base cfg) (PMU_FIELD_MSK TRANSTIMEOUT)
       (push_bit (PMU_FIELD_POS TRANSTIMEOUT) (ucast us));
     return 0
   }"

definition pmu_api_set_mode :: "pmu_env \<Rightarrow> pmu_config \<Rightarrow> pmu_mode \<Rightarrow> int pmu_prog" where
  "pmu_api_set_mode env cfg mode = do {
     pmu_ctrl_rmw env (base cfg) (PMU_FIELD_MSK MODESEL)
       (if mode = PMU_MODE_SIGNAL then PMU_FIELD_MSK MODESEL else 0);
     return 0
   }"

definition pmu_api_enable :: "pmu_env \<Rightarrow> pmu_config \<Rightarrow> bool \<Rightarrow> int pmu_prog" where
  "pmu_api_enable env cfg en = do {
     pmu_ctrl_rmw env (base cfg) (PMU_FIELD_MSK DVFSEN)
       (if en then PMU_FIELD_MSK DVFSEN else 0);
     return 0
   }"

definition pmu_api_request_pstate :: "pmu_env \<Rightarrow> pmu_config \<Rightarrow> u8 \<Rightarrow> int pmu_prog" where
  "pmu_api_request_pstate env cfg idx =
     (if PMU_MAX_PSTATES \<le> idx then return (- EINVAL)
      else do {
        tell env (sys_write32 (base cfg + PMU_REG_DVFSPSTATEREQ)
          (ucast idx AND PMU_FIELD_MSK TARGETPSTATE));
        return 0
      })"

section \<open>Status and telemetry\<close>

definition decode_status :: "u32 \<Rightarrow> pmu_status" where
  "decode_status reg =
     \<lparr>curr_pstate = ucast (reg AND PMU_FIELD_MSK CURRPSTATE),
      trans_pending = (reg AND PMU_FIELD_MSK TRANSPENDING \<noteq> 0),
      busy = (reg AND PMU_FIELD_MSK BUSY \<noteq> 0),
      trans_phase = ucast (drop_bit (PMU_FIELD_POS TRANSPHASE)
        (reg AND PMU_FIELD_MSK TRANSPHASE)),
      error_flag = (reg AND PMU_FIELD_MSK ERROR \<noteq> 0)\<rparr>"

definition pmu_api_get_status :: "pmu_env \<Rightarrow> pmu_config \<Rightarrow> bool \<Rightarrow> (int + pmu_status) pmu_prog"
  where
  "pmu_api_get_status env cfg st_is_null =
     (if st_is_null then return (Inl (- EINVAL))
      else do {
        reg \<leftarrow> ask env (sys_read32 (base cfg + PMU_REG_DVFSSTATUS));
        return (Inr (decode_status reg))
      })"

definition pmu_api_get_voltage_mv :: "pmu_env \<Rightarrow> pmu_config \<Rightarrow> bool \<Rightarrow> (int + u32) pmu_prog"
  where
  "pmu_api_get_voltage_mv env cfg mv_is_null =
     (if mv_is_null then return (Inl (- EINVAL))
      else do {
        mv \<leftarrow> ask env (sys_read32 (base cfg + PMU_REG_CURRVOLTMV));
        return (Inr mv)
      })"

definition pmu_api_get_freq_mhz :: "pmu_env \<Rightarrow> pmu_config \<Rightarrow> bool \<Rightarrow> (int + u32) pmu_prog"
  where
  "pmu_api_get_freq_mhz env cfg mhz_is_null =
     (if mhz_is_null then return (Inl (- EINVAL))
      else do {
        mhz \<leftarrow> ask env (sys_read32 (base cfg + PMU_REG_CURRFREQMHZ));
        return (Inr mhz)
      })"

text \<open>
  The busy-poll loop of \<open>pmu_api_wait_idle\<close>. It has no bound of its own, so the model gives it
  fuel, one unit per iteration; \<open>None\<close> is "still polling".
\<close>

fun wait_idle_loop :: "pmu_env \<Rightarrow> pmu_config \<Rightarrow> u32 \<Rightarrow> nat \<Rightarrow> int option pmu_prog" where
  "wait_idle_loop env cfg fin 0 = return None"
| "wait_idle_loop env cfg fin (Suc fuel) = do {
     reg \<leftarrow> ask env (sys_read32 (base cfg + PMU_REG_DVFSSTATUS));
     if reg AND (PMU_FIELD_MSK BUSY OR PMU_FIELD_MSK TRANSPENDING) = 0 then
       return (Some (if reg AND PMU_FIELD_MSK ERROR \<noteq> 0 then - EIO else 0))
     else do {
       expired \<leftarrow> ask env (sys_timepoint_expired fin);
       if expired \<noteq> 0 then return (Some (- ETIMEDOUT))
       else do {
         tell env (k_busy_wait 1);
         wait_idle_loop env cfg fin fuel
       }
     }
   }"

definition pmu_api_wait_idle :: "pmu_env \<Rightarrow> pmu_config \<Rightarrow> u32 \<Rightarrow> nat \<Rightarrow> int option pmu_prog" where
  "pmu_api_wait_idle env cfg timeout fuel = do {
     fin \<leftarrow> ask env (sys_timepoint_calc timeout);
     wait_idle_loop env cfg fin fuel
   }"

definition pmu_api_clear_error :: "pmu_env \<Rightarrow> pmu_config \<Rightarrow> int pmu_prog" where
  "pmu_api_clear_error env cfg = do {
     tell env (sys_write32 (base cfg + PMU_REG_DVFSSTATUS) (PMU_FIELD_MSK ERROR));
     return 0
   }"

section \<open>Init hook\<close>

text \<open>
  The table entry at an index of the flat table, and the loop that writes all entries. The
  index is in range: the length was compared with \<open>2 * num_pstates\<close> before.
\<close>

definition table_write :: "pmu_config \<Rightarrow> u32 list \<Rightarrow> nat \<Rightarrow> pmu_call" where
  "table_write cfg tab i =
     (let freq = ucast (tab ! (2 * i)); volt = ucast (tab ! (2 * i + 1)) in
      sys_write32 (base cfg + PMU_REG_PSTATE_TABLE (of_nat i)) (pstate_word freq volt))"

definition init_table_entry :: "pmu_env \<Rightarrow> pmu_config \<Rightarrow> u32 list \<Rightarrow> nat \<Rightarrow> unit pmu_prog" where
  "init_table_entry env cfg tab i = tell env (table_write cfg tab i)"

definition init_ctrl :: "pmu_config \<Rightarrow> u32" where
  "init_ctrl cfg =
     push_bit (PMU_FIELD_POS NUMSTATES) (ucast (num_pstates cfg)) OR
     push_bit (PMU_FIELD_POS TRANSTIMEOUT) (ucast (transition_timeout_us cfg))"

definition pmu_init_tail :: "pmu_env \<Rightarrow> pmu_config \<Rightarrow> int pmu_prog" where
  "pmu_init_tail env cfg = do {
     tell env (sys_write32 (base cfg + PMU_REG_DVFSCTRL) (init_ctrl cfg));
     if init_enable cfg then
       (if pstate_table cfg = None then return (- EINVAL)
        else if num_pstates cfg \<le> init_pstate cfg then return (- EINVAL)
        else do {
          tell env (sys_write32 (base cfg + PMU_REG_DVFSPSTATEREQ) (ucast (init_pstate cfg)));
          tell env (sys_write32 (base cfg + PMU_REG_DVFSCTRL)
            (init_ctrl cfg OR PMU_FIELD_MSK DVFSEN));
          modify (initialized_update (\<lambda>_. True));
          return 0
        })
     else do {
       modify (initialized_update (\<lambda>_. True));
       return 0
     }
   }"

definition pmu_init :: "pmu_env \<Rightarrow> pmu_config \<Rightarrow> int pmu_prog" where
  "pmu_init env cfg = do {
     tell env (sys_write32 (base cfg + PMU_REG_DVFSCTRL) 0);
     tell env (sys_write32 (base cfg + PMU_REG_DVFSPSTATEREQ) 0);
     case pstate_table cfg of
       None \<Rightarrow> pmu_init_tail env cfg
     | Some tab \<Rightarrow>
         if pstate_table_len cfg \<noteq> 2 * ucast (num_pstates cfg) then return (- EINVAL)
         else do {
           for_each [0..<unat (num_pstates cfg)] (init_table_entry env cfg tab);
           pmu_init_tail env cfg
         }
   }"

section \<open>Register fields\<close>

lemma get_field_zero [simp]: "get_field f 0 = 0"
  by (simp add: get_field_def)

text \<open>Two fields of one register that share no bit.\<close>

definition apart :: "pmu_field \<Rightarrow> pmu_field \<Rightarrow> bool" where
  "apart f g \<longleftrightarrow>
     IFX_PMU_OFF f + IFX_PMU_LEN f \<le> IFX_PMU_OFF g \<or>
     IFX_PMU_OFF g + IFX_PMU_LEN g \<le> IFX_PMU_OFF f"

lemma get_field_rmw_same:
  "get_field f ((r AND NOT (PMU_FIELD_MSK f)) OR (v AND PMU_FIELD_MSK f)) = get_field f v"
  by (rule bit_word_eqI)
    (auto simp: get_field_def PMU_FIELD_POS_def bit_simps bit_PMU_FIELD_MSK)

lemma get_field_rmw_apart:
  "apart f g \<Longrightarrow>
   get_field f ((r AND NOT (PMU_FIELD_MSK g)) OR (v AND PMU_FIELD_MSK g)) = get_field f r"
  by (rule bit_word_eqI)
    (auto simp: get_field_def PMU_FIELD_POS_def bit_simps bit_PMU_FIELD_MSK apart_def)

text \<open>The two words a one-bit field is set to: the whole mask, or nothing.\<close>

lemmas get_field_rmw_set =
  get_field_rmw_same [where v = "PMU_FIELD_MSK f" and f = f for f, simplified]
  get_field_rmw_apart [where v = "PMU_FIELD_MSK g" and g = g for g, simplified]

lemmas get_field_rmw_clear =
  get_field_rmw_same [where v = 0, simplified]
  get_field_rmw_apart [where v = 0, simplified]

lemmas get_field_rmw =
  get_field_rmw_same get_field_rmw_apart get_field_rmw_set get_field_rmw_clear

lemma get_field_or: "get_field f (v OR w) = get_field f v OR get_field f w"
  by (rule bit_word_eqI) (auto simp: get_field_def bit_simps)

lemma bit_take_bit_eq: "x = take_bit m x \<Longrightarrow> bit x k \<Longrightarrow> k < m"
  by (metis bit_take_bit_iff)

lemma get_field_push_apart:
  assumes a: "apart f g" and x: "x = take_bit (IFX_PMU_LEN g) x"
  shows "get_field f (push_bit (PMU_FIELD_POS g) x) = 0"
proof (rule bit_word_eqI)
  fix n
  have False if "n < IFX_PMU_LEN f" "IFX_PMU_OFF g \<le> IFX_PMU_OFF f + n"
      "bit x (IFX_PMU_OFF f + n - IFX_PMU_OFF g)"
    using bit_take_bit_eq [OF x that(3)] that(1,2) a by (auto simp: apart_def)
  then show "bit (get_field f (push_bit (PMU_FIELD_POS g) x)) n = bit 0 n"
    by (auto simp: get_field_take_bit PMU_FIELD_POS_def bit_simps)
qed

lemma get_field_push_same:
  assumes x: "x = take_bit (IFX_PMU_LEN f) x" and w: "IFX_PMU_OFF f + IFX_PMU_LEN f \<le> 32"
  shows "get_field f (push_bit (PMU_FIELD_POS f) x) = x"
proof (rule bit_word_eqI)
  fix n
  have "bit x n \<Longrightarrow> n < IFX_PMU_LEN f" by (rule bit_take_bit_eq [OF x])
  moreover have "n < IFX_PMU_LEN f \<Longrightarrow> IFX_PMU_OFF f + n < 32" using w by linarith
  ultimately show "bit (get_field f (push_bit (PMU_FIELD_POS f) x)) n = bit x n"
    by (auto simp: get_field_take_bit PMU_FIELD_POS_def bit_simps)
qed

section \<open>The control register as its fields\<close>

text \<open>The abstract state of DVFSCTRL and what each control operation promises on it.\<close>

record dvfsctrl =
  dvfsen :: bool
  modesel :: pmu_mode
  numstates :: nat
  transtimeout :: nat

definition decode_ctrl :: "u32 \<Rightarrow> dvfsctrl" where
  "decode_ctrl w =
     \<lparr>dvfsen = (get_field DVFSEN w \<noteq> 0),
      modesel = (if get_field MODESEL w \<noteq> 0 then PMU_MODE_SIGNAL else PMU_MODE_REGISTER),
      numstates = unat (get_field NUMSTATES w),
      transtimeout = unat (get_field TRANSTIMEOUT w)\<rparr>"

datatype ctrl_op = Num_states u8 | Timeout_us u16 | Mode pmu_mode | Enable bool

fun run_ctrl_op :: "pmu_env \<Rightarrow> pmu_config \<Rightarrow> ctrl_op \<Rightarrow> int pmu_prog" where
  "run_ctrl_op env cfg (Num_states n) = pmu_api_set_num_states env cfg n"
| "run_ctrl_op env cfg (Timeout_us t) = pmu_api_set_timeout_us env cfg t"
| "run_ctrl_op env cfg (Mode m) = pmu_api_set_mode env cfg m"
| "run_ctrl_op env cfg (Enable b) = pmu_api_enable env cfg b"

fun ctrl_op_valid :: "ctrl_op \<Rightarrow> bool" where
  "ctrl_op_valid (Num_states n) = (1 \<le> unat n \<and> unat n \<le> 10)"
| "ctrl_op_valid _ = True"

fun spec_ctrl_op :: "ctrl_op \<Rightarrow> dvfsctrl \<Rightarrow> dvfsctrl" where
  "spec_ctrl_op (Num_states n) c = c\<lparr>numstates := unat n\<rparr>"
| "spec_ctrl_op (Timeout_us t) c = c\<lparr>transtimeout := unat t\<rparr>"
| "spec_ctrl_op (Mode m) c = c\<lparr>modesel := m\<rparr>"
| "spec_ctrl_op (Enable b) c = c\<lparr>dvfsen := b\<rparr>"

text \<open>The mask and the value each operation hands to the read-modify-write.\<close>

fun ctrl_op_field :: "ctrl_op \<Rightarrow> pmu_field" where
  "ctrl_op_field (Num_states _) = NUMSTATES"
| "ctrl_op_field (Timeout_us _) = TRANSTIMEOUT"
| "ctrl_op_field (Mode _) = MODESEL"
| "ctrl_op_field (Enable _) = DVFSEN"

fun ctrl_op_value :: "ctrl_op \<Rightarrow> u32" where
  "ctrl_op_value (Num_states n) = push_bit (PMU_FIELD_POS NUMSTATES) (ucast n)"
| "ctrl_op_value (Timeout_us t) = push_bit (PMU_FIELD_POS TRANSTIMEOUT) (ucast t)"
| "ctrl_op_value (Mode m) = (if m = PMU_MODE_SIGNAL then PMU_FIELD_MSK MODESEL else 0)"
| "ctrl_op_value (Enable b) = (if b then PMU_FIELD_MSK DVFSEN else 0)"

definition ctrl_op_word :: "ctrl_op \<Rightarrow> u32 \<Rightarrow> u32" where
  "ctrl_op_word op r =
     (r AND NOT (PMU_FIELD_MSK (ctrl_op_field op))) OR
     (ctrl_op_value op AND PMU_FIELD_MSK (ctrl_op_field op))"

lemma ctrl_op_valid_iff:
  "ctrl_op_valid (Num_states n) \<longleftrightarrow> \<not> (n = 0 \<or> PMU_MAX_PSTATES < n)"
  by (auto simp: PMU_MAX_PSTATES_def word_less_nat_alt unat_eq_0 Suc_le_eq
      simp flip: unat_gt_0)

lemma run_ctrl_op_valid:
  assumes "ctrl_op_valid op"
  shows "\<exists>r e. run_state (run_ctrl_op env cfg op) s =
     (0, s\<lparr>calls := calls s @ [(sys_read32 (base cfg + PMU_REG_DVFSCTRL), r),
        (sys_write32 (base cfg + PMU_REG_DVFSCTRL) (ctrl_op_word op r), e)]\<rparr>)"
  using assms
  by (cases op)
    (auto simp: ctrl_op_valid_iff ctrl_op_word_def pmu_api_set_num_states_def
      pmu_api_set_timeout_us_def pmu_api_set_mode_def pmu_api_enable_def pmu_ctrl_rmw_def
      simp del: ctrl_op_valid.simps)

lemma run_ctrl_op_invalid:
  "\<not> ctrl_op_valid op \<Longrightarrow> run_state (run_ctrl_op env cfg op) s = (- EINVAL, s)"
  by (cases op)
    (auto simp: ctrl_op_valid_iff pmu_api_set_num_states_def simp del: ctrl_op_valid.simps(1))

lemma ctrl_fields_apart [simp]:
  "apart DVFSEN MODESEL" "apart DVFSEN NUMSTATES" "apart DVFSEN TRANSTIMEOUT"
  "apart MODESEL DVFSEN" "apart MODESEL NUMSTATES" "apart MODESEL TRANSTIMEOUT"
  "apart NUMSTATES DVFSEN" "apart NUMSTATES MODESEL" "apart NUMSTATES TRANSTIMEOUT"
  "apart TRANSTIMEOUT DVFSEN" "apart TRANSTIMEOUT MODESEL" "apart TRANSTIMEOUT NUMSTATES"
  by (simp_all add: apart_def)

lemma take_bit_ucast_small:
  assumes "unat (x :: 'a::len word) < 2 ^ n"
  shows "(ucast x :: u32) = take_bit n (ucast x)"
proof (rule unsigned_word_eqI [where 'a = nat])
  have "unat (ucast x :: u32) \<le> unat x"
    by (simp add: unsigned_ucast_eq take_bit_nat_less_eq_self)
  with assms have "unat (ucast x :: u32) < 2 ^ n" by linarith
  then show "unat (ucast x :: u32) = unat (take_bit n (ucast x :: u32))"
    by (simp add: unsigned_take_bit_eq take_bit_nat_eq_self)
qed

lemma decode_ctrl_op_word:
  "ctrl_op_valid op \<Longrightarrow> decode_ctrl (ctrl_op_word op r) = spec_ctrl_op op (decode_ctrl r)"
proof (cases op)
  case (Num_states n)
  assume "ctrl_op_valid op"
  with Num_states have "unat n < 2 ^ 4" by simp
  then have "get_field NUMSTATES (ctrl_op_value op) = ucast n"
    unfolding Num_states ctrl_op_value.simps
    by (intro get_field_push_same [OF take_bit_ucast_small]) simp_all
  then show ?thesis
    by (simp add: Num_states decode_ctrl_def ctrl_op_word_def get_field_rmw del: ctrl_op_value.simps)
next
  case (Timeout_us t)
  have "unat t < 2 ^ 16" using unsigned_less [of t] by simp
  then have "get_field TRANSTIMEOUT (ctrl_op_value op) = ucast t"
    unfolding Timeout_us ctrl_op_value.simps
    by (intro get_field_push_same [OF take_bit_ucast_small]) simp_all
  then show ?thesis
    by (simp add: Timeout_us decode_ctrl_def ctrl_op_word_def get_field_rmw del: ctrl_op_value.simps)
next
  case (Mode m)
  have "get_field MODESEL (PMU_FIELD_MSK MODESEL) = 1"
    by (simp add: get_field_def PMU_FIELD_MSK_def PMU_FIELD_POS_def)
  then show ?thesis
    by (cases m) (simp_all add: Mode decode_ctrl_def ctrl_op_word_def get_field_rmw)
next
  case (Enable b)
  have "get_field DVFSEN (PMU_FIELD_MSK DVFSEN) = 1"
    by (simp add: get_field_def PMU_FIELD_MSK_def PMU_FIELD_POS_def)
  then show ?thesis
    by (simp add: Enable decode_ctrl_def ctrl_op_word_def get_field_rmw)
qed

definition ctrl_reserved :: u32 where
  "ctrl_reserved =
     NOT (PMU_FIELD_MSK DVFSEN OR PMU_FIELD_MSK MODESEL OR PMU_FIELD_MSK NUMSTATES OR
          PMU_FIELD_MSK TRANSTIMEOUT)"

lemma ctrl_op_word_reserved: "ctrl_op_word op r AND ctrl_reserved = r AND ctrl_reserved"
  by (rule bit_word_eqI; cases op) (auto simp: ctrl_op_word_def ctrl_reserved_def bit_simps)

text \<open>
  Property C15. The four control operations refine an update of one field of DVFSCTRL: with a
  valid argument the operation returns 0 after exactly one read of the register and one write
  of it, and the word written decodes to the word read with the one field set as the abstract
  operation says, the reserved bits kept; with an invalid state count it returns \<open>-EINVAL\<close>
  and touches nothing.
\<close>

theorem pmu_ctrl_refines:
  "if ctrl_op_valid op
   then \<exists>r w e. run_state (run_ctrl_op env cfg op) s =
          (0, s\<lparr>calls := calls s @ [(sys_read32 (base cfg + PMU_REG_DVFSCTRL), r),
             (sys_write32 (base cfg + PMU_REG_DVFSCTRL) w, e)]\<rparr>) \<and>
          decode_ctrl w = spec_ctrl_op op (decode_ctrl r) \<and>
          w AND ctrl_reserved = r AND ctrl_reserved
   else run_state (run_ctrl_op env cfg op) s = (- EINVAL, s)"
proof (cases "ctrl_op_valid op")
  case True
  obtain r e where "run_state (run_ctrl_op env cfg op) s =
     (0, s\<lparr>calls := calls s @ [(sys_read32 (base cfg + PMU_REG_DVFSCTRL), r),
        (sys_write32 (base cfg + PMU_REG_DVFSCTRL) (ctrl_op_word op r), e)]\<rparr>)"
    using run_ctrl_op_valid [OF True] by blast
  with True show ?thesis
    using decode_ctrl_op_word [OF True, of r] ctrl_op_word_reserved [of op r]
    by (simp only: if_True) blast
qed (simp add: run_ctrl_op_invalid)

section \<open>The P-state table as storage\<close>

fun last_write :: "(pmu_call \<times> u32) list \<Rightarrow> u32 \<Rightarrow> u32 option" where
  "last_write [] a = None"
| "last_write ((c, r) # h) a =
     (case last_write h a of
        Some v \<Rightarrow> Some v
      | None \<Rightarrow> (case c of sys_write32 b x \<Rightarrow> if b = a then Some x else None | _ \<Rightarrow> None))"

text \<open>The hardware keeps what was last written to a register: documented for the table.\<close>

definition storage :: "pmu_env \<Rightarrow> u32 \<Rightarrow> bool" where
  "storage env a \<longleftrightarrow> (\<forall>h v. last_write h a = Some v \<longrightarrow> env h (sys_read32 a) = v)"

lemma last_write_append:
  "last_write (h @ k) a = (case last_write k a of Some v \<Rightarrow> Some v | None \<Rightarrow> last_write h a)"
  by (induction h a rule: last_write.induct) (auto split: option.splits)

lemma pstate_table_addr_eq:
  "PMU_REG_PSTATE_TABLE i = PMU_REG_PSTATE_TABLE j \<longleftrightarrow> i = j"
proof -
  have u: "unat (4 * ucast k :: u32) = 4 * unat k" for k :: u8
    using unat_less(1) [of k] by (simp add: unat_word_ariths)
  have "4 * ucast i = (4 * ucast j :: u32) \<Longrightarrow> i = j"
    using u [of i] u [of j] by (metis mult_left_cancel unsigned_word_eqI zero_neq_numeral)
  then show ?thesis by auto
qed

lemma decode_pstate_word:
  "decode_pstate (pstate_word f v) = \<lparr>freq_mhz = f, voltage_mv = v\<rparr>"
proof -
  have "ucast (pstate_word f v AND PMU_FIELD_MSK FREQ) = f"
    by (rule bit_word_eqI)
      (auto simp: pstate_word_def PMU_FIELD_POS_def bit_simps bit_PMU_FIELD_MSK)
  moreover have
    "ucast (drop_bit (PMU_FIELD_POS VOLTAGE) (pstate_word f v AND PMU_FIELD_MSK VOLTAGE)) = v"
    by (rule bit_word_eqI)
      (auto simp: pstate_word_def PMU_FIELD_POS_def bit_simps bit_PMU_FIELD_MSK)
  ultimately show ?thesis by (simp add: decode_pstate_def)
qed

text \<open>
  Property C20. A P-state entry reads back what was programmed, whatever other entry was
  programmed in between: on hardware that stores the table, reading entry \<open>i\<close> after writing
  entries \<open>i\<close> and then \<open>j\<close> gives the frequency and voltage of the later write to \<open>i\<close>.
\<close>

theorem pstate_entry_roundtrip:
  assumes "storage env (base cfg + PMU_REG_PSTATE_TABLE i)" and "i < PMU_MAX_PSTATES"
    and "j < PMU_MAX_PSTATES"
  shows "result (do {
      _ \<leftarrow> pmu_api_set_pstate_entry env cfg i f v;
      _ \<leftarrow> pmu_api_set_pstate_entry env cfg j f' v';
      pmu_api_get_pstate_entry env cfg i False
    }) s = Inr (if i = j then \<lparr>freq_mhz = f', voltage_mv = v'\<rparr> else \<lparr>freq_mhz = f, voltage_mv = v\<rparr>)"
proof -
  have st: "env h (sys_read32 (base cfg + PMU_REG_PSTATE_TABLE i)) = x"
    if "last_write h (base cfg + PMU_REG_PSTATE_TABLE i) = Some x" for h x
    using assms(1) that by (auto simp: storage_def)
  have ne: "\<not> PMU_MAX_PSTATES \<le> i" "\<not> PMU_MAX_PSTATES \<le> j" using assms(2,3) by auto
  show ?thesis
  proof (cases "i = j")
    case True
    show ?thesis
      using ne unfolding True [symmetric]
      by (simp add: pmu_api_set_pstate_entry_def pmu_api_get_pstate_entry_def st
          last_write_append decode_pstate_word del: pmu_offsets)
  next
    case False
    then have "PMU_REG_PSTATE_TABLE j \<noteq> PMU_REG_PSTATE_TABLE i"
      by (simp add: pstate_table_addr_eq del: pmu_offsets)
    with False ne show ?thesis
      by (simp add: pmu_api_set_pstate_entry_def pmu_api_get_pstate_entry_def st
          last_write_append decode_pstate_word del: pmu_offsets)
  qed
qed

text \<open>An environment that answers a read with the last value written, 0 before any write.\<close>

definition ram_env :: pmu_env where
  "ram_env h c =
     (case c of sys_read32 a \<Rightarrow> (case last_write h a of Some v \<Rightarrow> v | None \<Rightarrow> 0) | _ \<Rightarrow> 0)"

lemma ram_env_storage: "storage ram_env a"
  by (simp add: storage_def ram_env_def)

definition demo_cfg :: pmu_config where
  "demo_cfg = PMU_DEFINE 0x40000000 0x10000 4 100 True 0
     (Some [100, 700, 200, 800, 400, 900, 800, 1000])"

theorem pstate_entry_roundtrip_witness:
  "result (do {
      _ \<leftarrow> pmu_api_set_pstate_entry ram_env demo_cfg 3 800 1000;
      _ \<leftarrow> pmu_api_set_pstate_entry ram_env demo_cfg 9 50 600;
      pmu_api_get_pstate_entry ram_env demo_cfg 3 False
    }) \<lparr>calls = [], initialized = True\<rparr> = Inr \<lparr>freq_mhz = 800, voltage_mv = 1000\<rparr>"
proof -
  have "(3::u8) < PMU_MAX_PSTATES" and "(9::u8) < PMU_MAX_PSTATES"
    by (simp_all add: PMU_MAX_PSTATES_def)
  from pstate_entry_roundtrip [OF ram_env_storage this] show ?thesis by simp
qed

section \<open>Polling for the end of a transition\<close>

definition status_idle :: "u32 \<Rightarrow> bool" where
  "status_idle reg \<longleftrightarrow> reg AND (PMU_FIELD_MSK BUSY OR PMU_FIELD_MSK TRANSPENDING) = 0"

text \<open>What a return code of \<open>wait_idle\<close> says about the last registers it saw.\<close>

definition wait_outcome :: "pmu_config \<Rightarrow> int \<Rightarrow> (pmu_call \<times> u32) list \<Rightarrow> bool" where
  "wait_outcome cfg rc new \<longleftrightarrow>
     (\<exists>pre reg. new = pre @ [(sys_read32 (base cfg + PMU_REG_DVFSSTATUS), reg)] \<and>
        status_idle reg \<and> rc = (if reg AND PMU_FIELD_MSK ERROR \<noteq> 0 then - EIO else 0)) \<or>
     (\<exists>pre reg fin e. new = pre @ [(sys_read32 (base cfg + PMU_REG_DVFSSTATUS), reg),
           (sys_timepoint_expired fin, e)] \<and>
        \<not> status_idle reg \<and> e \<noteq> 0 \<and> rc = - ETIMEDOUT)"

lemma wait_outcome_append: "wait_outcome cfg rc new \<Longrightarrow> wait_outcome cfg rc (pre @ new)"
  unfolding wait_outcome_def by (metis append.assoc)

lemma wait_outcome_Cons: "wait_outcome cfg rc new \<Longrightarrow> wait_outcome cfg rc (x # new)"
  using wait_outcome_append [of cfg rc new "[x]"] by simp

text \<open>The kernel's clock moves on: from the \<open>n\<close>-th check on, a timepoint has expired.\<close>

fun expiry_checks :: "(pmu_call \<times> u32) list \<Rightarrow> nat" where
  "expiry_checks [] = 0"
| "expiry_checks ((c, r) # h) =
     (case c of sys_timepoint_expired _ \<Rightarrow> Suc (expiry_checks h) | _ \<Rightarrow> expiry_checks h)"

definition clock_expires :: "pmu_env \<Rightarrow> nat \<Rightarrow> bool" where
  "clock_expires env n \<longleftrightarrow>
     (\<forall>h fin. n \<le> expiry_checks h \<longrightarrow> env h (sys_timepoint_expired fin) \<noteq> 0)"

lemma expiry_checks_append [simp]: "expiry_checks (h @ k) = expiry_checks h + expiry_checks k"
  by (induction h rule: expiry_checks.induct) (auto split: pmu_call.split)

lemma wait_idle_loop_returns:
  "clock_expires env n \<Longrightarrow> n < expiry_checks (calls s) + fuel \<Longrightarrow> 0 < fuel \<Longrightarrow>
   \<exists>rc new. result (wait_idle_loop env cfg fin fuel) s = Some rc \<and>
     calls (final (wait_idle_loop env cfg fin fuel) s) = calls s @ new \<and>
     wait_outcome cfg rc new"
proof (induction fuel arbitrary: s)
  case 0
  then show ?case by simp
next
  case (Suc fuel)
  let ?rd = "sys_read32 (base cfg + PMU_REG_DVFSSTATUS)"
  let ?reg = "env (calls s) ?rd"
  let ?h = "calls s @ [(?rd, ?reg)]"
  let ?e = "env ?h (sys_timepoint_expired fin)"
  show ?case
  proof (cases "status_idle ?reg")
    case True
    then have "wait_outcome cfg (if ?reg AND PMU_FIELD_MSK ERROR \<noteq> 0 then - EIO else 0) [(?rd, ?reg)]"
      by (auto simp: wait_outcome_def)
    with True show ?thesis by (auto simp: status_idle_def)
  next
    case busy: False
    show ?thesis
    proof (cases "?e = 0")
      case False
      with busy have "wait_outcome cfg (- ETIMEDOUT) [(?rd, ?reg), (sys_timepoint_expired fin, ?e)]"
        by (auto simp: wait_outcome_def)
      with busy False show ?thesis by (auto simp: status_idle_def)
    next
      case True
      let ?h' = "?h @ [(sys_timepoint_expired fin, ?e)]"
      let ?t = "s\<lparr>calls := ?h' @ [(k_busy_wait 1, env ?h' (k_busy_wait 1))]\<rparr>"
      from True Suc.prems(1) have "expiry_checks (calls s) < n"
        by (auto simp: clock_expires_def intro: ccontr)
      with Suc.prems(2) have "n < expiry_checks (calls ?t) + fuel" "0 < fuel" by auto
      from Suc.IH [OF Suc.prems(1) this] obtain rc new where
        r: "result (wait_idle_loop env cfg fin fuel) ?t = Some rc"
        and c: "calls (final (wait_idle_loop env cfg fin fuel) ?t) = calls ?t @ new"
        and o: "wait_outcome cfg rc new" by blast
      from busy True have
        "run_state (wait_idle_loop env cfg fin (Suc fuel)) s = run_state (wait_idle_loop env cfg fin fuel) ?t"
        by (simp add: status_idle_def)
      moreover have "calls ?t @ new = calls s @ [(?rd, ?reg), (sys_timepoint_expired fin, ?e),
          (k_busy_wait 1, env ?h' (k_busy_wait 1))] @ new" by simp
      ultimately show ?thesis using r c wait_outcome_append [OF o] by metis
    qed
  qed
qed

lemma pmu_wait_returns:
  assumes "clock_expires env n" and "n < fuel"
  shows "\<exists>rc t. run_state (pmu_api_wait_idle env cfg timeout fuel) s = (Some rc, t)"
proof -
  let ?fin = "env (calls s) (sys_timepoint_calc timeout)"
  let ?t = "s\<lparr>calls := calls s @ [(sys_timepoint_calc timeout, ?fin)]\<rparr>"
  from assms(2) have "n < expiry_checks (calls ?t) + fuel" "0 < fuel" by auto
  from wait_idle_loop_returns [OF assms(1) this, of cfg ?fin] show ?thesis
    by (cases "run_state (wait_idle_loop env cfg ?fin fuel) ?t") (auto simp: pmu_api_wait_idle_def)
qed

text \<open>
  Property C17. \<open>wait_idle\<close> always comes back: when the kernel's clock expires the timeout after
  at most \<open>n\<close> checks, \<open>n + 1\<close> iterations are enough, and the code it returns is the truth
  about the last status it read: 0 or \<open>-EIO\<close> after an idle status without or with ERROR,
  \<open>-ETIMEDOUT\<close> only after a status that was still busy and a timepoint that had expired.
\<close>

theorem pmu_wait_idle_returns:
  assumes "clock_expires env n" and "n < fuel"
  shows "\<exists>rc new. result (pmu_api_wait_idle env cfg timeout fuel) s = Some rc \<and>
     calls (final (pmu_api_wait_idle env cfg timeout fuel) s) = calls s @ new \<and>
     wait_outcome cfg rc new"
proof -
  let ?fin = "env (calls s) (sys_timepoint_calc timeout)"
  let ?t = "s\<lparr>calls := calls s @ [(sys_timepoint_calc timeout, ?fin)]\<rparr>"
  from assms(2) have "n < expiry_checks (calls ?t) + fuel" "0 < fuel" by auto
  from wait_idle_loop_returns [OF assms(1) this, of cfg ?fin] show ?thesis
    by (auto simp: pmu_api_wait_idle_def dest: wait_outcome_Cons)
qed

text \<open>A block that stays busy for ever, under a clock that expires at the third check.\<close>

definition stuck_env :: pmu_env where
  "stuck_env h c =
     (case c of
        sys_read32 _ \<Rightarrow> PMU_FIELD_MSK BUSY
      | sys_timepoint_expired _ \<Rightarrow> (if 2 \<le> expiry_checks h then 1 else 0)
      | _ \<Rightarrow> 0)"

theorem pmu_wait_idle_returns_witness:
  "clock_expires stuck_env 2 \<and>
   (\<exists>rc new. result (pmu_api_wait_idle stuck_env demo_cfg 100 3) \<lparr>calls = [], initialized = True\<rparr>
        = Some rc \<and>
     calls (final (pmu_api_wait_idle stuck_env demo_cfg 100 3) \<lparr>calls = [], initialized = True\<rparr>)
        = [] @ new \<and> wait_outcome demo_cfg rc new)"
proof -
  have c: "clock_expires stuck_env 2" by (simp add: clock_expires_def stuck_env_def)
  have "(2::nat) < 3" by simp
  from pmu_wait_idle_returns [OF c this, of demo_cfg 100 "\<lparr>calls = [], initialized = True\<rparr>"] c
  show ?thesis by simp
qed

section \<open>Bring-up\<close>

text \<open>A call that turns the DVFS engine on.\<close>

definition enables_dvfs :: "pmu_config \<Rightarrow> pmu_call \<Rightarrow> bool" where
  "enables_dvfs cfg c \<longleftrightarrow>
     (case c of sys_write32 a v \<Rightarrow> a = base cfg + PMU_REG_DVFSCTRL \<and> get_field DVFSEN v \<noteq> 0
      | _ \<Rightarrow> False)"

text \<open>When the devicetree properties are consistent.\<close>

definition table_ok :: "pmu_config \<Rightarrow> bool" where
  "table_ok cfg \<longleftrightarrow> pstate_table cfg = None \<or> pstate_table_len cfg = 2 * ucast (num_pstates cfg)"

definition enable_ok :: "pmu_config \<Rightarrow> bool" where
  "enable_ok cfg \<longleftrightarrow> pstate_table cfg \<noteq> None \<and> init_pstate cfg < num_pstates cfg"

definition table_script :: "pmu_config \<Rightarrow> pmu_call list" where
  "table_script cfg =
     (case pstate_table cfg of None \<Rightarrow> []
      | Some tab \<Rightarrow> map (table_write cfg tab) [0..<unat (num_pstates cfg)])"

definition init_script :: "pmu_config \<Rightarrow> pmu_call list" where
  "init_script cfg =
     [sys_write32 (base cfg + PMU_REG_DVFSCTRL) 0, sys_write32 (base cfg + PMU_REG_DVFSPSTATEREQ) 0] @
     (if table_ok cfg then table_script cfg @
        [sys_write32 (base cfg + PMU_REG_DVFSCTRL) (init_ctrl cfg)] @
        (if init_enable cfg \<and> enable_ok cfg then
           [sys_write32 (base cfg + PMU_REG_DVFSPSTATEREQ) (ucast (init_pstate cfg)),
            sys_write32 (base cfg + PMU_REG_DVFSCTRL) (init_ctrl cfg OR PMU_FIELD_MSK DVFSEN)]
         else [])
      else [])"

definition init_ok :: "pmu_config \<Rightarrow> bool" where
  "init_ok cfg \<longleftrightarrow> table_ok cfg \<and> (init_enable cfg \<longrightarrow> enable_ok cfg)"

lemma run_init_tail:
  "\<exists>new. run_state (pmu_init_tail env cfg) s =
     (if init_enable cfg \<and> \<not> enable_ok cfg then - EINVAL else 0,
      s\<lparr>calls := calls s @ new,
        initialized := initialized s \<or> \<not> (init_enable cfg \<and> \<not> enable_ok cfg)\<rparr>) \<and>
     map fst new = [sys_write32 (base cfg + PMU_REG_DVFSCTRL) (init_ctrl cfg)] @
        (if init_enable cfg \<and> enable_ok cfg then
           [sys_write32 (base cfg + PMU_REG_DVFSPSTATEREQ) (ucast (init_pstate cfg)),
            sys_write32 (base cfg + PMU_REG_DVFSCTRL) (init_ctrl cfg OR PMU_FIELD_MSK DVFSEN)]
         else [])"
  by (auto simp: pmu_init_tail_def enable_ok_def linorder_not_less simp del: pmu_offsets
      intro!: exI)

lemma run_init_table_entry [simp]:
  "run_state (init_table_entry env cfg tab i) s =
     ((), s\<lparr>calls := calls s @ [(table_write cfg tab i, env (calls s) (table_write cfg tab i))]\<rparr>)"
  by (simp add: init_table_entry_def)

lemma run_init_table:
  "\<exists>new. run_state (for_each is (init_table_entry env cfg tab)) s =
       ((), s\<lparr>calls := calls s @ new\<rparr>) \<and> map fst new = map (table_write cfg tab) is"
proof (induction "is" arbitrary: s)
  case Nil
  then show ?case by (auto intro: exI [of _ "[]"])
next
  case (Cons i js)
  let ?e = "(table_write cfg tab i, env (calls s) (table_write cfg tab i))"
  from Cons.IH [of "s\<lparr>calls := calls s @ [?e]\<rparr>"] obtain new where
    "run_state (for_each js (init_table_entry env cfg tab)) (s\<lparr>calls := calls s @ [?e]\<rparr>) =
       ((), s\<lparr>calls := calls s @ ?e # new\<rparr>)" and
    "map fst new = map (table_write cfg tab) js"
    by auto
  then show ?case
    by (intro exI [of _ "?e # new"]) simp
qed

lemma run_pmu_init:
  "\<exists>new. run_state (pmu_init env cfg) s =
       (if init_ok cfg then 0 else - EINVAL,
        s\<lparr>calls := calls s @ new, initialized := initialized s \<or> init_ok cfg\<rparr>) \<and>
     map fst new = init_script cfg"
proof -
  let ?c1 = "sys_write32 (base cfg + PMU_REG_DVFSCTRL) 0"
  let ?c2 = "sys_write32 (base cfg + PMU_REG_DVFSPSTATEREQ) 0"
  let ?h1 = "calls s @ [(?c1, env (calls s) ?c1)]"
  let ?t = "s\<lparr>calls := ?h1 @ [(?c2, env ?h1 ?c2)]\<rparr>"
  have run: "run_state (pmu_init env cfg) s = run_state (case pstate_table cfg of
       None \<Rightarrow> pmu_init_tail env cfg
     | Some tab \<Rightarrow>
         if pstate_table_len cfg \<noteq> 2 * ucast (num_pstates cfg) then return (- EINVAL)
         else do {
           for_each [0..<unat (num_pstates cfg)] (init_table_entry env cfg tab);
           pmu_init_tail env cfg
         }) ?t"
    by (simp add: pmu_init_def del: pmu_offsets)
  show ?thesis
  proof (cases "pstate_table cfg")
    case None
    with run_init_tail [of env cfg ?t] show ?thesis
      unfolding run
      by (auto simp: init_ok_def table_ok_def init_script_def table_script_def simp del: pmu_offsets)
  next
    case (Some tab)
    show ?thesis
    proof (cases "table_ok cfg")
      case False
      with Some show ?thesis
        unfolding run by (auto simp: init_ok_def table_ok_def init_script_def simp del: pmu_offsets)
    next
      case True
      obtain new1 where n1: "run_state (for_each [0..<unat (num_pstates cfg)]
            (init_table_entry env cfg tab)) ?t = ((), ?t\<lparr>calls := calls ?t @ new1\<rparr>)"
        and m1: "map fst new1 = map (table_write cfg tab) [0..<unat (num_pstates cfg)]"
        using run_init_table by blast
      from run_init_tail [of env cfg "?t\<lparr>calls := calls ?t @ new1\<rparr>"] True Some n1 m1
      show ?thesis
        unfolding run
        by (auto simp: init_ok_def table_ok_def init_script_def table_script_def
            simp del: pmu_offsets)
    qed
  qed
qed

lemma get_field_DVFSEN: "get_field DVFSEN w \<noteq> 0 \<longleftrightarrow> bit w 0"
  by (simp add: get_field_nonzero)

lemma unat_table_offset: "unat (PMU_REG_PSTATE_TABLE i) = 256 + 4 * unat i"
  using unat_less(1) [of i] by (simp add: unat_word_ariths)

lemma table_write_not_enables [simp]: "\<not> enables_dvfs cfg (table_write cfg tab i)"
proof -
  have "PMU_REG_PSTATE_TABLE (of_nat i) \<noteq> PMU_REG_DVFSCTRL"
  proof
    assume "PMU_REG_PSTATE_TABLE (of_nat i) = PMU_REG_DVFSCTRL"
    then have "256 + 4 * unat (of_nat i :: u8) = unat PMU_REG_DVFSCTRL"
      by (simp only: flip: unat_table_offset)
    then show False by simp
  qed
  then show ?thesis
    by (simp add: enables_dvfs_def table_write_def Let_def del: pmu_offsets)
qed

lemma init_ctrl_not_enabling: "\<not> bit (init_ctrl cfg) 0"
  by (simp add: init_ctrl_def PMU_FIELD_POS_def bit_simps)

lemma enables_init_script_prefix:
  "list_ex (enables_dvfs cfg) (table_script cfg) = False"
  by (auto simp: table_script_def list_ex_iff split: option.split)

text \<open>
  Property C16. Bring-up is all or nothing. \<open>pmu_init\<close> makes exactly the register writes of the
  recommended script, returns 0 exactly for a consistent configuration and \<open>-EINVAL\<close>
  otherwise, and marks the device initialised only then. DVFS is enabled only on success with
  \<open>init-enable\<close>, as the very last write and directly after the initial target was requested;
  on every other path, the failing ones included, no write sets DVFSEN. The order is that of the
  comments of \<open>pmu.c\<close> (request the initial P-state, then enable) and not that of the devicetree
  binding \<open>infineon,pmu-dvfs.yaml\<close>, which says that the target is written after enabling: with DVFS
  enabled no request follows. The manifest lists the difference as a finding of this theorem.
\<close>

theorem pmu_init_all_or_nothing:
  "result (pmu_init env cfg) s = (if init_ok cfg then 0 else - EINVAL) \<and>
   initialized (final (pmu_init env cfg) s) = (initialized s \<or> init_ok cfg) \<and>
   map fst (made (pmu_init env cfg) s) = init_script cfg \<and>
   (if init_ok cfg \<and> init_enable cfg
    then \<exists>pre. init_script cfg = pre @
           [sys_write32 (base cfg + PMU_REG_DVFSPSTATEREQ) (ucast (init_pstate cfg)),
            sys_write32 (base cfg + PMU_REG_DVFSCTRL) (init_ctrl cfg OR PMU_FIELD_MSK DVFSEN)] \<and>
           \<not> list_ex (enables_dvfs cfg) pre
    else \<not> list_ex (enables_dvfs cfg) (init_script cfg))"
proof -
  obtain new where r: "run_state (pmu_init env cfg) s =
       (if init_ok cfg then 0 else - EINVAL,
        s\<lparr>calls := calls s @ new, initialized := initialized s \<or> init_ok cfg\<rparr>)"
    and m: "map fst new = init_script cfg"
    using run_pmu_init by blast
  have e: "\<not> enables_dvfs cfg (sys_write32 (base cfg + PMU_REG_DVFSCTRL) 0)"
    "\<not> enables_dvfs cfg (sys_write32 (base cfg + PMU_REG_DVFSCTRL) (init_ctrl cfg))"
    "\<not> enables_dvfs cfg (sys_write32 (base cfg + PMU_REG_DVFSPSTATEREQ) v)" for v
    using get_field_DVFSEN [of "init_ctrl cfg"]
    by (simp_all add: enables_dvfs_def init_ctrl_not_enabling)
  have "if init_ok cfg \<and> init_enable cfg
    then \<exists>pre. init_script cfg = pre @
           [sys_write32 (base cfg + PMU_REG_DVFSPSTATEREQ) (ucast (init_pstate cfg)),
            sys_write32 (base cfg + PMU_REG_DVFSCTRL) (init_ctrl cfg OR PMU_FIELD_MSK DVFSEN)] \<and>
           \<not> list_ex (enables_dvfs cfg) pre
    else \<not> list_ex (enables_dvfs cfg) (init_script cfg)"
    using e by (auto simp: init_script_def init_ok_def enables_init_script_prefix
        simp del: pmu_offsets)
  with r m show ?thesis by (simp add: made_def)
qed

text \<open>
  Property C21. What bring-up puts in the control register for any configuration: disabled,
  register-driven, the state count modulo 16, and the timeout with the upper bits of the
  state count mixed into it. Up to 15 states the two numbers are the configured ones; from
  16 on, which \<open>pmu_init\<close> does not reject as \<open>pmu_set_num_states\<close> does, the state count
  is lost and the timeout is wrong.
\<close>

theorem init_ctrl_fields:
  "decode_ctrl (init_ctrl cfg) =
     \<lparr>dvfsen = False, modesel = PMU_MODE_REGISTER,
      numstates = unat (num_pstates cfg) mod 16,
      transtimeout = unat (transition_timeout_us cfg OR ucast (drop_bit 4 (num_pstates cfg)))\<rparr>"
proof -
  have en: "get_field DVFSEN (init_ctrl cfg) = 0"
    using get_field_DVFSEN init_ctrl_not_enabling by blast
  have md: "get_field MODESEL (init_ctrl cfg) = 0"
    using get_field_nonzero [of MODESEL "init_ctrl cfg"]
    by (auto simp: init_ctrl_def PMU_FIELD_POS_def bit_simps)
  have ns: "get_field NUMSTATES (init_ctrl cfg) = ucast (take_bit 4 (num_pstates cfg))"
    by (rule bit_word_eqI) (auto simp: get_field_take_bit init_ctrl_def PMU_FIELD_POS_def bit_simps
        dest: bit_imp_le_length)
  have tt: "get_field TRANSTIMEOUT (init_ctrl cfg) =
      ucast (transition_timeout_us cfg OR ucast (drop_bit 4 (num_pstates cfg)))"
    by (rule bit_word_eqI) (auto simp: get_field_take_bit init_ctrl_def PMU_FIELD_POS_def bit_simps
        dest: bit_imp_le_length)
  have "unat (take_bit 4 (num_pstates cfg)) = unat (num_pstates cfg) mod 16"
    using unat_take_bit_mod [of 4 "num_pstates cfg"] by simp
  with en md ns tt show ?thesis by (simp add: decode_ctrl_def)
qed

lemma init_ctrl_too_many_states:
  "decode_ctrl (init_ctrl (PMU_DEFINE 0x40000000 0x10000 16 100 False 0 None)) =
     \<lparr>dvfsen = False, modesel = PMU_MODE_REGISTER, numstates = 0, transtimeout = 101\<rparr>"
  by (simp add: init_ctrl_fields PMU_DEFINE_def)

section \<open>Status and raw access\<close>

definition encode_status :: "pmu_status \<Rightarrow> u32" where
  "encode_status st =
     ucast (curr_pstate st) OR push_bit 4 (of_bool (trans_pending st)) OR
     push_bit 5 (of_bool (busy st)) OR push_bit 6 (ucast (trans_phase st)) OR
     push_bit 9 (of_bool (error_flag st))"

lemma one_bit_field:
  assumes "IFX_PMU_LEN f = 1"
  shows "w AND PMU_FIELD_MSK f \<noteq> 0 \<longleftrightarrow> bit w (IFX_PMU_OFF f)"
proof -
  have off: "IFX_PMU_OFF f < 32" by (cases f) simp_all
  have b: "bit (w AND PMU_FIELD_MSK f) n \<longleftrightarrow> n = IFX_PMU_OFF f \<and> bit w n" for n
    using assms off by (auto simp: bit_simps bit_PMU_FIELD_MSK)
  show ?thesis
    by (metis b bit_0_eq bit_eqI bot_apply bot_bool_def)
qed

lemma decode_status_alt:
  "decode_status reg =
     \<lparr>curr_pstate = ucast (take_bit 4 reg), trans_pending = bit reg 4, busy = bit reg 5,
      trans_phase = ucast (take_bit 3 (drop_bit 6 reg)), error_flag = bit reg 9\<rparr>"
  using one_bit_field [of TRANSPENDING reg] one_bit_field [of BUSY reg] one_bit_field [of ERROR reg]
    get_field_take_bit [of CURRPSTATE reg] get_field_take_bit [of TRANSPHASE reg]
  by (simp add: decode_status_def get_field_def PMU_FIELD_POS_def)

text \<open>
  Decoding the status register loses none of its ten defined bits, and keeps the
  two numbers in their documented range: encoding what \<open>get_status\<close> returns gives the low ten
  bits of the word it read, the P-state is below 16 and the phase below 8.
\<close>

lemma status_decode_exact:
  "\<exists>reg st. run_state (pmu_api_get_status env cfg False) s =
       (Inr st, s\<lparr>calls := calls s @ [(sys_read32 (base cfg + PMU_REG_DVFSSTATUS), reg)]\<rparr>) \<and>
     encode_status st = take_bit 10 reg \<and> unat (curr_pstate st) < 16 \<and> unat (trans_phase st) < 8"
proof -
  let ?reg = "env (calls s) (sys_read32 (base cfg + PMU_REG_DVFSSTATUS))"
  have "encode_status (decode_status ?reg) = take_bit 10 ?reg"
  proof (rule bit_word_eqI)
    fix n :: nat
    consider "n < 4" | "n = 4" | "n = 5" | "6 \<le> n" "n < 9" | "n = 9" | "10 \<le> n" by linarith
    then show "bit (encode_status (decode_status ?reg)) n = bit (take_bit 10 ?reg) n"
      by cases (auto simp: encode_status_def decode_status_alt bit_simps)
  qed
  moreover have "unat (curr_pstate (decode_status ?reg)) < 16"
    and "unat (trans_phase (decode_status ?reg)) < 8"
  proof -
    have "unat (ucast (take_bit n x) :: u8) < 2 ^ n" if "n \<le> 8" for n and x :: u32
    proof -
      have "ucast (take_bit n x) = (take_bit n (ucast x) :: u8)"
        using that by (intro bit_word_eqI) (auto simp: bit_simps)
      then show ?thesis by (simp only: unsigned_take_bit_eq take_bit_nat_less_exp)
    qed
    from this [of 4 ?reg] this [of 3 "drop_bit 6 ?reg"]
    show "unat (curr_pstate (decode_status ?reg)) < 16"
      and "unat (trans_phase (decode_status ?reg)) < 8"
      by (simp_all add: decode_status_alt)
  qed
  ultimately show ?thesis by (auto simp: pmu_api_get_status_def)
qed

lemma pmu_reg_check_cases:
  "pmu_reg_check cfg off =
     (if 4 dvd unat off \<and> unat off < unat (reg_size cfg) then 0 else - EINVAL)"
proof -
  have "off AND 3 = take_bit 2 off" by (simp add: take_bit_eq_mask mask_eq_exp_minus_1)
  then have "off AND 3 = 0 \<longleftrightarrow> unat (take_bit 2 off) = 0" by (simp add: unat_eq_0)
  also have "\<dots> \<longleftrightarrow> 4 dvd unat off"
    by (simp only: unat_take_bit_mod) (simp add: dvd_eq_mod_eq_0)
  finally show ?thesis by (simp add: pmu_reg_check_def word_le_nat_alt linorder_not_le)
qed

text \<open>
  Raw register access never leaves the window. When the window size is a
  multiple of four, an offset that is 4-aligned and inside is read or written at that very
  address, all four bytes of it inside the window; any other offset returns \<open>-EINVAL\<close> without
  touching the bus.
\<close>

lemma pmu_raw_access_in_window:
  assumes "4 dvd unat (reg_size cfg)"
  shows "if 4 dvd unat off \<and> unat off < unat (reg_size cfg)
    then unat off + 4 \<le> unat (reg_size cfg) \<and>
      (\<exists>v. run_state (pmu_api_read_reg env cfg off False) s =
         (Inr v, s\<lparr>calls := calls s @ [(sys_read32 (base cfg + off), v)]\<rparr>)) \<and>
      (\<exists>e. run_state (pmu_api_write_reg env cfg off w) s =
         (0, s\<lparr>calls := calls s @ [(sys_write32 (base cfg + off) w, e)]\<rparr>))
    else run_state (pmu_api_read_reg env cfg off False) s = (Inl (- EINVAL), s) \<and>
      run_state (pmu_api_write_reg env cfg off w) s = (- EINVAL, s)"
proof -
  have "unat off + 4 \<le> unat (reg_size cfg)"
    if "4 dvd unat off" "unat off < unat (reg_size cfg)"
    using assms that by (auto elim!: dvdE)
  then show ?thesis
    by (auto simp: pmu_api_read_reg_def pmu_api_write_reg_def pmu_reg_check_cases)
qed

lemma pmu_raw_access_in_window_witness:
  "4 dvd unat (reg_size demo_cfg) \<and>
   run_state (pmu_api_write_reg ram_env demo_cfg 0xFFFE 7) \<lparr>calls = [], initialized = True\<rparr> =
     (- EINVAL, \<lparr>calls = [], initialized = True\<rparr>)"
proof -
  have d: "4 dvd unat (reg_size demo_cfg)" by (simp add: demo_cfg_def PMU_DEFINE_def)
  from pmu_raw_access_in_window [OF d, of "0xFFFE" ram_env "\<lparr>calls = [], initialized = True\<rparr>" 7] d
  show ?thesis by simp
qed

end
