(* ===== verification/Pmu_Demo.thy ===== *)
theory Pmu_Demo
  imports Pmu_Driver
begin

text \<open>
  The PMU driver's API table and inline wrappers (\<open>pmu.h\<close>) and their client, the demo of
  \<open>apps/05_cm33ns_vp/src/main.c\<close>. The wrappers dispatch through the table; the locale
  \<open>dvfs_api\<close> is what the demo relies on, and the driver's own table is its interpretation.
  Console output is the list of snapshots the demo prints.
\<close>

section \<open>The API table and its wrappers\<close>

record pmu_driver_api =
  read_reg :: "u32 \<Rightarrow> bool \<Rightarrow> (int + u32) pmu_prog"
  write_reg :: "u32 \<Rightarrow> u32 \<Rightarrow> int pmu_prog"
  set_pstate_entry :: "u8 \<Rightarrow> u16 \<Rightarrow> u16 \<Rightarrow> int pmu_prog"
  get_pstate_entry :: "u8 \<Rightarrow> bool \<Rightarrow> (int + pmu_pstate) pmu_prog"
  set_num_states :: "u8 \<Rightarrow> int pmu_prog"
  set_timeout_us :: "u16 \<Rightarrow> int pmu_prog"
  set_mode :: "pmu_mode \<Rightarrow> int pmu_prog"
  enable :: "bool \<Rightarrow> int pmu_prog"
  request_pstate :: "u8 \<Rightarrow> int pmu_prog"
  get_status :: "bool \<Rightarrow> (int + pmu_status) pmu_prog"
  get_voltage_mv :: "bool \<Rightarrow> (int + u32) pmu_prog"
  get_freq_mhz :: "bool \<Rightarrow> (int + u32) pmu_prog"
  wait_idle :: "u32 \<Rightarrow> int option pmu_prog"
  clear_error :: "int pmu_prog"

text \<open>The driver's table; the fuel bounds the iterations of its polling loop.\<close>

definition pmu_api_funcs :: "pmu_env \<Rightarrow> pmu_config \<Rightarrow> nat \<Rightarrow> pmu_driver_api" where
  "pmu_api_funcs env cfg fuel =
     \<lparr>read_reg = pmu_api_read_reg env cfg,
      write_reg = pmu_api_write_reg env cfg,
      set_pstate_entry = pmu_api_set_pstate_entry env cfg,
      get_pstate_entry = pmu_api_get_pstate_entry env cfg,
      set_num_states = pmu_api_set_num_states env cfg,
      set_timeout_us = pmu_api_set_timeout_us env cfg,
      set_mode = pmu_api_set_mode env cfg,
      enable = pmu_api_enable env cfg,
      request_pstate = pmu_api_request_pstate env cfg,
      get_status = pmu_api_get_status env cfg,
      get_voltage_mv = pmu_api_get_voltage_mv env cfg,
      get_freq_mhz = pmu_api_get_freq_mhz env cfg,
      wait_idle = (\<lambda>t. pmu_api_wait_idle env cfg t fuel),
      clear_error = pmu_api_clear_error env cfg\<rparr>"

definition pmu_read_reg :: "pmu_driver_api \<Rightarrow> u32 \<Rightarrow> bool \<Rightarrow> (int + u32) pmu_prog" where
  "pmu_read_reg api off val_is_null = read_reg api off val_is_null"

definition pmu_write_reg :: "pmu_driver_api \<Rightarrow> u32 \<Rightarrow> u32 \<Rightarrow> int pmu_prog" where
  "pmu_write_reg api off val = write_reg api off val"

definition pmu_set_pstate_entry :: "pmu_driver_api \<Rightarrow> u8 \<Rightarrow> u16 \<Rightarrow> u16 \<Rightarrow> int pmu_prog" where
  "pmu_set_pstate_entry api idx freq volt = set_pstate_entry api idx freq volt"

definition pmu_get_pstate_entry :: "pmu_driver_api \<Rightarrow> u8 \<Rightarrow> bool \<Rightarrow> (int + pmu_pstate) pmu_prog"
  where
  "pmu_get_pstate_entry api idx entry_is_null = get_pstate_entry api idx entry_is_null"

definition pmu_set_num_states :: "pmu_driver_api \<Rightarrow> u8 \<Rightarrow> int pmu_prog" where
  "pmu_set_num_states api num = set_num_states api num"

definition pmu_set_timeout_us :: "pmu_driver_api \<Rightarrow> u16 \<Rightarrow> int pmu_prog" where
  "pmu_set_timeout_us api us = set_timeout_us api us"

definition pmu_set_mode :: "pmu_driver_api \<Rightarrow> pmu_mode \<Rightarrow> int pmu_prog" where
  "pmu_set_mode api mode = set_mode api mode"

definition pmu_enable :: "pmu_driver_api \<Rightarrow> bool \<Rightarrow> int pmu_prog" where
  "pmu_enable api en = enable api en"

definition pmu_request_pstate :: "pmu_driver_api \<Rightarrow> u8 \<Rightarrow> int pmu_prog" where
  "pmu_request_pstate api idx = request_pstate api idx"

definition pmu_get_status :: "pmu_driver_api \<Rightarrow> bool \<Rightarrow> (int + pmu_status) pmu_prog" where
  "pmu_get_status api st_is_null = get_status api st_is_null"

definition pmu_get_voltage_mv :: "pmu_driver_api \<Rightarrow> bool \<Rightarrow> (int + u32) pmu_prog" where
  "pmu_get_voltage_mv api mv_is_null = get_voltage_mv api mv_is_null"

definition pmu_get_freq_mhz :: "pmu_driver_api \<Rightarrow> bool \<Rightarrow> (int + u32) pmu_prog" where
  "pmu_get_freq_mhz api mhz_is_null = get_freq_mhz api mhz_is_null"

definition pmu_wait_idle :: "pmu_driver_api \<Rightarrow> u32 \<Rightarrow> int option pmu_prog" where
  "pmu_wait_idle api timeout = wait_idle api timeout"

definition pmu_clear_error :: "pmu_driver_api \<Rightarrow> int pmu_prog" where
  "pmu_clear_error api = clear_error api"

section \<open>The demo\<close>

definition phase_str :: "u8 \<Rightarrow> string" where
  "phase_str phase =
     (if phase = 0 then ''IDLE'' else if phase = 1 then ''VOLT_UP''
      else if phase = 2 then ''FREQ_UP'' else if phase = 3 then ''VOLT_DOWN''
      else if phase = 4 then ''FREQ_DOWN'' else ''?'')"

text \<open>
  What \<open>dump_state\<close> prints: the tag, the status with the name of its phase, millivolts and
  megahertz. The two numbers start at 0 and keep that on an error; the status is not
  initialised in the code, and a failed read would leave it so (\<open>None\<close>).
\<close>

type_synonym report = "string \<times> (pmu_status \<times> string) option \<times> u32 \<times> u32"

definition dump_state :: "pmu_driver_api \<Rightarrow> string \<Rightarrow> report pmu_prog" where
  "dump_state api tag = do {
     st \<leftarrow> pmu_get_status api False;
     mv \<leftarrow> pmu_get_voltage_mv api False;
     mhz \<leftarrow> pmu_get_freq_mhz api False;
     return (tag,
       case st of Inl _ \<Rightarrow> None | Inr r \<Rightarrow> Some (r, phase_str (trans_phase r)),
       case mv of Inl _ \<Rightarrow> 0 | Inr v \<Rightarrow> v,
       case mhz of Inl _ \<Rightarrow> 0 | Inr v \<Rightarrow> v)
   }"

text \<open>\<open>None\<close> is a \<open>wait_idle\<close> that does not return.\<close>

definition switch_pstate :: "pmu_driver_api \<Rightarrow> u8 \<Rightarrow> (int \<times> report list) option pmu_prog" where
  "switch_pstate api target = do {
     ret \<leftarrow> pmu_request_pstate api target;
     if ret < 0 then return (Some (ret, []))
     else obind (pmu_wait_idle api 100) (\<lambda>ret. do {
       d \<leftarrow> dump_state api ''after'';
       return (Some (ret, [d]))
     })
   }"

text \<open>
  The ramps: the body of both loops, a switch whose outcome is ignored and a sleep of 200 ms
  (\<open>env\<close> answers the kernel's sleep as it does the driver's waits).
\<close>

fun switch_all :: "pmu_env \<Rightarrow> pmu_driver_api \<Rightarrow> u8 list \<Rightarrow> report list option pmu_prog" where
  "switch_all env api [] = return (Some [])"
| "switch_all env api (t # ts) =
     obind (switch_pstate api t) (\<lambda>(_, ds). do {
       _ \<leftarrow> tell env (k_msleep 200);
       obind (switch_all env api ts) (\<lambda>es. return (Some (ds @ es)))
     })"

text \<open>The programmed table, as printed at the start: the entries that can be read.\<close>

fun read_table :: "pmu_driver_api \<Rightarrow> u8 list \<Rightarrow> (u8 \<times> pmu_pstate) list pmu_prog" where
  "read_table api [] = return []"
| "read_table api (i # is) = do {
     e \<leftarrow> pmu_get_pstate_entry api i False;
     rest \<leftarrow> read_table api is;
     return (case e of Inl _ \<Rightarrow> rest | Inr p \<Rightarrow> (i, p) # rest)
   }"

text \<open>The fault injection: request P9, wait, dump, clear the error, dump.\<close>

definition inject_fault :: "pmu_driver_api \<Rightarrow> report list option pmu_prog" where
  "inject_fault api = do {
     _ \<leftarrow> pmu_request_pstate api 9;
     obind (pmu_wait_idle api 50) (\<lambda>_. do {
       d1 \<leftarrow> dump_state api ''err'';
       _ \<leftarrow> pmu_clear_error api;
       d2 \<leftarrow> dump_state api ''cleared'';
       return (Some [d1, d2])
     })
   }"

text \<open>The return code, with the table and the snapshots that were printed.\<close>

definition demo_main ::
  "pmu_env \<Rightarrow> pmu_driver_api \<Rightarrow> bool \<Rightarrow> (int \<times> (u8 \<times> pmu_pstate) list \<times> report list) option pmu_prog" where
  "demo_main env api device_is_ready =
     (if \<not> device_is_ready then return (Some (- ENODEV, [], []))
      else do {
        tab \<leftarrow> read_table api [0, 1, 2, 3];
        d0 \<leftarrow> dump_state api ''boot'';
        obind (switch_all env api [1, 2, 3]) (\<lambda>up.
        obind (switch_all env api [2, 1, 0]) (\<lambda>down.
        obind (inject_fault api) (\<lambda>fault.
        obind (switch_pstate api 0) (\<lambda>(_, back).
          return (Some (0, tab, [d0] @ up @ down @ fault @ back))))))
      })"

section \<open>What the demo relies on\<close>

text \<open>
  \<open>targets\<close> reads the P-state requests that have reached the hardware off a state; \<open>live\<close> is
  the condition under which waiting returns.
\<close>

locale dvfs_api =
  fixes env :: pmu_env
    and api :: pmu_driver_api
    and targets :: "pmu_data \<Rightarrow> u8 list"
    and live :: bool
  assumes request_law: "i < PMU_MAX_PSTATES \<Longrightarrow>
      \<exists>t. run_state (request_pstate api i) s = (0, t) \<and> targets t = targets s @ [i]"
    and wait_law: "live \<Longrightarrow> \<exists>rc t. run_state (wait_idle api tmo) s = (Some rc, t)"
    and wait_keeps: "targets (final (wait_idle api tmo) s) = targets s"
    and status_keeps: "targets (final (get_status api b) s) = targets s"
    and voltage_keeps: "targets (final (get_voltage_mv api b) s) = targets s"
    and freq_keeps: "targets (final (get_freq_mhz api b) s) = targets s"
    and entry_keeps: "targets (final (get_pstate_entry api i b) s) = targets s"
    and clear_keeps: "targets (final (clear_error api) s) = targets s"
    and sleep_keeps: "targets (final (tell env (k_msleep ms)) s) = targets s"
begin

lemma dump_keeps: "targets (final (dump_state api tag) s) = targets s"
  by (simp add: dump_state_def pmu_get_status_def pmu_get_voltage_mv_def pmu_get_freq_mhz_def
      split_beta status_keeps voltage_keeps freq_keeps)

lemma read_table_keeps: "targets (final (read_table api is) s) = targets s"
  by (induction "is" arbitrary: s)
    (simp_all add: pmu_get_pstate_entry_def split_beta entry_keeps)

lemma switch_pstate_visits:
  assumes live and "i < PMU_MAX_PSTATES"
  shows "\<exists>r t. run_state (switch_pstate api i) s = (Some r, t) \<and> targets t = targets s @ [i]"
proof -
  obtain t1 where r1: "run_state (request_pstate api i) s = (0, t1)"
    and "targets t1 = targets s @ [i]" using request_law [OF assms(2)] by blast
  obtain rc t2 where r2: "run_state (wait_idle api 100) t1 = (Some rc, t2)"
    using wait_law [OF assms(1)] by blast
  have "targets t2 = targets t1" using wait_keeps [of 100 t1] r2 by simp
  with r1 r2 \<open>targets t1 = _\<close> dump_keeps [of "''after''" t2] show ?thesis
    by (simp add: switch_pstate_def pmu_request_pstate_def pmu_wait_idle_def run_obind split_beta)
qed

lemma switch_all_visits:
  assumes live and "list_all (\<lambda>i. i < PMU_MAX_PSTATES) is"
  shows "\<exists>r t. run_state (switch_all env api is) s = (Some r, t) \<and> targets t = targets s @ is"
  using assms(2)
proof (induction "is" arbitrary: s)
  case Nil
  then show ?case by simp
next
  case (Cons i js)
  then obtain r t where 1: "run_state (switch_pstate api i) s = (Some r, t)"
      "targets t = targets s @ [i]" using switch_pstate_visits [OF assms(1)] by force
  obtain u where 2: "run_state (tell env (k_msleep 200)) t = ((), u)" "targets u = targets t"
    using sleep_keeps [of 200 t] by simp
  from Cons obtain r' t' where "run_state (switch_all env api js) u = (Some r', t')"
      "targets t' = targets u @ js" by force
  with 1 2 show ?case by (cases r) (simp add: run_obind del: run_state_tell)
qed

lemma inject_fault_visits:
  assumes live
  shows "\<exists>r t. run_state (inject_fault api) s = (Some r, t) \<and> targets t = targets s @ [9]"
proof -
  obtain t1 where r1: "run_state (request_pstate api 9) s = (0, t1)"
    and "targets t1 = targets s @ [9]" using request_law [of 9] by (auto simp: PMU_MAX_PSTATES_def)
  obtain rc t2 where r2: "run_state (wait_idle api 50) t1 = (Some rc, t2)"
    using wait_law [OF assms(1)] by blast
  have "targets t2 = targets t1" using wait_keeps [of 50 t1] r2 by simp
  with r1 r2 \<open>targets t1 = _\<close> show ?thesis
    by (simp add: inject_fault_def pmu_request_pstate_def pmu_wait_idle_def pmu_clear_error_def
        run_obind split_beta dump_keeps clear_keeps)
qed

lemma demo_main_visits:
  assumes live
  shows "\<exists>tab ds t. run_state (demo_main env api True) s = (Some (0, tab, ds), t) \<and>
    targets t = targets s @ [1, 2, 3, 2, 1, 0, 9, 0]"
proof -
  obtain tab t0 where 0: "run_state (read_table api [0, 1, 2, 3]) s = (tab, t0)"
    by (metis surj_pair)
  obtain d0 t1 where 1: "run_state (dump_state api ''boot'') t0 = (d0, t1)" by (metis surj_pair)
  have t1: "targets t1 = targets s"
    using read_table_keeps [of "[0, 1, 2, 3]" s] dump_keeps [of "''boot''" t0] 0 1 by simp
  have ok: "list_all (\<lambda>i. i < PMU_MAX_PSTATES) [1, 2, 3]"
    "list_all (\<lambda>i. i < PMU_MAX_PSTATES) [2, 1, 0]" "0 < PMU_MAX_PSTATES"
    by (simp_all add: PMU_MAX_PSTATES_def)
  obtain r2 t2 where 2: "run_state (switch_all env api [1, 2, 3]) t1 = (Some r2, t2)"
      "targets t2 = targets t1 @ [1, 2, 3]" using switch_all_visits [OF assms ok(1)] by blast
  obtain r3 t3 where 3: "run_state (switch_all env api [2, 1, 0]) t2 = (Some r3, t3)"
      "targets t3 = targets t2 @ [2, 1, 0]" using switch_all_visits [OF assms ok(2)] by blast
  obtain r4 t4 where 4: "run_state (inject_fault api) t3 = (Some r4, t4)"
      "targets t4 = targets t3 @ [9]" using inject_fault_visits [OF assms] by blast
  obtain r5 t5 where 5: "run_state (switch_pstate api 0) t4 = (Some r5, t5)"
      "targets t5 = targets t4 @ [0]" using switch_pstate_visits [OF assms ok(3)] by blast
  show ?thesis
    unfolding demo_main_def
    using 0 1 2 3 4 5 t1
    by (cases r5) (simp add: run_obind del: switch_all.simps read_table.simps)
qed

end

section \<open>The driver keeps these laws\<close>

text \<open>The targets written to the request register of an instance.\<close>

fun requests :: "u32 \<Rightarrow> (pmu_call \<times> u32) list \<Rightarrow> u8 list" where
  "requests a [] = []"
| "requests a ((c, r) # h) =
     (case c of sys_write32 b v \<Rightarrow> if b = a then ucast v # requests a h else requests a h
      | _ \<Rightarrow> requests a h)"

definition driver_targets :: "pmu_config \<Rightarrow> pmu_data \<Rightarrow> u8 list" where
  "driver_targets cfg s = requests (base cfg + PMU_REG_DVFSPSTATEREQ) (calls s)"

lemma requests_append [simp]: "requests a (h @ k) = requests a h @ requests a k"
  by (induction a h rule: requests.induct) (auto split: pmu_call.split)

lemma request_target: "i < PMU_MAX_PSTATES \<Longrightarrow> ucast (ucast i AND PMU_FIELD_MSK TARGETPSTATE :: u32) = i"
proof -
  assume "i < PMU_MAX_PSTATES"
  then have "unat i < 2 ^ 4" by (simp add: PMU_MAX_PSTATES_def word_less_nat_alt)
  moreover have "ucast i AND PMU_FIELD_MSK TARGETPSTATE = take_bit 4 (ucast i)"
    using get_field_take_bit [of TARGETPSTATE "ucast i"] by (simp add: get_field_def PMU_FIELD_POS_def)
  ultimately have "ucast i AND PMU_FIELD_MSK TARGETPSTATE = ucast i"
    using take_bit_ucast_small [of i 4] by simp
  then show ?thesis by simp
qed

lemma wait_loop_targets:
  "driver_targets cfg (final (wait_idle_loop env cfg fin fuel) s) = driver_targets cfg s"
  by (induction fuel arbitrary: s) (simp_all add: driver_targets_def)

interpretation demo: dvfs_api env "pmu_api_funcs env cfg fuel" "driver_targets cfg"
  "clock_expires env n \<and> n < fuel" for env cfg fuel n
proof
  fix i :: u8 and s assume i: "i < PMU_MAX_PSTATES"
  then show "\<exists>t. run_state (request_pstate (pmu_api_funcs env cfg fuel) i) s = (0, t) \<and>
      driver_targets cfg t = driver_targets cfg s @ [i]"
    using request_target [OF i]
    by (simp add: pmu_api_funcs_def pmu_api_request_pstate_def driver_targets_def linorder_not_le)
next
  fix tmo s assume "clock_expires env n \<and> n < fuel"
  then show "\<exists>rc t. run_state (wait_idle (pmu_api_funcs env cfg fuel) tmo) s = (Some rc, t)"
    using pmu_wait_returns [of env n fuel] by (simp add: pmu_api_funcs_def)
next
  fix tmo s
  show "driver_targets cfg (final (wait_idle (pmu_api_funcs env cfg fuel) tmo) s) = driver_targets cfg s"
    by (simp add: pmu_api_funcs_def pmu_api_wait_idle_def wait_loop_targets) (simp add: driver_targets_def)
qed (simp_all add: pmu_api_funcs_def pmu_api_get_status_def pmu_api_get_voltage_mv_def
    pmu_api_get_freq_mhz_def pmu_api_get_pstate_entry_def pmu_api_clear_error_def driver_targets_def)

text \<open>
  Property C19. The demo walks the table as its header says: on the real driver, with a clock
  that expires every wait, \<open>main\<close> returns 0 and the requests that reach the hardware are P1,
  P2, P3, back down P2, P1, P0, then the injected P9 (in range for the driver, above the
  programmed states) and P0 again.
\<close>

theorem demo_walks_table:
  assumes "clock_expires env n" and "n < fuel"
  shows "\<exists>tab ds t. run_state (demo_main env (pmu_api_funcs env cfg fuel) True) s = (Some (0, tab, ds), t) \<and>
    requests (base cfg + PMU_REG_DVFSPSTATEREQ) (calls t) =
    requests (base cfg + PMU_REG_DVFSPSTATEREQ) (calls s) @ [1, 2, 3, 2, 1, 0, 9, 0]"
  using demo.demo_main_visits [of env n fuel cfg s] assms by (auto simp: driver_targets_def)

theorem demo_walks_table_witness:
  "\<exists>tab ds t. run_state (demo_main stuck_env (pmu_api_funcs stuck_env demo_cfg 3) True)
      \<lparr>calls = [], initialized = True\<rparr> = (Some (0, tab, ds), t) \<and>
    requests (base demo_cfg + PMU_REG_DVFSPSTATEREQ) (calls t) = [] @ [1, 2, 3, 2, 1, 0, 9, 0]"
proof -
  have c: "clock_expires stuck_env 2" by (simp add: clock_expires_def stuck_env_def)
  have "(2::nat) < 3" by simp
  from demo_walks_table [OF c this, of demo_cfg "\<lparr>calls = [], initialized = True\<rparr>"] show ?thesis
    by simp
qed

end
