(* ===== verification/Soc.thy ===== *)
theory Soc
  imports Prelude
begin

text \<open>
  The data the power-management applications share: the active power modes, the calls they
  make into the Infineon PDL, the CPU and the Zephyr kernel, and the static variables of their
  files. Register accesses of the code itself are calls as well. The answer to a call is a
  word; a signed return code is read with \<open>sint\<close>.
\<close>

section \<open>Power modes\<close>

text \<open>
  \<open>pm_mode_t\<close> of \<open>power_manager.h\<close>. A C enum can hold a value outside its enumerators, and the
  code has branches for it.
\<close>

datatype pm_mode_t = PM_MODE_ULP | PM_MODE_LP | PM_MODE_HP | PM_MODE_OTHER u32

fun mode_code :: "pm_mode_t \<Rightarrow> u32" where
  "mode_code PM_MODE_ULP = 0"
| "mode_code PM_MODE_LP = 1"
| "mode_code PM_MODE_HP = 2"
| "mode_code (PM_MODE_OTHER n) = n"

fun valid_mode :: "pm_mode_t \<Rightarrow> bool" where
  "valid_mode (PM_MODE_OTHER n) = False"
| "valid_mode m = True"

section \<open>External calls\<close>

datatype vmode = CY_RRAM_VMODE_HP | CY_RRAM_VMODE_LP | CY_RRAM_VMODE_ULP

datatype meas_clk = CY_SYSCLK_MEAS_CLK_PATH0 | CY_SYSCLK_MEAS_CLK_CLKHF0 | CY_SYSCLK_MEAS_CLK_CLKHF10

text \<open>The clock tree. A divider is its division factor.\<close>

datatype clk_call =
  Cy_SysClk_ClkHfSetDivider nat nat
| Cy_SysClk_ClkHfDisable nat
| Cy_SysClk_PllDisable | Cy_SysClk_PllConfigure u32 u32 | Cy_SysClk_PllEnable u32
| Cy_SysClk_DpllLpDisable nat | Cy_SysClk_DpllHpDisable nat
| Cy_SysClk_IhoDeepsleepDisable | Cy_SysClk_ClkBakSetSource_PILO
| Cy_SysClk_StartClkMeasurementCounters u32 meas_clk
| Cy_SysClk_ClkMeasurementCountersDone | Cy_SysClk_ClkMeasurementCountersGetFreq
| Cy_SysClk_ClkPathGetFrequency nat | Cy_SysClk_ClkHfGetFrequency nat
| SystemCoreClockUpdate

datatype deep_sleep_mode = CY_SYSPM_MODE_DEEPSLEEP | CY_SYSPM_MODE_DEEPSLEEP_RAM | CY_SYSPM_MODE_DEEPSLEEP_OFF

text \<open>
  Voltage, retention and the power domains. The profile of the core buck is named by its mode.
\<close>

datatype ppu = PPU_PD1 | PPU_SOCMEM | PPU_APPCPUSS | PPU_APPCPU | PPU_U55

datatype mmio = CY_MMIO_CM55_TCM_512K | CY_MMIO_SMIF0

datatype pm_call =
  Cy_SysPm_SystemEnterHp | Cy_SysPm_SystemEnterLp | Cy_SysPm_SystemEnterUlp
| Cy_SysPm_IsSystemUlp
| Cy_SysPm_RegisterCallback pm_mode_t
| Cy_RRAM_SetVoltageMode vmode
| Cy_SysPm_Init
| Cy_SysPm_CoreBuckDpslpSetVoltage_0_70V | Cy_SysPm_CoreBuckDpslpSetMode_LP
| Cy_SysPm_CoreBuckDpslpEnableOverride bool
| Cy_SysPm_SetDeepSleepMode deep_sleep_mode
| Cy_SysPm_CoreBuckSetProfile pm_mode_t | Cy_SysPm_CoreBuckStatus | Cy_SysPm_SramLdoEnable bool
| Cy_SysPm_CpuEnterSleep | Cy_SysPm_CpuEnterDeepSleep
| Cy_SysEnableSOCMEM bool
| cy_pd_pdcm_clear_dependency_APPCPUSS_SYSCPU | cy_pd_pdcm_clear_dependency_APPCPU_SYSCPU
| Cy_System_EnablePD1 | Cy_SysClk_PeriGroupSlaveInit mmio | cy_mpc_init
| Cy_SysEnableCM55 u32 u32 | Cy_SysPm_SetSOCMEMDeepSleepMode deep_sleep_mode
| cy_ppc0_init | cy_ppc1_init
| Cy_SysCM55SetDbgPort_DISABLE
| cy_pd_ppu_set_power_mode_OFF ppu
| Cy_GPIO_Port_Deinit u32
| Cy_MCWDT_Unlock | Cy_MCWDT_Disable u32 u32 | Cy_MCWDT_ClearInterrupt u32
| Cy_MCWDT_SetInterruptMask u32

text \<open>Registers the code reads and writes itself.\<close>

datatype sfr =
  SRSS_PWR_CTL2 | SRSS_CLK_IMO_CONFIG | SMIF0_CORE_CTL | SMIF1_CORE_CTL | SCB_SCR
| SRSS_TRIM_RAM_CTL nat | SCB2_TX_FIFO_STATUS | SCB2_TX_FIFO_WR
| SysTick_CTRL | SysTick_LOAD | SysTick_VAL

datatype cpu_call =
  SysCtrlBlk_Setup | NVIC_NS_Setup | initFPU
| disable_irq | enable_irq | irq_lock | irq_unlock u32 | DSB | WFI
| mrs_primask | cpsid_i | msr_primask u32
| k_cycle_get_32 | k_cyc_to_us_floor32 u32 | k_msleep u32 | k_busy_wait u32

datatype pin = led_red | led_green | led_blue | led_heartbeat | pm_busy

datatype gpio_call =
  gpio_is_ready_dt pin | gpio_pin_configure_dt pin | gpio_pin_set_dt pin int
| gpio_pin_toggle_dt pin

datatype uart_call = device_is_ready_console | uart_config_get | uart_configure

text \<open>Formatted output: the format string and its arguments.\<close>

datatype parg = Num u32 | SInt int | Str string

datatype out_call =
  printk string "parg list" | printf string "parg list"
| shell_print string "parg list" | shell_error string "parg list"

datatype soc_call =
  Clk clk_call | Pm pm_call | Rd sfr | Wr sfr u32 | Cpu cpu_call | Gpio gpio_call
| Uart uart_call | Out out_call | Psa int nat nat | PsaRead nat

type_synonym soc_env = "(soc_call, u32) env"

section \<open>Static variables\<close>

text \<open>
  \<open>s_cycles\<close>, \<open>s_names\<close>, \<open>s_count\<close>, \<open>s_label\<close> of \<open>pm_phase_log.c\<close>; \<open>s_current_mode\<close> of
  \<open>power_manager.c\<close>; \<open>s_prevent_idle\<close> of \<open>cmd_noidle.c\<close>.
\<close>

record soc = "(soc_call, u32) io" +
  s_cycles :: "u32 list"
  s_names :: "string list"
  s_count :: u8
  s_label :: string
  s_current_mode :: pm_mode_t
  s_prevent_idle :: bool

type_synonym ('z, 'a) soc_prog = "('z soc_scheme, 'a) state"

text \<open>Their values at boot.\<close>

definition PM_PHASE_LOG_MAX_PHASES :: nat where "PM_PHASE_LOG_MAX_PHASES = 8"

definition soc_boot :: soc where
  "soc_boot =
     \<lparr>calls = [], s_cycles = replicate 8 0, s_names = replicate 8 [], s_count = 0,
      s_label = [], s_current_mode = PM_MODE_HP, s_prevent_idle = False\<rparr>"

section \<open>GPIO indicators\<close>

text \<open>\<open>gpio_indicators.c\<close>: the two mode LEDs and the pm-busy scope trigger.\<close>

definition gpio_indicators_init :: "soc_env \<Rightarrow> ('z, int) soc_prog" where
  "gpio_indicators_init env = do {
     r1 \<leftarrow> ask env (Gpio (gpio_is_ready_dt led_red));
     if r1 = 0 then return (- ENODEV) else do {
     r2 \<leftarrow> ask env (Gpio (gpio_is_ready_dt led_green));
     if r2 = 0 then return (- ENODEV) else do {
     r3 \<leftarrow> ask env (Gpio (gpio_is_ready_dt pm_busy));
     if r3 = 0 then return (- ENODEV) else do {
     c1 \<leftarrow> ask env (Gpio (gpio_pin_configure_dt led_red));
     if sint c1 < 0 then return (- EIO) else do {
     c2 \<leftarrow> ask env (Gpio (gpio_pin_configure_dt led_green));
     if sint c2 < 0 then return (- EIO) else do {
     c3 \<leftarrow> ask env (Gpio (gpio_pin_configure_dt pm_busy));
     if sint c3 < 0 then return (- EIO) else return 0
     }}}}}
   }"

definition gpio_indicators_set_mode_leds :: "soc_env \<Rightarrow> int \<Rightarrow> int \<Rightarrow> ('z, unit) soc_prog" where
  "gpio_indicators_set_mode_leds env red green = do {
     tell env (Gpio (gpio_pin_set_dt led_red red));
     tell env (Gpio (gpio_pin_set_dt led_green green))
   }"

definition gpio_indicators_transition_begin :: "soc_env \<Rightarrow> ('z, unit) soc_prog" where
  "gpio_indicators_transition_begin env = tell env (Gpio (gpio_pin_set_dt pm_busy 1))"

definition gpio_indicators_transition_end :: "soc_env \<Rightarrow> ('z, unit) soc_prog" where
  "gpio_indicators_transition_end env = tell env (Gpio (gpio_pin_set_dt pm_busy 0))"

text \<open>Reading a pin off a record of calls: the last level it was set to.\<close>

fun last_set :: "pin \<Rightarrow> (soc_call \<times> u32) list \<Rightarrow> int option" where
  "last_set p [] = None"
| "last_set p ((c, r) # h) =
     (case last_set p h of Some v \<Rightarrow> Some v
      | None \<Rightarrow> (case c of Gpio (gpio_pin_set_dt q v) \<Rightarrow> if q = p then Some v else None | _ \<Rightarrow> None))"

definition pin_level :: "pin \<Rightarrow> (soc_call \<times> u32) list \<Rightarrow> int" where
  "pin_level p h = (case last_set p h of Some v \<Rightarrow> v | None \<Rightarrow> 0)"

lemma last_set_append:
  "last_set p (h @ k) = (case last_set p k of Some v \<Rightarrow> Some v | None \<Rightarrow> last_set p h)"
  by (induction p h rule: last_set.induct) (auto split: option.split)

lemma pin_level_snoc [simp]:
  "pin_level p (h @ [(c, r)]) =
     (case c of Gpio (gpio_pin_set_dt q v) \<Rightarrow> if q = p then v else pin_level p h | _ \<Rightarrow> pin_level p h)"
  by (auto simp: pin_level_def last_set_append split: soc_call.split gpio_call.split)

fun sets_pin :: "soc_call \<Rightarrow> bool" where
  "sets_pin (Gpio (gpio_pin_set_dt p v)) = True"
| "sets_pin c = False"

lemma pin_level_other:
  "list_all ((\<lambda>c. \<not> sets_pin c) \<circ> fst) new \<Longrightarrow> pin_level p (h @ new) = pin_level p h"
proof (induction new arbitrary: h)
  case Nil
  then show ?case by simp
next
  case (Cons e es)
  have "pin_level p (h @ [e]) = pin_level p h"
    using Cons.prems by (cases e; cases "fst e" rule: sets_pin.cases) auto
  with Cons.IH [of "h @ [e]"] Cons.prems show ?case by simp
qed

text \<open>What the initialisation may do: query and configure pins, never set one.\<close>

lemma quiet_gpio_init [quiet_intros]:
  "(\<And>p. C (Gpio (gpio_is_ready_dt p))) \<Longrightarrow> (\<And>p. C (Gpio (gpio_pin_configure_dt p))) \<Longrightarrow>
   quiet C (gpio_indicators_init env)"
  unfolding gpio_indicators_init_def by (intro quiet_intros)

end
