(* ===== verification/Diag.thy ===== *)
theory Diag
  imports Soc
begin

text \<open>
  \<open>diag.c\<close>: tracing straight into the SCB2 transmit FIFO, and the heartbeat thread. The busy
  loops on \<open>TX_FIFO_STATUS\<close> have no bound in the code, so each run of one gets \<open>fuel\<close> reads;
  \<open>None\<close> is a loop that is still spinning. A C string is the list of its characters before
  the NUL. The lemmas show what reaches the wire, that the FIFO is never overrun, and that
  tracing returns when the FIFO drains.
\<close>

section \<open>Operations\<close>

definition APP_SCB2_TX_FIFO_STATUS_USED_Msk :: u32 where
  "APP_SCB2_TX_FIFO_STATUS_USED_Msk = 0x1FF"

definition APP_SCB2_TX_FIFO_STATUS_SR_VALID_Msk :: u32 where
  "APP_SCB2_TX_FIFO_STATUS_SR_VALID_Msk = 0x8000"

definition tx_room :: "u32 \<Rightarrow> bool" where
  "tx_room st \<longleftrightarrow> st AND APP_SCB2_TX_FIFO_STATUS_USED_Msk < 16"

definition tx_idle :: "u32 \<Rightarrow> bool" where
  "tx_idle st \<longleftrightarrow>
     st AND (APP_SCB2_TX_FIFO_STATUS_USED_Msk OR APP_SCB2_TX_FIFO_STATUS_SR_VALID_Msk) = 0"

definition diag_trace_char :: "soc_env \<Rightarrow> nat \<Rightarrow> char \<Rightarrow> ('z, unit option) soc_prog" where
  "diag_trace_char env fuel c =
     obind (spin env (Rd SCB2_TX_FIFO_STATUS) tx_room fuel) (\<lambda>_. do {
       tell env (Wr SCB2_TX_FIFO_WR (of_nat (of_char c)));
       return (Some ())
     })"

fun trace_chars :: "soc_env \<Rightarrow> nat \<Rightarrow> string \<Rightarrow> ('z, unit option) soc_prog" where
  "trace_chars env fuel [] = return (Some ())"
| "trace_chars env fuel (c # cs) =
     obind (if c = CHR 0x0A then diag_trace_char env fuel (CHR 0x0D) else return (Some ())) (\<lambda>_.
     obind (diag_trace_char env fuel c) (\<lambda>_.
       trace_chars env fuel cs))"

definition diag_trace :: "soc_env \<Rightarrow> nat \<Rightarrow> string option \<Rightarrow> ('z, unit option) soc_prog" where
  "diag_trace env fuel s = (case s of None \<Rightarrow> return (Some ()) | Some cs \<Rightarrow> trace_chars env fuel cs)"

definition diag_trace_flush :: "soc_env \<Rightarrow> nat \<Rightarrow> ('z, unit option) soc_prog" where
  "diag_trace_flush env fuel = spin env (Rd SCB2_TX_FIFO_STATUS) tx_idle fuel"

text \<open>The heartbeat thread; its endless loop runs for a given number of rounds.\<close>

fun heartbeat_loop :: "soc_env \<Rightarrow> nat \<Rightarrow> ('z, unit) soc_prog" where
  "heartbeat_loop env 0 = return ()"
| "heartbeat_loop env (Suc n) = do {
     tell env (Gpio (gpio_pin_toggle_dt led_heartbeat));
     tell env (Cpu (k_msleep 500));
     heartbeat_loop env n
   }"

definition heartbeat_entry :: "soc_env \<Rightarrow> nat \<Rightarrow> ('z, unit) soc_prog" where
  "heartbeat_entry env rounds = do {
     ready \<leftarrow> ask env (Gpio (gpio_is_ready_dt led_heartbeat));
     if ready = 0 then return ()
     else do {
       tell env (Gpio (gpio_pin_configure_dt led_heartbeat));
       heartbeat_loop env rounds
     }
   }"

section \<open>What reaches the wire\<close>

fun tx_bytes :: "(soc_call \<times> u32) list \<Rightarrow> u32 list" where
  "tx_bytes [] = []"
| "tx_bytes ((Wr SCB2_TX_FIFO_WR b, r) # h) = b # tx_bytes h"
| "tx_bytes (e # h) = tx_bytes h"

definition crlf :: "string \<Rightarrow> u32 list" where
  "crlf s = map (\<lambda>c. of_nat (of_char c))
     (concat (map (\<lambda>c. if c = CHR 0x0A then [CHR 0x0D, c] else [c]) s))"

text \<open>Every byte goes into a FIFO that the last status read, after the byte before it, showed to have room.\<close>

fun paced :: "bool \<Rightarrow> (soc_call \<times> u32) list \<Rightarrow> bool" where
  "paced room [] = True"
| "paced room ((Rd SCB2_TX_FIFO_STATUS, v) # h) = paced (tx_room v) h"
| "paced room ((Wr SCB2_TX_FIFO_WR b, r) # h) = (room \<and> paced False h)"
| "paced room (e # h) = paced room h"

definition scb2 :: "soc_call \<Rightarrow> bool" where
  "scb2 c \<longleftrightarrow> c = Rd SCB2_TX_FIFO_STATUS \<or> (\<exists>b. c = Wr SCB2_TX_FIFO_WR b)"

lemma scb2_simps [simp]:
  "scb2 (Rd SCB2_TX_FIFO_STATUS)" "scb2 (Wr SCB2_TX_FIFO_WR b)"
  "\<not> scb2 (Clk k)" "\<not> scb2 (Pm p)" "\<not> scb2 (Cpu u)" "\<not> scb2 (Gpio g)" "\<not> scb2 (Out x)"
  "\<not> scb2 (Uart y)"
  by (simp_all add: scb2_def)

lemma tx_bytes_append [simp]: "tx_bytes (h @ k) = tx_bytes h @ tx_bytes k"
  by (induction h rule: tx_bytes.induct) auto

lemma tx_bytes_reads [simp]: "tx_bytes (map (Pair (Rd f)) vs) = []"
  by (induction vs) auto

lemma paced_reads:
  "paced room (map (Pair (Rd SCB2_TX_FIFO_STATUS)) vs @ h) =
     paced (if vs = [] then room else tx_room (last vs)) h"
  by (induction vs arbitrary: room) auto

lemma paced_append_False:
  "paced room h \<Longrightarrow> paced False k \<Longrightarrow> paced room (h @ k)"
proof (induction room h rule: paced.induct)
  case (1 room)
  have "paced a k \<Longrightarrow> a \<longrightarrow> b \<Longrightarrow> paced b k" for a b
    by (induction a k arbitrary: b rule: paced.induct) auto
  with 1 show ?case by auto
qed auto

lemma quiet_diag_trace_char [quiet_intros]: "quiet scb2 (diag_trace_char env fuel c)"
  unfolding diag_trace_char_def by (intro quiet_intros) simp_all

lemma quiet_trace_chars [quiet_intros]: "quiet scb2 (trace_chars env fuel cs)"
  by (induction cs) (simp_all add: quiet_intros)

lemma quiet_diag_trace [quiet_intros]: "quiet scb2 (diag_trace env fuel s)"
  by (cases s) (simp_all add: diag_trace_def quiet_intros)

lemma quiet_diag_trace_flush [quiet_intros]: "quiet scb2 (diag_trace_flush env fuel)"
  unfolding diag_trace_flush_def by (intro quiet_intros) simp_all

lemma run_trace_char:
  obtains new r where "run_state (diag_trace_char env fuel c) s = (r, s\<lparr>calls := calls s @ new\<rparr>)"
    and "paced False new" and "tx_bytes new = (if r = None then [] else [of_nat (of_char c)])"
proof -
  obtain vs where "run_state (spin env (Rd SCB2_TX_FIFO_STATUS) tx_room fuel) s =
      (if vs \<noteq> [] \<and> tx_room (last vs) then Some () else None,
       s\<lparr>calls := calls s @ map (Pair (Rd SCB2_TX_FIFO_STATUS)) vs\<rparr>)"
    by (rule run_spin)
  then have run: "run_state (diag_trace_char env fuel c) s =
     (if vs \<noteq> [] \<and> tx_room (last vs)
      then (Some (), s\<lparr>calls := calls s @ map (Pair (Rd SCB2_TX_FIFO_STATUS)) vs @
         [(Wr SCB2_TX_FIFO_WR (of_nat (of_char c)),
           env (calls s @ map (Pair (Rd SCB2_TX_FIFO_STATUS)) vs)
             (Wr SCB2_TX_FIFO_WR (of_nat (of_char c))))]\<rparr>)
      else (None, s\<lparr>calls := calls s @ map (Pair (Rd SCB2_TX_FIFO_STATUS)) vs\<rparr>))"
    by (simp add: diag_trace_char_def run_obind)
  show ?thesis
  proof (cases "vs \<noteq> [] \<and> tx_room (last vs)")
    case True
    with run show ?thesis by (intro that) (assumption | simp add: paced_reads)+
  next
    case False
    with run show ?thesis
      using paced_reads [of False vs "[]"] by (intro that) (assumption | auto)+
  qed
qed

lemma crlf_Cons:
  "crlf (c # cs) = (if c = CHR 0x0A then [of_nat (of_char (CHR 0x0D))] else []) @
     of_nat (of_char c) # crlf cs"
  by (simp add: crlf_def)

lemma run_trace_chars:
  "\<exists>new r. run_state (trace_chars env fuel cs) s = (r, s\<lparr>calls := calls s @ new\<rparr>) \<and>
    paced False new \<and>
    (if r = None then \<exists>k. tx_bytes new = take k (crlf cs) else tx_bytes new = crlf cs)"
proof (induction cs arbitrary: s)
  case Nil
  then show ?case by (auto simp: crlf_def intro: exI [of _ "[]"])
next
  case (Cons c cs)
  let ?cr = "if c = CHR 0x0A then diag_trace_char env fuel (CHR 0x0D) else return (Some ())"
  obtain n1 r1 where 1: "run_state ?cr s = (r1, s\<lparr>calls := calls s @ n1\<rparr>)" "paced False n1"
      "tx_bytes n1 = (if r1 = None \<or> c \<noteq> CHR 0x0A then [] else [of_nat (of_char (CHR 0x0D))])"
  proof (cases "c = CHR 0x0A")
    case True
    show ?thesis
      by (rule run_trace_char [of env fuel "CHR 0x0D" s], rule that) (use True in simp_all)
  next
    case False
    then show ?thesis by (intro that [of "Some ()" "[]"]) simp_all
  qed
  show ?case
  proof (cases r1)
    case None
    with 1 show ?thesis
      by (intro exI [of _ n1] exI [of _ None]) (auto simp: run_obind intro: exI [of _ 0])
  next
    case (Some u)
    let ?s1 = "s\<lparr>calls := calls s @ n1\<rparr>"
    obtain n2 r2 where 2: "run_state (diag_trace_char env fuel c) ?s1 = (r2, s\<lparr>calls := calls s @ n1 @ n2\<rparr>)"
        "paced False n2" "tx_bytes n2 = (if r2 = None then [] else [of_nat (of_char c)])"
      by (rule run_trace_char [of env fuel c ?s1]) auto
    show ?thesis
    proof (cases r2)
      case None
      with 1 2 Some have "run_state (trace_chars env fuel (c # cs)) s =
          (None, s\<lparr>calls := calls s @ n1 @ n2\<rparr>)" by (simp add: run_obind)
      moreover have "\<exists>k. tx_bytes (n1 @ n2) = take k (crlf (c # cs))"
        using 1 2 None by (intro exI [of _ "length (tx_bytes n1)"]) (auto simp: crlf_Cons Some)
      ultimately show ?thesis
        using paced_append_False [OF 1(2) 2(2)] by (intro exI [of _ "n1 @ n2"] exI [of _ None]) simp
    next
      case (Some v)
      obtain n3 r3 where 3: "run_state (trace_chars env fuel cs) (s\<lparr>calls := calls s @ n1 @ n2\<rparr>) =
          (r3, s\<lparr>calls := calls s @ n1 @ n2 @ n3\<rparr>)" "paced False n3"
          "if r3 = None then \<exists>k. tx_bytes n3 = take k (crlf cs) else tx_bytes n3 = crlf cs"
        using Cons.IH [of "s\<lparr>calls := calls s @ n1 @ n2\<rparr>"] by auto
      have "run_state (trace_chars env fuel (c # cs)) s = (r3, s\<lparr>calls := calls s @ (n1 @ n2 @ n3)\<rparr>)"
        using 1 2 3 Some \<open>r1 = Some u\<close> by (simp add: run_obind)
      moreover have "paced False (n1 @ n2 @ n3)"
        by (intro paced_append_False 1 2 3)
      moreover have "if r3 = None then \<exists>k. tx_bytes (n1 @ n2 @ n3) = take k (crlf (c # cs))
          else tx_bytes (n1 @ n2 @ n3) = crlf (c # cs)"
      proof (cases "r3 = None")
        case True
        with 3 obtain k where "tx_bytes n3 = take k (crlf cs)" by auto
        with 1 2 Some \<open>r1 = Some u\<close> True show ?thesis
          by (auto simp: crlf_Cons intro: exI [of _ "Suc k"] exI [of _ "Suc (Suc k)"])
      qed (use 1 2 3 Some \<open>r1 = Some u\<close> in \<open>auto simp: crlf_Cons\<close>)
      ultimately show ?thesis by blast
    qed
  qed
qed

section \<open>Tracing returns\<close>

definition tx_drains :: "soc_env \<Rightarrow> nat \<Rightarrow> bool" where
  "tx_drains env n \<longleftrightarrow> settles env (Rd SCB2_TX_FIFO_STATUS) tx_idle n"

lemma tx_idle_room: "tx_idle st \<Longrightarrow> tx_room st"
proof -
  assume "tx_idle st"
  then have "(st AND APP_SCB2_TX_FIFO_STATUS_USED_Msk) OR
      (st AND APP_SCB2_TX_FIFO_STATUS_SR_VALID_Msk) = 0"
    by (simp add: tx_idle_def bit.conj_disj_distrib)
  then have "st AND APP_SCB2_TX_FIFO_STATUS_USED_Msk = 0" by (simp add: or_eq_0_iff)
  then show ?thesis by (simp add: tx_room_def)
qed

lemma trace_char_returns:
  assumes "tx_drains env n" and "n \<le> fuel"
  shows "result (diag_trace_char env fuel c) s = Some ()"
proof -
  have "settles env (Rd SCB2_TX_FIFO_STATUS) tx_room n"
    by (rule settles_weaken [OF assms(1) [unfolded tx_drains_def] tx_idle_room])
  from spin_returns [OF this assms(2), of s] show ?thesis
    by (cases "run_state (spin env (Rd SCB2_TX_FIFO_STATUS) tx_room fuel) s")
      (simp add: diag_trace_char_def run_obind)
qed

lemma trace_chars_return:
  assumes "tx_drains env n" and "n \<le> fuel"
  shows "result (trace_chars env fuel cs) s = Some ()"
proof (induction cs arbitrary: s)
  case (Cons c cs)
  obtain s1 where "run_state (if c = CHR 0x0A then diag_trace_char env fuel (CHR 0x0D)
      else return (Some ())) s = (Some (), s1)"
    using trace_char_returns [OF assms, of "CHR 0x0D" s]
    by (cases "c = CHR 0x0A"; cases "run_state (diag_trace_char env fuel (CHR 0x0D)) s") auto
  moreover obtain s2 where "run_state (diag_trace_char env fuel c) s1 = (Some (), s2)"
    using trace_char_returns [OF assms, of c s1] by (metis prod.collapse)
  ultimately show ?case using Cons.IH [of s2] by (simp add: run_obind)
qed simp

lemma diag_trace_returns:
  "tx_drains env n \<Longrightarrow> n \<le> fuel \<Longrightarrow> result (diag_trace env fuel m) s = Some ()"
  by (cases m) (simp_all add: diag_trace_def trace_chars_return)

lemma diag_flush_returns:
  "tx_drains env n \<Longrightarrow> n \<le> fuel \<Longrightarrow> result (diag_trace_flush env fuel) s = Some ()"
  unfolding tx_drains_def diag_trace_flush_def by (rule spin_returns)

text \<open>
  Property C18. Tracing writes the message to the FIFO byte by byte in order, with a carriage
  return before every line feed, and never overruns it: each byte follows a status read, made
  after the byte before it, that showed fewer than 16 entries used. It touches no other
  register and no variable. A trace that hangs has written a prefix of the message; with a
  FIFO that drains within \<open>n\<close> reads it does not hang.
\<close>

theorem diag_trace_crlf:
  "\<exists>new r. run_state (diag_trace env fuel (Some msg)) s = (r, s\<lparr>calls := calls s @ new\<rparr>) \<and>
    list_all (scb2 \<circ> fst) new \<and> paced False new \<and>
    (if r = None then (\<exists>k. tx_bytes new = take k (crlf msg)) \<and> \<not> tx_drains env fuel
     else tx_bytes new = crlf msg)"
proof -
  obtain new r where 1: "run_state (diag_trace env fuel (Some msg)) s = (r, s\<lparr>calls := calls s @ new\<rparr>)"
      "paced False new"
      "if r = None then \<exists>k. tx_bytes new = take k (crlf msg) else tx_bytes new = crlf msg"
    using run_trace_chars [of env fuel msg s] by (auto simp: diag_trace_def)
  obtain new' where 2: "final (diag_trace env fuel (Some msg)) s = s\<lparr>calls := calls s @ new'\<rparr>"
      "list_all (scb2 \<circ> fst) new'"
    using quietE [OF quiet_diag_trace] .
  have "new' = new" using 1(1) 2(1) by (metis append_eq_append_conv io.select_convs(1) io.surjective
      io.update_convs(1) snd_conv)
  moreover have "r = None \<Longrightarrow> \<not> tx_drains env fuel"
    using diag_trace_returns [of env fuel fuel "Some msg" s] 1(1) by auto
  ultimately show ?thesis using 1 2 by auto
qed

end
