(* ===== verification/Pm_Core.thy ===== *)
theory Pm_Core
  imports Diag
begin

text \<open>
  The orchestration layer of the power-mode manager (\<open>power_manager.c\<close>, \<open>pm_phase_log.c\<close>,
  \<open>power_manager_internal.h\<close> of \<open>apps/06_pse84_m33_s_shell_ulp_lp_hp\<close>, with byte-identical
  copies in 07a): the phase log, the voltage step, the mode switch and the clock probe. The
  DVFS strategy is a record of the functions of \<open>power_manager_internal.h\<close>, and the locales
  state the contract under which the switch is correct; the two strategies interpret them in
  their own theories. \<open>Cy_SysPm_SystemEnterHp/Lp/Ulp\<close> is a parameter, since under the PLL
  strategy it calls back into the code.
\<close>

section \<open>The phase log\<close>

definition pm_phase_log_reset :: "string option \<Rightarrow> ('z, unit) soc_prog" where
  "pm_phase_log_reset label = modify (\<lambda>s. s
     \<lparr>s_label := (case label of None \<Rightarrow> [] | Some l \<Rightarrow> l), s_count := 0\<rparr>)"

definition pm_phase_log_record :: "string option \<Rightarrow> u32 \<Rightarrow> ('z, unit) soc_prog" where
  "pm_phase_log_record name cycles = modify (\<lambda>s.
     if unat (s_count s) < PM_PHASE_LOG_MAX_PHASES
     then s\<lparr>s_names := (s_names s)[unat (s_count s) := case name of None \<Rightarrow> ''?'' | Some n \<Rightarrow> n],
            s_cycles := (s_cycles s)[unat (s_count s) := cycles],
            s_count := s_count s + 1\<rparr>
     else s)"

text \<open>The phases of the log, and their sum on 32 bits.\<close>

definition phase_list :: "'z soc_scheme \<Rightarrow> (string \<times> u32) list" where
  "phase_list s = take (unat (s_count s)) (zip (s_names s) (s_cycles s))"

definition pm_phase_log_total_cycles :: "('z, u32) soc_prog" where
  "pm_phase_log_total_cycles = gets (\<lambda>s. sum_list (take (unat (s_count s)) (s_cycles s)))"

definition pm_phase_log_print :: "soc_env \<Rightarrow> ('z, unit) soc_prog" where
  "pm_phase_log_print env = do {
     n \<leftarrow> gets s_count;
     if n = 0 then return ()
     else do {
       label \<leftarrow> gets s_label;
       tell env (Out (printk ''[pm] %s phase cycles:'' [Str label]));
       phases \<leftarrow> gets phase_list;
       for_each phases (\<lambda>(name, c). tell env (Out (printk '' %s=%u'' [Str name, Num c])));
       total \<leftarrow> pm_phase_log_total_cycles;
       tell env (Out (printk '' total=%u'' [Num total]))
     }
   }"

text \<open>The arrays have their declared size and the count is in range.\<close>

definition log_ok :: "'z soc_scheme \<Rightarrow> bool" where
  "log_ok s \<longleftrightarrow> length (s_names s) = PM_PHASE_LOG_MAX_PHASES \<and>
     length (s_cycles s) = PM_PHASE_LOG_MAX_PHASES \<and> unat (s_count s) \<le> PM_PHASE_LOG_MAX_PHASES"

primrec record_all :: "(string \<times> u32) list \<Rightarrow> ('z, unit) soc_prog" where
  "record_all [] = return ()"
| "record_all (p # ps) = do { pm_phase_log_record (Some (fst p)) (snd p); record_all ps }"

lemma phase_cycles:
  "log_ok s \<Longrightarrow> map snd (phase_list s) = take (unat (s_count s)) (s_cycles s)"
  by (simp add: phase_list_def log_ok_def map_snd_zip flip: take_map)

lemma log_ok_boot: "log_ok soc_boot"
  by (simp add: log_ok_def soc_boot_def PM_PHASE_LOG_MAX_PHASES_def)

lemma record_log_ok: "log_ok s \<Longrightarrow> log_ok (final (pm_phase_log_record n c) s)"
proof -
  have "unat (k + 1) = Suc (unat k)" if "unat k < 8" for k :: u8
    using that by (simp add: unat_word_ariths)
  then show "log_ok s \<Longrightarrow> log_ok (final (pm_phase_log_record n c) s)"
    by (auto simp: log_ok_def pm_phase_log_record_def PM_PHASE_LOG_MAX_PHASES_def Suc_le_eq)
qed

lemma record_phase_list:
  assumes "log_ok s"
  shows "phase_list (final (pm_phase_log_record (Some n) c) s) =
    take PM_PHASE_LOG_MAX_PHASES (phase_list s @ [(n, c)])"
proof (cases "unat (s_count s) < 8")
  case True
  then have u: "unat (s_count s + 1) = Suc (unat (s_count s))"
    by (simp add: unat_word_ariths)
  from True assms u show ?thesis
    by (simp add: phase_list_def pm_phase_log_record_def log_ok_def PM_PHASE_LOG_MAX_PHASES_def
        zip_update take_Suc_conv_app_nth)
next
  case False
  with assms show ?thesis
    by (simp add: phase_list_def pm_phase_log_record_def log_ok_def PM_PHASE_LOG_MAX_PHASES_def)
qed

lemma take_take_snoc: "take n (take n (xs @ [p]) @ ps) = take n (xs @ p # ps)"
  by (cases "length xs < n") (auto simp: take_Cons' Suc_diff_Suc)

lemma record_all_phases:
  "log_ok s \<Longrightarrow> log_ok (final (record_all ps) s) \<and>
   phase_list (final (record_all ps) s) = take PM_PHASE_LOG_MAX_PHASES (phase_list s @ ps)"
proof (induction ps arbitrary: s)
  case Nil
  then show ?case by (simp add: phase_list_def log_ok_def)
next
  case (Cons p ps)
  let ?s = "final (pm_phase_log_record (Some (fst p)) (snd p)) s"
  have "final (record_all (p # ps)) s = final (record_all ps) ?s"
    by (simp add: split_beta)
  with Cons.IH [OF record_log_ok [OF Cons.prems]] record_phase_list [OF Cons.prems, of "fst p" "snd p"]
  show ?case by (simp only: take_take_snoc prod.collapse)
qed

section \<open>The strategy and the voltage step\<close>

text \<open>
  What the PDL provides to the voltage step. \<open>CY_SYSPM_SUCCESS\<close> and \<open>CY_SYSCLK_SUCCESS\<close> are 0;
  \<open>CY_SYSPM_FAIL\<close> is whatever the PDL defines. Entering a mode may hang (\<open>None\<close>), because a
  callback of the code may.
\<close>

record 'z pdl =
  CY_SYSPM_FAIL :: u32
  Cy_SysPm_SystemEnter :: "pm_mode_t \<Rightarrow> ('z, u32 option) soc_prog"

record 'z strategy =
  pm_strategy_init :: "('z, unit) soc_prog"
  pm_strategy_transition :: "pm_mode_t \<Rightarrow> pm_mode_t \<Rightarrow> ('z, int option) soc_prog"
  pm_strategy_mode_name :: "pm_mode_t \<Rightarrow> string"
  pm_strategy_probe_status :: "('z, unit) soc_prog"
  pm_strategy_needs_uart_retune :: bool
  pm_strategy_print_last_phases :: "('z, unit) soc_prog"

definition TRACE :: "soc_env \<Rightarrow> nat \<Rightarrow> string \<Rightarrow> ('z, unit option) soc_prog" where
  "TRACE env fuel msg = diag_trace env fuel (Some (''<T:'' @ msg @ ''>'' @ [CHR 0x0A]))"

text \<open>The PDL entry point for a mode.\<close>

fun enter_call :: "pm_mode_t \<Rightarrow> pm_call" where
  "enter_call PM_MODE_HP = Cy_SysPm_SystemEnterHp"
| "enter_call PM_MODE_LP = Cy_SysPm_SystemEnterLp"
| "enter_call _ = Cy_SysPm_SystemEnterUlp"

fun pm_syspm_enter :: "soc_env \<Rightarrow> nat \<Rightarrow> 'z pdl \<Rightarrow> pm_mode_t \<Rightarrow> ('z, u32 option) soc_prog" where
  "pm_syspm_enter env fuel P PM_MODE_HP =
     obind (TRACE env fuel ''switch:EnterHp'') (\<lambda>_. Cy_SysPm_SystemEnter P PM_MODE_HP)"
| "pm_syspm_enter env fuel P PM_MODE_LP =
     obind (TRACE env fuel ''switch:EnterLp'') (\<lambda>_. Cy_SysPm_SystemEnter P PM_MODE_LP)"
| "pm_syspm_enter env fuel P PM_MODE_ULP =
     obind (TRACE env fuel ''switch:EnterUlp'') (\<lambda>_. Cy_SysPm_SystemEnter P PM_MODE_ULP)"
| "pm_syspm_enter env fuel P (PM_MODE_OTHER n) = return (Some (CY_SYSPM_FAIL P))"

section \<open>The clock probe\<close>

definition PM_PROBE_REF_COUNT :: u32 where "PM_PROBE_REF_COUNT = 50000"

definition PM_MEAS_SAFETY_ITERS :: nat where "PM_MEAS_SAFETY_ITERS = 1000000"

text \<open>
  \<open>while (!Done() && (--safety != 0u))\<close>, entered with \<open>safety\<close> positive: the value of \<open>safety\<close>
  after the loop.
\<close>

fun measure_spin :: "soc_env \<Rightarrow> nat \<Rightarrow> ('z, nat) soc_prog" where
  "measure_spin env 0 = return 0"
| "measure_spin env (Suc n) = do {
     isdone \<leftarrow> ask env (Clk Cy_SysClk_ClkMeasurementCountersDone);
     if isdone \<noteq> 0 then return (Suc n)
     else measure_spin env n
   }"

definition pm_measure_hz :: "soc_env \<Rightarrow> meas_clk \<Rightarrow> ('z, u32) soc_prog" where
  "pm_measure_hz env measured = do {
     st \<leftarrow> ask env (Clk (Cy_SysClk_StartClkMeasurementCounters PM_PROBE_REF_COUNT measured));
     if st \<noteq> 0 then return 0
     else do {
       safety \<leftarrow> measure_spin env PM_MEAS_SAFETY_ITERS;
       if safety = 0 then return 0
       else ask env (Clk Cy_SysClk_ClkMeasurementCountersGetFreq)
     }
   }"

definition pm_print_hz :: "soc_env \<Rightarrow> string \<Rightarrow> u32 \<Rightarrow> u32 \<Rightarrow> ('z, unit) soc_prog" where
  "pm_print_hz env label meas_hz comp_hz =
     tell env (Out (printk
       ''[clk] %s meas=%3u.%03u MHz (%9u Hz)  comp=%3u.%03u MHz (%9u Hz)''
       [Str label, Num (meas_hz div 1000000), Num (meas_hz div 1000 mod 1000), Num meas_hz,
        Num (comp_hz div 1000000), Num (comp_hz div 1000 mod 1000), Num comp_hz]))"

definition pm_clock_probe :: "soc_env \<Rightarrow> 'z strategy \<Rightarrow> ('z, unit) soc_prog" where
  "pm_clock_probe env strat = do {
     m_path0 \<leftarrow> pm_measure_hz env CY_SYSCLK_MEAS_CLK_PATH0;
     m_hf0 \<leftarrow> pm_measure_hz env CY_SYSCLK_MEAS_CLK_CLKHF0;
     m_hf10 \<leftarrow> pm_measure_hz env CY_SYSCLK_MEAS_CLK_CLKHF10;
     c_path0 \<leftarrow> ask env (Clk (Cy_SysClk_ClkPathGetFrequency 0));
     c_hf0 \<leftarrow> ask env (Clk (Cy_SysClk_ClkHfGetFrequency 0));
     c_hf10 \<leftarrow> ask env (Clk (Cy_SysClk_ClkHfGetFrequency 10));
     pm_print_hz env ''DPLL_LP0 '' m_path0 c_path0;
     pm_print_hz env ''CLK_HF0  '' m_hf0 c_hf0;
     pm_print_hz env ''CLK_HF10 '' m_hf10 c_hf10;
     pm_strategy_probe_status strat
   }"

section \<open>Public API\<close>

definition pm_reconfigure_console_uart :: "soc_env \<Rightarrow> ('z, unit) soc_prog" where
  "pm_reconfigure_console_uart env = do {
     ready \<leftarrow> ask env (Uart device_is_ready_console);
     if ready = 0 then return ()
     else do {
       rc \<leftarrow> ask env (Uart uart_config_get);
       if rc \<noteq> 0 then return () else tell env (Uart uart_configure)
     }
   }"

definition pm_mode_name :: "'z strategy \<Rightarrow> pm_mode_t \<Rightarrow> string" where
  "pm_mode_name strat m = pm_strategy_mode_name strat m"

definition pm_current_mode :: "('z, pm_mode_t) soc_prog" where
  "pm_current_mode = gets s_current_mode"

definition pm_init :: "soc_env \<Rightarrow> 'z strategy \<Rightarrow> ('z, unit) soc_prog" where
  "pm_init env strat = do {
     modify (s_current_mode_update (\<lambda>_. PM_MODE_HP));
     pm_strategy_init strat;
     tell env (Clk SystemCoreClockUpdate)
   }"

definition pm_switch_done ::
  "soc_env \<Rightarrow> nat \<Rightarrow> 'z strategy \<Rightarrow> pm_mode_t \<Rightarrow> pm_mode_t \<Rightarrow> u32 \<Rightarrow> ('z, int option) soc_prog" where
  "pm_switch_done env fuel strat source target cycles = do {
     modify (s_current_mode_update (\<lambda>_. target));
     tell env (Clk SystemCoreClockUpdate);
     obind (if pm_strategy_needs_uart_retune strat
            then obind (diag_trace_flush env fuel) (\<lambda>_. do {
              pm_reconfigure_console_uart env;
              return (Some ())
            })
            else return (Some ())) (\<lambda>_. do {
     tell env (Out (printk ''[pm] transition %s -> %s : %u cycles''
       [Str (pm_mode_name strat source), Str (pm_mode_name strat target), Num cycles]));
     pm_strategy_print_last_phases strat;
     obind (TRACE env fuel ''switch:complete'') (\<lambda>_. do {
     pm_clock_probe env strat;
     return (Some 0)
     })})
   }"

definition pm_switch_to :: "soc_env \<Rightarrow> nat \<Rightarrow> 'z strategy \<Rightarrow> pm_mode_t \<Rightarrow> ('z, int option) soc_prog"
  where
  "pm_switch_to env fuel strat target = do {
     source \<leftarrow> gets s_current_mode;
     if target = source then return (Some 0)
     else if target \<noteq> PM_MODE_HP \<and> target \<noteq> PM_MODE_LP \<and> target \<noteq> PM_MODE_ULP
     then return (Some (- EINVAL))
     else do {
       t_start \<leftarrow> ask env (Cpu k_cycle_get_32);
       gpio_indicators_transition_begin env;
       obind (pm_strategy_transition strat source target) (\<lambda>rc. do {
       gpio_indicators_transition_end env;
       t_end \<leftarrow> ask env (Cpu k_cycle_get_32);
       if rc \<noteq> 0 then obind (TRACE env fuel ''switch:FAIL'') (\<lambda>_. return (Some rc))
       else pm_switch_done env fuel strat source target (t_end - t_start)
       })
     }
   }"

section \<open>Calls that leave clocks, voltage and pins alone\<close>

fun benign :: "soc_call \<Rightarrow> bool" where
  "benign (Clk (Cy_SysClk_StartClkMeasurementCounters n m)) = True"
| "benign (Clk Cy_SysClk_ClkMeasurementCountersDone) = True"
| "benign (Clk Cy_SysClk_ClkMeasurementCountersGetFreq) = True"
| "benign (Clk (Cy_SysClk_ClkPathGetFrequency n)) = True"
| "benign (Clk (Cy_SysClk_ClkHfGetFrequency n)) = True"
| "benign (Clk SystemCoreClockUpdate) = True"
| "benign (Clk c) = False"
| "benign (Pm Cy_SysPm_IsSystemUlp) = True"
| "benign (Rd r) = True"
| "benign (Wr SCB2_TX_FIFO_WR b) = True"
| "benign (Wr r v) = False"
| "benign (Cpu c) = True"
| "benign (Out x) = True"
| "benign (Uart u) = True"
| "benign c = False"

text \<open>The calls that command clocks, voltage or pins.\<close>

definition hw_calls :: "(soc_call \<times> u32) list \<Rightarrow> soc_call list" where
  "hw_calls h = map fst (filter (\<lambda>e. \<not> benign (fst e)) h)"

lemma hw_calls_append [simp]: "hw_calls (h @ k) = hw_calls h @ hw_calls k"
  by (simp add: hw_calls_def)

lemma hw_calls_Nil [simp]: "hw_calls [] = []"
  by (simp add: hw_calls_def)

lemma hw_calls_Cons [simp]: "hw_calls (e # h) = (if benign (fst e) then hw_calls h else fst e # hw_calls h)"
  by (simp add: hw_calls_def)

lemma hw_calls_benign: "list_all (benign \<circ> fst) h \<Longrightarrow> hw_calls h = []"
  by (simp add: hw_calls_def list_all_iff filter_empty_conv)

lemma scb2_benign: "scb2 c \<Longrightarrow> benign c"
  by (auto simp: scb2_def)

lemma benign_no_pin: "benign c \<Longrightarrow> \<not> sets_pin c"
  by (cases c rule: benign.cases) auto

lemma quiet_TRACE [quiet_intros]: "quiet benign (TRACE env fuel msg)"
  unfolding TRACE_def by (rule quiet_mono [OF quiet_diag_trace scb2_benign])

lemma quiet_flush_benign: "quiet benign (diag_trace_flush env fuel)"
  by (rule quiet_mono [OF quiet_diag_trace_flush scb2_benign])

lemma quiet_measure_spin: "quiet benign (measure_spin env n)"
  by (induction n) (auto intro!: quiet_intros)

lemma quiet_measure_hz [quiet_intros]: "quiet benign (pm_measure_hz env m)"
  unfolding pm_measure_hz_def by (intro quiet_intros quiet_measure_spin) simp_all

lemma quiet_reconfigure [quiet_intros]: "quiet benign (pm_reconfigure_console_uart env)"
  unfolding pm_reconfigure_console_uart_def by (intro quiet_intros) simp_all

lemma quiet_phase_log_print: "quiet benign (pm_phase_log_print env)"
  unfolding pm_phase_log_print_def pm_phase_log_total_cycles_def
  by (intro quiet_intros) (simp_all add: split_beta quiet_tell)

lemma quiet_clock_probe:
  "quiet benign (pm_strategy_probe_status strat) \<Longrightarrow> quiet benign (pm_clock_probe env strat)"
  unfolding pm_clock_probe_def pm_print_hz_def by (intro quiet_intros) simp_all

text \<open>
  The measurement loop is bounded: 0 means that all \<open>n\<close> polls failed, any other value that a poll
  found the counters done, the first one to do so.
\<close>

definition polls_failed :: "nat \<Rightarrow> (soc_call \<times> u32) list \<Rightarrow> bool" where
  "polls_failed n h \<longleftrightarrow> h = replicate n (Clk Cy_SysClk_ClkMeasurementCountersDone, 0)"

definition poll_succeeded :: "nat \<Rightarrow> (soc_call \<times> u32) list \<Rightarrow> bool" where
  "poll_succeeded n h \<longleftrightarrow> h \<noteq> [] \<and> length h \<le> n \<and> polls_failed (length h - 1) (butlast h) \<and>
     fst (last h) = Clk Cy_SysClk_ClkMeasurementCountersDone \<and> snd (last h) \<noteq> 0"

lemma poll_succeeded_Cons:
  "poll_succeeded n h \<Longrightarrow> poll_succeeded (Suc n) ((Clk Cy_SysClk_ClkMeasurementCountersDone, 0) # h)"
  by (cases h) (auto simp: poll_succeeded_def polls_failed_def)

lemma polls_exclusive: "poll_succeeded n h \<Longrightarrow> \<not> polls_failed k h"
  by (auto simp: poll_succeeded_def polls_failed_def last_replicate)

lemma measure_spin_outcome:
  "\<exists>new. final (measure_spin env n) s = s\<lparr>calls := calls s @ new\<rparr> \<and>
     (if result (measure_spin env n) s = 0 then polls_failed n new else poll_succeeded n new)"
proof (induction n arbitrary: s)
  case 0
  show ?case by (intro exI [of _ "[]"]) (simp add: polls_failed_def)
next
  case (Suc n)
  let ?c = "Clk Cy_SysClk_ClkMeasurementCountersDone"
  let ?s = "s\<lparr>calls := calls s @ [(?c, env (calls s) ?c)]\<rparr>"
  show ?case
  proof (cases "env (calls s) ?c = 0")
    case True
    obtain new where "final (measure_spin env n) ?s = ?s\<lparr>calls := calls ?s @ new\<rparr>"
      "if result (measure_spin env n) ?s = 0 then polls_failed n new else poll_succeeded n new"
      using Suc.IH by blast
    with True show ?thesis
      by (intro exI [of _ "(?c, 0) # new"]) (auto simp: poll_succeeded_Cons polls_failed_def)
  next
    case False
    then show ?thesis
      by (intro exI [of _ "[(?c, env (calls s) ?c)]"]) (simp add: poll_succeeded_def polls_failed_def)
  qed
qed

text \<open>The AN237976 ceiling of the CM33 clock in each mode, as the comments of the code give it.\<close>

fun ceiling_mhz :: "pm_mode_t \<Rightarrow> nat" where
  "ceiling_mhz PM_MODE_HP = 200"
| "ceiling_mhz PM_MODE_LP = 80"
| "ceiling_mhz PM_MODE_ULP = 50"
| "ceiling_mhz (PM_MODE_OTHER n) = 0"

section \<open>The strategy contract\<close>

text \<open>Programs that may change other variables but keep the mode, and make only calls in \<open>C\<close>.\<close>

definition confined :: "(soc_call \<Rightarrow> bool) \<Rightarrow> ('z soc_scheme, 'a) state \<Rightarrow> bool" where
  "confined C m \<longleftrightarrow> (\<forall>s. s_current_mode (final m s) = s_current_mode s \<and>
     s_prevent_idle (final m s) = s_prevent_idle s \<and>
     (\<exists>new. calls (final m s) = calls s @ new \<and> list_all (C \<circ> fst) new))"

named_theorems confined_intros "programs that keep the mode"

lemma confined_quiet: "quiet C m \<Longrightarrow> confined C m"
  unfolding confined_def
proof
  fix s assume "quiet C m"
  then obtain new where "final m s = s\<lparr>calls := calls s @ new\<rparr>" "list_all (C \<circ> fst) new"
    by (rule quietE)
  then show "s_current_mode (final m s) = s_current_mode s \<and> s_prevent_idle (final m s) = s_prevent_idle s \<and>
     (\<exists>new. calls (final m s) = calls s @ new \<and> list_all (C \<circ> fst) new)" by auto
qed

lemmas confined_io [confined_intros] =
  confined_quiet [OF quiet_return] confined_quiet [OF quiet_ask] confined_quiet [OF quiet_tell]
  confined_quiet [OF quiet_gets]

lemma confined_modify [confined_intros]:
  "(\<And>s. s_current_mode (f s) = s_current_mode s \<and> s_prevent_idle (f s) = s_prevent_idle s \<and>
     calls (f s) = calls s) \<Longrightarrow> confined C (modify f)"
  by (auto simp: confined_def)

lemma confined_if [confined_intros]: "confined C m \<Longrightarrow> confined C n \<Longrightarrow> confined C (if b then m else n)"
  by simp

lemma confined_bind [confined_intros]:
  assumes m: "confined C m" and f: "\<And>x. confined C (f x)"
  shows "confined C (m \<bind> f)"
  unfolding confined_def
proof
  fix s
  obtain new where 1: "s_current_mode (final m s) = s_current_mode s"
    "s_prevent_idle (final m s) = s_prevent_idle s" "calls (final m s) = calls s @ new" "list_all (C \<circ> fst) new"
    using m unfolding confined_def by blast
  obtain new' where 2: "s_current_mode (final (f (result m s)) (final m s)) = s_current_mode (final m s)"
    "s_prevent_idle (final (f (result m s)) (final m s)) = s_prevent_idle (final m s)"
    "calls (final (f (result m s)) (final m s)) = calls (final m s) @ new'" "list_all (C \<circ> fst) new'"
    using f unfolding confined_def by blast
  from 1 2 show "s_current_mode (final (m \<bind> f) s) = s_current_mode s \<and>
      s_prevent_idle (final (m \<bind> f) s) = s_prevent_idle s \<and>
      (\<exists>new. calls (final (m \<bind> f) s) = calls s @ new \<and> list_all (C \<circ> fst) new)"
    by (auto simp: split_beta)
qed

lemma confined_obind [confined_intros]:
  "confined C m \<Longrightarrow> (\<And>x. confined C (f x)) \<Longrightarrow> confined C (obind m f)"
  unfolding obind_def by (rule confined_bind) (simp_all add: confined_io split: option.split)

lemma confined_mono: "confined C m \<Longrightarrow> (\<And>c. C c \<Longrightarrow> D c) \<Longrightarrow> confined D m"
  unfolding confined_def list_all_iff by fastforce

lemma confined_log [confined_intros]:
  "confined C (pm_phase_log_reset l)" "confined C (pm_phase_log_record n c)"
  unfolding pm_phase_log_reset_def pm_phase_log_record_def by (intro confined_intros; simp)+

lemma confined_enter:
  assumes "\<And>c. benign c \<Longrightarrow> C c" and "\<And>m. confined C (Cy_SysPm_SystemEnter P m)"
  shows "confined C (pm_syspm_enter env fuel P m)"
proof -
  have "confined C (TRACE env fuel x)" for x
    by (rule confined_mono [OF confined_quiet [OF quiet_TRACE] assms(1)])
  then show ?thesis using assms(2) by (cases m) (auto intro!: confined_intros)
qed

text \<open>The calls of one switch: the pulse on the pm-busy pin encloses those of the strategy alone.\<close>

definition pulse_begin :: "soc_env \<Rightarrow> (soc_call \<times> u32) list \<Rightarrow> (soc_call \<times> u32) list" where
  "pulse_begin env h =
     (let h1 = h @ [(Cpu k_cycle_get_32, env h (Cpu k_cycle_get_32))];
          b = Gpio (gpio_pin_set_dt pm_busy 1)
      in h1 @ [(b, env h1 b)])"

text \<open>
  What \<open>pm_switch_to\<close> needs of a strategy: a transition does not touch the current mode or
  the pins, the initialisation does not touch the pins or any variable, and the two status
  functions only print.
\<close>

locale pm_strategy =
  fixes strat :: "'z strategy"
  assumes transition_confined: "confined (\<lambda>c. \<not> sets_pin c) (pm_strategy_transition strat a b)"
    and init_quiet: "quiet (\<lambda>c. \<not> sets_pin c) (pm_strategy_init strat)"
    and probe_quiet: "quiet benign (pm_strategy_probe_status strat)"
    and print_quiet: "quiet benign (pm_strategy_print_last_phases strat)"
begin

lemma transition_keeps_mode:
  "s_current_mode (final (pm_strategy_transition strat a b) s) = s_current_mode s"
  using transition_confined by (auto simp: confined_def)

lemma transition_keeps_idle:
  "s_prevent_idle (final (pm_strategy_transition strat a b) s) = s_prevent_idle s"
  using transition_confined by (auto simp: confined_def)

lemma switch_done_run:
  obtains new r where "run_state (pm_switch_done env fuel strat source target cyc) s =
      (r, s\<lparr>s_current_mode := target, calls := calls s @ new\<rparr>)"
    and "list_all (benign \<circ> fst) new" and "r = None \<or> r = Some 0"
proof -
  let ?rest = "do {
     tell env (Clk SystemCoreClockUpdate);
     obind (if pm_strategy_needs_uart_retune strat
            then obind (diag_trace_flush env fuel) (\<lambda>_. do {
              pm_reconfigure_console_uart env;
              return (Some ())
            })
            else return (Some ())) (\<lambda>_. do {
     tell env (Out (printk ''[pm] transition %s -> %s : %u cycles''
       [Str (pm_mode_name strat source), Str (pm_mode_name strat target), Num cyc]));
     pm_strategy_print_last_phases strat;
     obind (TRACE env fuel ''switch:complete'') (\<lambda>_. do {
     pm_clock_probe env strat;
     return (Some (0::int))
     })})
   }"
  have q: "quiet benign ?rest"
    by (intro quiet_intros quiet_flush_benign print_quiet quiet_clock_probe probe_quiet) simp_all
  let ?s = "s\<lparr>s_current_mode := target\<rparr>"
  obtain new where 1: "final ?rest ?s = ?s\<lparr>calls := calls ?s @ new\<rparr>"
    and 2: "list_all (benign \<circ> fst) new"
    using quietE [OF q] .
  have run: "run_state (pm_switch_done env fuel strat source target cyc) s = run_state ?rest ?s"
    by (simp add: pm_switch_done_def)
  have "result ?rest ?s = None \<or> result ?rest ?s = Some 0"
    by (auto simp: run_obind split: prod.split option.split)
  with 1 2 show ?thesis
    by (intro that [of "result ?rest ?s" new]) (simp_all only: run prod_eq_iff fst_conv snd_conv, simp_all)
qed

lemma switch_to_run:
  assumes "target \<noteq> s_current_mode s" and "valid_mode target"
  shows "let s1 = s\<lparr>calls := pulse_begin env (calls s)\<rparr>;
      (r, t) = run_state (pm_strategy_transition strat (s_current_mode s) target) s1
    in case r of None \<Rightarrow> run_state (pm_switch_to env fuel strat target) s = (None, t)
       | Some rc \<Rightarrow> \<exists>new r' x y. run_state (pm_switch_to env fuel strat target) s =
           (r', t\<lparr>s_current_mode := if rc = 0 then target else s_current_mode s,
              calls := calls t @ (Gpio (gpio_pin_set_dt pm_busy 0), x) # (Cpu k_cycle_get_32, y) # new\<rparr>) \<and>
           list_all (benign \<circ> fst) new \<and> (r' = None \<or> r' = Some rc)"
proof -
  let ?s1 = "s\<lparr>calls := pulse_begin env (calls s)\<rparr>"
  obtain r t where tr: "run_state (pm_strategy_transition strat (s_current_mode s) target) ?s1 = (r, t)"
    by (cases "run_state (pm_strategy_transition strat (s_current_mode s) target) ?s1") auto
  have mode: "s_current_mode t = s_current_mode s"
    using transition_keeps_mode [of "s_current_mode s" target ?s1] tr by simp
  have v: "target = PM_MODE_HP \<or> target = PM_MODE_LP \<or> target = PM_MODE_ULP"
    using assms(2) by (cases target) auto
  let ?e = "(Gpio (gpio_pin_set_dt pm_busy 0), env (calls t) (Gpio (gpio_pin_set_dt pm_busy 0)))"
  let ?t1 = "t\<lparr>calls := calls t @ [?e]\<rparr>"
  let ?t2 = "t\<lparr>calls := calls t @ [?e, (Cpu k_cycle_get_32, env (calls ?t1) (Cpu k_cycle_get_32))]\<rparr>"
  let ?cyc = "env (calls ?t1) (Cpu k_cycle_get_32) - env (calls s) (Cpu k_cycle_get_32)"
  have run: "run_state (pm_switch_to env fuel strat target) s = (case r of None \<Rightarrow> (None, t)
     | Some rc \<Rightarrow> if rc \<noteq> 0 then run_state (obind (TRACE env fuel ''switch:FAIL'') (\<lambda>_. return (Some rc))) ?t2
         else run_state (pm_switch_done env fuel strat (s_current_mode s) target ?cyc) ?t2)"
    using assms v tr
    by (auto simp: pm_switch_to_def gpio_indicators_transition_begin_def
        gpio_indicators_transition_end_def run_obind pulse_begin_def Let_def split: option.split)
  show ?thesis
  proof (cases r)
    case None
    with run tr show ?thesis by simp
  next
    case (Some rc)
    show ?thesis
    proof (cases "rc = 0")
      case True
      obtain new r' where "run_state (pm_switch_done env fuel strat (s_current_mode s) target ?cyc) ?t2 =
          (r', ?t2\<lparr>s_current_mode := target, calls := calls ?t2 @ new\<rparr>)"
        "list_all (benign \<circ> fst) new" "r' = None \<or> r' = Some 0"
        by (rule switch_done_run)
      with True Some run tr show ?thesis by auto
    next
      case False
      let ?f = "obind (TRACE env fuel ''switch:FAIL'') (\<lambda>_. return (Some rc))"
      have q: "quiet benign ?f" by (intro quiet_intros)
      obtain new where 1: "final ?f ?t2 = ?t2\<lparr>calls := calls ?t2 @ new\<rparr>" "list_all (benign \<circ> fst) new"
        using quietE [OF q] .
      have 2: "result ?f ?t2 = None \<or> result ?f ?t2 = Some rc"
        by (auto simp: run_obind split: prod.split option.split)
      have "run_state ?f ?t2 = (result ?f ?t2, t\<lparr>s_current_mode := s_current_mode s,
          calls := calls t @ ?e # (Cpu k_cycle_get_32, env (calls ?t1) (Cpu k_cycle_get_32)) # new\<rparr>)"
        using 1(1) mode by (simp add: prod_eq_iff)
      with 1 2 run False Some tr show ?thesis by auto
    qed
  qed
qed

end

text \<open>
  A strategy that also keeps the hardware in step with the mode: \<open>agrees m h\<close> reads off the
  calls that the hardware was brought to mode \<open>m\<close>, \<open>safe h\<close> that it never left its
  envelope. A failed transition must leave the hardware in the source mode.
\<close>

locale pm_strategy_rollback = pm_strategy strat for strat :: "'z strategy" +
  fixes agrees :: "pm_mode_t \<Rightarrow> (soc_call \<times> u32) list \<Rightarrow> bool"
    and safe :: "(soc_call \<times> u32) list \<Rightarrow> bool"
  assumes agrees_safe: "agrees m h \<Longrightarrow> safe h"
    and agrees_benign: "agrees m h \<Longrightarrow> list_all (benign \<circ> fst) new \<Longrightarrow> agrees m (h @ new)"
    and agrees_pin: "agrees m h \<Longrightarrow> agrees m (h @ [(Gpio g, x)])"
    and transition_agrees: "valid_mode a \<Longrightarrow> valid_mode b \<Longrightarrow> a \<noteq> b \<Longrightarrow> agrees a (calls s) \<Longrightarrow>
      run_state (pm_strategy_transition strat a b) s = (r, t) \<Longrightarrow>
      (case r of None \<Rightarrow> safe (calls t) | Some rc \<Rightarrow> agrees (if rc = 0 then b else a) (calls t))"
begin

lemma pulse_agrees: "agrees m h \<Longrightarrow> agrees m (pulse_begin env h)"
  by (auto simp: pulse_begin_def Let_def intro!: agrees_pin agrees_benign
      simp del: append_assoc append.simps)

lemma switch_to_agrees:
  assumes "valid_mode (s_current_mode s)" and "agrees (s_current_mode s) (calls s)"
    and "run_state (pm_switch_to env fuel strat target) s = (r, t)"
  shows "valid_mode (s_current_mode t) \<and> safe (calls t) \<and>
    (r \<noteq> None \<longrightarrow> agrees (s_current_mode t) (calls t))"
proof (cases "target = s_current_mode s \<or> \<not> valid_mode target")
  case True
  then have "t = s" using assms(3) by (cases target) (auto simp: pm_switch_to_def split: if_splits)
  with assms agrees_safe show ?thesis by blast
next
  case False
  let ?s1 = "s\<lparr>calls := pulse_begin env (calls s)\<rparr>"
  obtain rt u where tr: "run_state (pm_strategy_transition strat (s_current_mode s) target) ?s1 = (rt, u)"
    by (cases "run_state (pm_strategy_transition strat (s_current_mode s) target) ?s1") auto
  have ag: "case rt of None \<Rightarrow> safe (calls u)
      | Some rc \<Rightarrow> agrees (if rc = 0 then target else s_current_mode s) (calls u)"
    by (rule transition_agrees [OF assms(1) _ _ _ tr]) (use False pulse_agrees [OF assms(2)] in auto)
  have mode: "s_current_mode u = s_current_mode s"
    using transition_keeps_mode [of "s_current_mode s" target ?s1] tr by simp
  show ?thesis
  proof (cases rt)
    case None
    with switch_to_run [of target s env fuel] False tr assms ag mode show ?thesis by simp
  next
    case (Some rc)
    then obtain new x y where t: "t = u\<lparr>s_current_mode := if rc = 0 then target else s_current_mode s,
          calls := calls u @ (Gpio (gpio_pin_set_dt pm_busy 0), x) # (Cpu k_cycle_get_32, y) # new\<rparr>"
      and b: "list_all (benign \<circ> fst) new"
      using switch_to_run [of target s env fuel] False tr assms(3) by auto
    let ?m = "if rc = 0 then target else s_current_mode s"
    from ag Some have "agrees ?m (calls u)" by simp
    then have "agrees ?m ((calls u @ [(Gpio (gpio_pin_set_dt pm_busy 0), x)]) @ (Cpu k_cycle_get_32, y) # new)"
      using b by (intro agrees_benign agrees_pin) simp_all
    with t False assms(1) agrees_safe show ?thesis by auto
  qed
qed

end

text \<open>Several switches one after the other, as the shell makes them.\<close>

primrec pm_switches :: "soc_env \<Rightarrow> nat \<Rightarrow> 'z strategy \<Rightarrow> pm_mode_t list \<Rightarrow> ('z, unit option) soc_prog"
  where
  "pm_switches env fuel strat [] = return (Some ())"
| "pm_switches env fuel strat (m # ms) =
     obind (pm_switch_to env fuel strat m) (\<lambda>_. pm_switches env fuel strat ms)"

context pm_strategy_rollback
begin

lemma switches_agree:
  assumes "valid_mode (s_current_mode s)" and "agrees (s_current_mode s) (calls s)"
    and "run_state (pm_switches env fuel strat ms) s = (r, t)"
  shows "valid_mode (s_current_mode t) \<and> safe (calls t) \<and>
    (r \<noteq> None \<longrightarrow> agrees (s_current_mode t) (calls t))"
  using assms
proof (induction ms arbitrary: s)
  case Nil
  then show ?case using agrees_safe by auto
next
  case (Cons m ms)
  obtain r1 s1 where 1: "run_state (pm_switch_to env fuel strat m) s = (r1, s1)"
    by (cases "run_state (pm_switch_to env fuel strat m) s") auto
  note ag = switch_to_agrees [OF Cons.prems(1,2) 1]
  show ?case
  proof (cases r1)
    case None
    with 1 ag Cons.prems(3) show ?thesis by (simp add: run_obind)
  next
    case (Some rc)
    with 1 ag Cons.prems(3) Cons.IH [of s1] show ?thesis by (simp add: run_obind)
  qed
qed

end

section \<open>Switching returns\<close>

definition returns :: "('s, 'a option) state \<Rightarrow> bool" where
  "returns m \<longleftrightarrow> (\<forall>s. result m s \<noteq> None)"

named_theorems returns_intros "programs that do not hang"

lemma returns_return [returns_intros]: "returns (return (Some x))"
  by (simp add: returns_def)

lemma returns_if [returns_intros]: "returns m \<Longrightarrow> returns n \<Longrightarrow> returns (if b then m else n)"
  by simp

lemma returns_bind [returns_intros]: "(\<And>x. returns (f x)) \<Longrightarrow> returns (m \<bind> f)"
  by (simp add: returns_def split_beta)

lemma returns_obind [returns_intros]: "returns m \<Longrightarrow> (\<And>x. returns (f x)) \<Longrightarrow> returns (obind m f)"
proof -
  assume m: "returns m" and f: "\<And>x. returns (f x)"
  have "result (obind m f) s \<noteq> None" for s
  proof -
    obtain x t where "run_state m s = (Some x, t)"
      using m unfolding returns_def by (metis not_None_eq prod.collapse)
    moreover have "result (f x) t \<noteq> None" using f unfolding returns_def by blast
    ultimately show ?thesis by (simp add: run_obind)
  qed
  then show ?thesis by (simp add: returns_def)
qed

lemma returns_TRACE: "tx_drains env n \<Longrightarrow> n \<le> fuel \<Longrightarrow> returns (TRACE env fuel msg)"
  by (simp add: returns_def TRACE_def diag_trace_returns)

lemma returns_flush: "tx_drains env n \<Longrightarrow> n \<le> fuel \<Longrightarrow> returns (diag_trace_flush env fuel)"
  by (simp add: returns_def diag_flush_returns)

lemma returns_enter:
  assumes "tx_drains env n" and "n \<le> fuel" and "\<And>m. returns (Cy_SysPm_SystemEnter P m)"
  shows "returns (pm_syspm_enter env fuel P m)"
  using assms by (cases m) (auto intro!: returns_intros returns_TRACE)

lemma returns_switch_to:
  assumes "tx_drains env n" and "n \<le> fuel" and "\<And>a b. returns (pm_strategy_transition strat a b)"
  shows "returns (pm_switch_to env fuel strat m)"
  unfolding pm_switch_to_def pm_switch_done_def
  by (intro returns_intros returns_TRACE [OF assms(1,2)] returns_flush [OF assms(1,2)] assms(3))

text \<open>A transmitter that is always idle, and hardware that reports success.\<close>

definition idle_env :: soc_env where "idle_env = (\<lambda>h c. 0)"

lemma idle_env_drains: "tx_drains idle_env 1"
  by (simp add: tx_drains_def settles_def idle_env_def tx_idle_def)

section \<open>Properties\<close>

text \<open>
  Property C23. The phase log keeps the first eight phases after a reset, in order, drops the
  rest without touching memory outside its arrays, and its total is their sum modulo 2^32.
\<close>

theorem phase_log_keeps_first_eight:
  assumes "log_ok s"
  shows "let t = final (record_all ps) (final (pm_phase_log_reset (Some label)) s) in
    log_ok t \<and> s_label t = label \<and> phase_list t = take 8 ps \<and>
    result pm_phase_log_total_cycles t = sum_list (map snd (take 8 ps))"
proof -
  let ?s = "final (pm_phase_log_reset (Some label)) s"
  let ?t = "final (record_all ps) ?s"
  have ok: "log_ok ?s" and none: "phase_list ?s = []" and lab: "s_label ?s = label"
    using assms by (simp_all add: log_ok_def phase_list_def pm_phase_log_reset_def)
  have label: "s_label (final (record_all ps) u) = s_label u" for u :: "'a soc_scheme"
    by (induction ps arbitrary: u) (simp_all add: split_beta, simp add: pm_phase_log_record_def)
  from record_all_phases [OF ok, of ps] none have t: "log_ok ?t" "phase_list ?t = take 8 ps"
    by (simp_all add: PM_PHASE_LOG_MAX_PHASES_def)
  have "take (unat (s_count ?t)) (s_cycles ?t) = map snd (take 8 ps)"
    using phase_cycles [OF t(1)] t(2) by simp
  with t label [of ?s] lab show ?thesis
    by (simp add: pm_phase_log_total_cycles_def Let_def)
qed

theorem phase_log_keeps_first_eight_witness:
  "phase_list (final (record_all [(''div'', 200), (''enter'', 14)])
     (final (pm_phase_log_reset (Some ''hp2lp'')) soc_boot)) = [(''div'', 200), (''enter'', 14)]"
  using phase_log_keeps_first_eight [OF log_ok_boot, of "[(''div'', 200), (''enter'', 14)]" "''hp2lp''"]
  by (simp add: Let_def)

text \<open>
  Property C22. A clock measurement is bounded and fails to 0. It makes no other call than the start,
  at most a million polls of the counters and one read of the result. When the counters cannot be
  started it polls nothing; when all million polls find them running it does not read the result; both
  times it returns 0. The result is read only after a poll found the counters done, the last of the
  polls and the only one that did, and then it is returned.
\<close>

theorem measure_hz_bounded:
  "\<exists>st polled freq. final (pm_measure_hz env m) s = s\<lparr>calls := calls s @
       (Clk (Cy_SysClk_StartClkMeasurementCounters PM_PROBE_REF_COUNT m), st) # polled @ freq\<rparr> \<and>
     (if st \<noteq> 0 then polled = [] \<and> freq = [] \<and> result (pm_measure_hz env m) s = 0
      else if polls_failed 1000000 polled then freq = [] \<and> result (pm_measure_hz env m) s = 0
      else poll_succeeded 1000000 polled \<and>
        freq = [(Clk Cy_SysClk_ClkMeasurementCountersGetFreq, result (pm_measure_hz env m) s)])"
proof -
  let ?c = "Clk (Cy_SysClk_StartClkMeasurementCounters PM_PROBE_REF_COUNT m)"
  let ?g = "Clk Cy_SysClk_ClkMeasurementCountersGetFreq"
  let ?s = "s\<lparr>calls := calls s @ [(?c, env (calls s) ?c)]\<rparr>"
  obtain new where f: "final (measure_spin env PM_MEAS_SAFETY_ITERS) ?s = ?s\<lparr>calls := calls ?s @ new\<rparr>"
    and new: "if result (measure_spin env PM_MEAS_SAFETY_ITERS) ?s = 0 then polls_failed PM_MEAS_SAFETY_ITERS new
      else poll_succeeded PM_MEAS_SAFETY_ITERS new"
    using measure_spin_outcome by blast
  note iters = PM_MEAS_SAFETY_ITERS_def [symmetric]
  consider (refused) "env (calls s) ?c \<noteq> 0"
    | (timeout) "env (calls s) ?c = 0" "result (measure_spin env PM_MEAS_SAFETY_ITERS) ?s = 0"
    | (read) "env (calls s) ?c = 0" "result (measure_spin env PM_MEAS_SAFETY_ITERS) ?s \<noteq> 0" by blast
  then show ?thesis
  proof cases
    case refused
    then show ?thesis
      by (intro exI [of _ "env (calls s) ?c"] exI [of _ "[]"]) (simp add: pm_measure_hz_def)
  next
    case timeout
    then show ?thesis using f new unfolding iters
      by (intro exI [of _ "0"] exI [of _ new] exI [of _ "[]"]) (simp add: pm_measure_hz_def split_beta)
  next
    case read
    have "poll_succeeded PM_MEAS_SAFETY_ITERS new" using new read(2) by simp
    with polls_exclusive [OF this] show ?thesis using f read unfolding iters
      by (intro exI [of _ "0"] exI [of _ new] exI [of _ "[(?g, env (calls s @ (?c, 0) # new) ?g)]"])
        (simp add: pm_measure_hz_def split_beta)
  qed
qed

end
