(* ===== verification/Pm_Pll.thy ===== *)
theory Pm_Pll
  imports Pm_Core
begin

text \<open>
  The PLL-retune strategy (\<open>power_manager_pll_retune.c\<close>), the alternative the build can select:
  DPLL_LP0 is reprogrammed by SysPm callbacks around the voltage step. The PDL's
  \<open>Cy_SysPm_SystemEnter*\<close> is a parameter that gets the callback registered for its mode; what
  the lemmas use of it is the documented phase order, \<open>documented_enter\<close>. The lemmas show the
  order of the calls and the console contract, where the intermediate frequency leaves the
  envelope of the source mode, and what a failed switch leaves behind.
\<close>

section \<open>State\<close>

record pll_soc = soc +
  s_last_pll_target_hz :: u32
  s_last_pll_configure_st :: u32
  s_last_pll_enable_st :: u32
  s_before_end_cyc :: u32
  s_after_start_cyc :: u32

type_synonym pll_ext = "unit pll_soc_ext"

definition PM_PLL_ENABLE_NOT_REACHED :: u32 where "PM_PLL_ENABLE_NOT_REACHED = 0xFFFFFFFF"

definition DPLL_INPUT_FREQ_HZ :: u32 where "DPLL_INPUT_FREQ_HZ = 50000000"

definition DPLL_ENABLE_TIMEOUT_MS :: u32 where "DPLL_ENABLE_TIMEOUT_MS = 10000"

definition DPLL_FREQ_HP_HZ :: u32 where "DPLL_FREQ_HP_HZ = 200000000"
definition DPLL_FREQ_LP_HZ :: u32 where "DPLL_FREQ_LP_HZ = 80000000"
definition DPLL_FREQ_ULP_HZ :: u32 where "DPLL_FREQ_ULP_HZ = 50000000"
definition DPLL_FREQ_INTERMEDIATE_LP_HZ :: u32 where "DPLL_FREQ_INTERMEDIATE_LP_HZ = 75000000"
definition DPLL_FREQ_INTERMEDIATE_ULP_HZ :: u32 where "DPLL_FREQ_INTERMEDIATE_ULP_HZ = 41000000"

definition pll_boot :: pll_soc where
  "pll_boot = soc.extend soc_boot
     \<lparr>s_last_pll_target_hz = 0, s_last_pll_configure_st = 0,
      s_last_pll_enable_st = PM_PLL_ENABLE_NOT_REACHED, s_before_end_cyc = 0, s_after_start_cyc = 0\<rparr>"

section \<open>Reprogramming the PLL\<close>

definition pm_pll_reconfigure :: "soc_env \<Rightarrow> nat \<Rightarrow> u32 \<Rightarrow> u32 \<Rightarrow> (pll_ext, u32 option) soc_prog" where
  "pm_pll_reconfigure env fuel fail freq_hz =
     obind (diag_trace_flush env fuel) (\<lambda>_. do {
       tell env (Clk Cy_SysClk_PllDisable);
       st \<leftarrow> ask env (Clk (Cy_SysClk_PllConfigure DPLL_INPUT_FREQ_HZ freq_hz));
       if st \<noteq> 0 then do {
         modify (\<lambda>s. s\<lparr>s_last_pll_target_hz := freq_hz, s_last_pll_configure_st := st,
           s_last_pll_enable_st := PM_PLL_ENABLE_NOT_REACHED\<rparr>);
         return (Some fail)
       }
       else do {
         st2 \<leftarrow> ask env (Clk (Cy_SysClk_PllEnable DPLL_ENABLE_TIMEOUT_MS));
         modify (\<lambda>s. s\<lparr>s_last_pll_target_hz := freq_hz, s_last_pll_configure_st := 0,
           s_last_pll_enable_st := st2\<rparr>);
         return (Some (if st2 = 0 then 0 else fail))
       }
     })"

section \<open>The SysPm callbacks\<close>

datatype syspm_callback_mode =
  CY_SYSPM_CHECK_READY | CY_SYSPM_CHECK_FAIL | CY_SYSPM_BEFORE_TRANSITION | CY_SYSPM_AFTER_TRANSITION

definition cb_before :: "soc_env \<Rightarrow> nat \<Rightarrow> u32 \<Rightarrow> u32 \<Rightarrow> (pll_ext, u32 option) soc_prog" where
  "cb_before env fuel fail freq = obind (pm_pll_reconfigure env fuel fail freq) (\<lambda>st. do {
     t \<leftarrow> ask env (Cpu k_cycle_get_32);
     modify (s_before_end_cyc_update (\<lambda>_. t));
     return (Some st)
   })"

definition cb_after :: "soc_env \<Rightarrow> nat \<Rightarrow> u32 \<Rightarrow> vmode \<Rightarrow> u32 \<Rightarrow> (pll_ext, u32 option) soc_prog" where
  "cb_after env fuel fail rram freq = do {
     t \<leftarrow> ask env (Cpu k_cycle_get_32);
     modify (s_after_start_cyc_update (\<lambda>_. t));
     tell env (Pm (Cy_RRAM_SetVoltageMode rram));
     pm_pll_reconfigure env fuel fail freq
   }"

fun pm_syspm_hp_cb :: "soc_env \<Rightarrow> nat \<Rightarrow> u32 \<Rightarrow> syspm_callback_mode \<Rightarrow> (pll_ext, u32 option) soc_prog"
  where
  "pm_syspm_hp_cb env fuel fail CY_SYSPM_BEFORE_TRANSITION =
     cb_before env fuel fail DPLL_FREQ_INTERMEDIATE_LP_HZ"
| "pm_syspm_hp_cb env fuel fail CY_SYSPM_AFTER_TRANSITION =
     cb_after env fuel fail CY_RRAM_VMODE_HP DPLL_FREQ_HP_HZ"
| "pm_syspm_hp_cb env fuel fail _ = return (Some 0)"

fun pm_syspm_lp_cb :: "soc_env \<Rightarrow> nat \<Rightarrow> u32 \<Rightarrow> syspm_callback_mode \<Rightarrow> (pll_ext, u32 option) soc_prog"
  where
  "pm_syspm_lp_cb env fuel fail CY_SYSPM_BEFORE_TRANSITION = do {
     ulp \<leftarrow> ask env (Pm Cy_SysPm_IsSystemUlp);
     cb_before env fuel fail
       (if ulp \<noteq> 0 then DPLL_FREQ_INTERMEDIATE_ULP_HZ else DPLL_FREQ_INTERMEDIATE_LP_HZ)
   }"
| "pm_syspm_lp_cb env fuel fail CY_SYSPM_AFTER_TRANSITION =
     cb_after env fuel fail CY_RRAM_VMODE_LP DPLL_FREQ_LP_HZ"
| "pm_syspm_lp_cb env fuel fail _ = return (Some 0)"

fun pm_syspm_ulp_cb :: "soc_env \<Rightarrow> nat \<Rightarrow> u32 \<Rightarrow> syspm_callback_mode \<Rightarrow> (pll_ext, u32 option) soc_prog"
  where
  "pm_syspm_ulp_cb env fuel fail CY_SYSPM_BEFORE_TRANSITION =
     cb_before env fuel fail DPLL_FREQ_INTERMEDIATE_ULP_HZ"
| "pm_syspm_ulp_cb env fuel fail CY_SYSPM_AFTER_TRANSITION =
     cb_after env fuel fail CY_RRAM_VMODE_ULP DPLL_FREQ_ULP_HZ"
| "pm_syspm_ulp_cb env fuel fail _ = return (Some 0)"

text \<open>The callback that \<open>pm_strategy_init\<close> registers for each mode.\<close>

fun registered_cb :: "soc_env \<Rightarrow> nat \<Rightarrow> u32 \<Rightarrow> pm_mode_t \<Rightarrow> syspm_callback_mode \<Rightarrow>
    (pll_ext, u32 option) soc_prog" where
  "registered_cb env fuel fail PM_MODE_HP = pm_syspm_hp_cb env fuel fail"
| "registered_cb env fuel fail PM_MODE_LP = pm_syspm_lp_cb env fuel fail"
| "registered_cb env fuel fail PM_MODE_ULP = pm_syspm_ulp_cb env fuel fail"
| "registered_cb env fuel fail (PM_MODE_OTHER n) = (\<lambda>_. return (Some 0))"

type_synonym enter_fun =
  "pm_mode_t \<Rightarrow> (syspm_callback_mode \<Rightarrow> (pll_ext, u32 option) soc_prog) \<Rightarrow> (pll_ext, u32 option) soc_prog"

definition pll_pdl :: "soc_env \<Rightarrow> nat \<Rightarrow> u32 \<Rightarrow> enter_fun \<Rightarrow> pll_ext pdl" where
  "pll_pdl env fuel fail enter =
     \<lparr>CY_SYSPM_FAIL = fail,
      Cy_SysPm_SystemEnter = (\<lambda>m. enter m (registered_cb env fuel fail m))\<rparr>"

section \<open>The strategy interface\<close>

definition pll_init :: "soc_env \<Rightarrow> (pll_ext, unit) soc_prog" where
  "pll_init env = do {
     tell env (Pm (Cy_SysPm_RegisterCallback PM_MODE_HP));
     tell env (Pm (Cy_SysPm_RegisterCallback PM_MODE_LP));
     tell env (Pm (Cy_SysPm_RegisterCallback PM_MODE_ULP))
   }"

definition labels :: "string list list" where
  "labels =
     [[''ulp2ulp'', ''ulp2lp'', ''ulp2hp''],
      [''lp2ulp'', ''lp2lp'', ''lp2hp''],
      [''hp2ulp'', ''hp2lp'', ''hp2hp'']]"

definition pll_transition ::
  "soc_env \<Rightarrow> nat \<Rightarrow> pll_ext pdl \<Rightarrow> pm_mode_t \<Rightarrow> pm_mode_t \<Rightarrow> (pll_ext, int option) soc_prog" where
  "pll_transition env fuel P source target = do {
     pm_phase_log_reset (Some (labels ! unat (mode_code source) ! unat (mode_code target)));
     modify (\<lambda>s. s\<lparr>s_before_end_cyc := 0, s_after_start_cyc := 0\<rparr>);
     t_enter_start \<leftarrow> ask env (Cpu k_cycle_get_32);
     obind (pm_syspm_enter env fuel P target) (\<lambda>st. do {
     t_enter_end \<leftarrow> ask env (Cpu k_cycle_get_32);
     if st \<noteq> 0 then do {
       tell env (Out (printk ''[pm] SystemEnter* failed (%d)'' [Num st]));
       return (Some (- EIO))
     }
     else do {
       modify (\<lambda>s. if s_before_end_cyc s = 0 then s\<lparr>s_before_end_cyc := t_enter_start\<rparr> else s);
       modify (\<lambda>s. if s_after_start_cyc s = 0 then s\<lparr>s_after_start_cyc := t_enter_end\<rparr> else s);
       b \<leftarrow> gets s_before_end_cyc;
       a \<leftarrow> gets s_after_start_cyc;
       pm_phase_log_record (Some ''pll_pre'') (b - t_enter_start);
       pm_phase_log_record (Some ''volt'') (a - b);
       pm_phase_log_record (Some ''pll_post'') (t_enter_end - a);
       return (Some 0)
     }})
   }"

fun pll_mode_name :: "pm_mode_t \<Rightarrow> string" where
  "pll_mode_name PM_MODE_HP = ''HP  (200 MHz)''"
| "pll_mode_name PM_MODE_LP = ''LP  ( 80 MHz)''"
| "pll_mode_name PM_MODE_ULP = ''ULP ( 50 MHz)''"
| "pll_mode_name (PM_MODE_OTHER n) = ''UNKNOWN''"

definition pll_probe_status :: "soc_env \<Rightarrow> (pll_ext, unit) soc_prog" where
  "pll_probe_status env = do {
     hz \<leftarrow> gets s_last_pll_target_hz;
     if hz = 0 then tell env (Out (printk ''[pll] no retune since boot (cybsp/board default)'' []))
     else do {
       c \<leftarrow> gets s_last_pll_configure_st;
       e \<leftarrow> gets s_last_pll_enable_st;
       tell env (Out (printk ''[pll] last target=%u Hz  Configure=0x%08x  Enable=0x%08x''
         [Num hz, Num c, Num e]))
     }
   }"

definition pll_strategy :: "soc_env \<Rightarrow> nat \<Rightarrow> pll_ext pdl \<Rightarrow> pll_ext strategy" where
  "pll_strategy env fuel P =
     \<lparr>pm_strategy_init = pll_init env,
      pm_strategy_transition = pll_transition env fuel P,
      pm_strategy_mode_name = pll_mode_name,
      pm_strategy_probe_status = pll_probe_status env,
      pm_strategy_needs_uart_retune = True,
      pm_strategy_print_last_phases = pm_phase_log_print env\<rparr>"

section \<open>The documented order of the PDL\<close>

text \<open>
  \<open>Cy_SysPm_SystemEnter*\<close>: the callbacks in their CHECK_READY phase, then BEFORE, the voltage
  step, AFTER; its status is that of the voltage step. The PDL is not under \<open>src/\<close>: that AFTER is also
  run when the step itself fails is its implementation, not a statement of the repository, and what
  the theorems say of failed switches rests on it.
\<close>

definition documented_enter :: "soc_env \<Rightarrow> u32 \<Rightarrow> enter_fun" where
  "documented_enter env fail m cb =
     obind (cb CY_SYSPM_CHECK_READY) (\<lambda>ready.
       if ready \<noteq> 0 then return (Some fail)
       else obind (cb CY_SYSPM_BEFORE_TRANSITION) (\<lambda>_. do {
         st \<leftarrow> ask env (Pm (enter_call m));
         obind (cb CY_SYSPM_AFTER_TRANSITION) (\<lambda>_. return (Some st))
       }))"

section \<open>The contract holds\<close>

lemma confined_reconfigure: "confined (\<lambda>c. \<not> sets_pin c) (pm_pll_reconfigure env fuel fail f)"
  unfolding pm_pll_reconfigure_def
  by (intro confined_intros confined_quiet [OF quiet_mono [OF quiet_flush_benign benign_no_pin]]) simp_all

lemma confined_cb: "confined (\<lambda>c. \<not> sets_pin c) (registered_cb env fuel fail m p)"
proof -
  have b: "confined (\<lambda>c. \<not> sets_pin c) (cb_before env fuel fail f)" for f
    unfolding cb_before_def by (intro confined_intros confined_reconfigure) simp_all
  have a: "confined (\<lambda>c. \<not> sets_pin c) (cb_after env fuel fail v f)" for v f
    unfolding cb_after_def by (intro confined_intros confined_reconfigure) simp_all
  show ?thesis
    by (cases m; cases p) (auto simp: a b intro!: confined_intros)
qed

text \<open>A PDL that only runs the callback and makes calls of its own, none on a pin.\<close>

definition well_behaved :: "enter_fun \<Rightarrow> bool" where
  "well_behaved enter \<longleftrightarrow> (\<forall>m cb. (\<forall>p. confined (\<lambda>c. \<not> sets_pin c) (cb p)) \<longrightarrow>
     confined (\<lambda>c. \<not> sets_pin c) (enter m cb))"

lemma documented_well_behaved: "well_behaved (documented_enter env fail)"
  unfolding well_behaved_def documented_enter_def
  by (intro allI impI confined_intros) auto

interpretation pll: pm_strategy "pll_strategy penv pfuel (pll_pdl penv pfuel fail (documented_enter denv dfail))"
  for penv pfuel fail denv dfail
proof
  fix a b
  have e: "confined (\<lambda>c. \<not> sets_pin c)
      (pm_syspm_enter penv pfuel (pll_pdl penv pfuel fail (documented_enter denv dfail)) m)" for m
  proof (rule confined_enter)
    show "confined (\<lambda>c. \<not> sets_pin c)
        (Cy_SysPm_SystemEnter (pll_pdl penv pfuel fail (documented_enter denv dfail)) k)" for k
      using documented_well_behaved [of denv dfail] confined_cb
      by (simp add: pll_pdl_def well_behaved_def)
  qed (rule benign_no_pin)
  show "confined (\<lambda>c. \<not> sets_pin c) (pm_strategy_transition
      (pll_strategy penv pfuel (pll_pdl penv pfuel fail (documented_enter denv dfail))) a b)"
    unfolding pll_strategy_def strategy.simps pll_transition_def
    by (intro confined_intros e) simp_all
qed (auto simp: pll_strategy_def quiet_phase_log_print pll_probe_status_def pll_init_def intro!: quiet_intros)

section \<open>The calls of a transition\<close>

lemma obind_SomeD:
  assumes "run_state (obind m f) s = (Some y, t)"
  obtains x u where "run_state m s = (Some x, u)" and "run_state (f x) u = (Some y, t)"
  using assms by (auto simp: run_obind split: prod.splits option.splits)

definition status_reads :: "(soc_call \<times> u32) list \<Rightarrow> bool" where
  "status_reads new \<longleftrightarrow> list_all (\<lambda>e. fst e = Rd SCB2_TX_FIFO_STATUS) new"

text \<open>One reprogramming: a drained console, then disable, configure and, if that succeeded, enable.\<close>

definition reprogrammed :: "u32 \<Rightarrow> (soc_call \<times> u32) list \<Rightarrow> bool" where
  "reprogrammed f new \<longleftrightarrow> (\<exists>pre a b e. status_reads pre \<and>
     new = pre @ [(Clk Cy_SysClk_PllDisable, a), (Clk (Cy_SysClk_PllConfigure DPLL_INPUT_FREQ_HZ f), b)] @
       (if b = 0 then [(Clk (Cy_SysClk_PllEnable DPLL_ENABLE_TIMEOUT_MS), e)] else []))"

lemma run_flush:
  assumes "run_state (diag_trace_flush env fuel) s = (Some u, t)"
  shows "\<exists>pre. t = s\<lparr>calls := calls s @ pre\<rparr> \<and> status_reads pre"
proof -
  obtain vs where "run_state (diag_trace_flush env fuel) s =
      (if vs \<noteq> [] \<and> tx_idle (last vs) then Some () else None,
       s\<lparr>calls := calls s @ map (Pair (Rd SCB2_TX_FIFO_STATUS)) vs\<rparr>)"
    unfolding diag_trace_flush_def by (rule run_spin)
  with assms show ?thesis
    by (intro exI [of _ "map (Pair (Rd SCB2_TX_FIFO_STATUS)) vs"])
      (simp add: status_reads_def list_all_iff split: if_splits)
qed

lemma reconfigure_calls:
  assumes "run_state (pm_pll_reconfigure env fuel fail f) s = (Some st, t)"
  shows "\<exists>new. calls t = calls s @ new \<and> reprogrammed f new"
proof -
  obtain u pre where flush: "run_state (diag_trace_flush env fuel) s = (Some u, s\<lparr>calls := calls s @ pre\<rparr>)"
    and pre: "status_reads pre"
    using assms unfolding pm_pll_reconfigure_def
    by (elim obind_SomeD) (frule run_flush, auto)
  let ?d = "Clk Cy_SysClk_PllDisable" and ?c = "Clk (Cy_SysClk_PllConfigure DPLL_INPUT_FREQ_HZ f)"
  let ?h1 = "(calls s @ pre) @ [(?d, env (calls s @ pre) ?d)]"
  let ?b = "env ?h1 ?c"
  show ?thesis
  proof (cases "?b = 0")
    case True
    with assms flush have "\<exists>e. calls t = calls s @ pre @ [(?d, env (calls s @ pre) ?d), (?c, ?b),
        (Clk (Cy_SysClk_PllEnable DPLL_ENABLE_TIMEOUT_MS), e)]"
      by (auto simp: pm_pll_reconfigure_def run_obind)
    then obtain e where "calls t = calls s @ pre @ [(?d, env (calls s @ pre) ?d), (?c, ?b)] @
        (if ?b = 0 then [(Clk (Cy_SysClk_PllEnable DPLL_ENABLE_TIMEOUT_MS), e)] else [])"
      using True by auto
    with pre show ?thesis unfolding reprogrammed_def by blast
  next
    case False
    with assms flush have "calls t = calls s @ pre @ [(?d, env (calls s @ pre) ?d), (?c, ?b)] @
        (if ?b = 0 then [(Clk (Cy_SysClk_PllEnable DPLL_ENABLE_TIMEOUT_MS), 0)] else [])"
      by (auto simp: pm_pll_reconfigure_def run_obind)
    with pre show ?thesis unfolding reprogrammed_def by blast
  qed
qed

lemma cb_before_calls:
  assumes "run_state (cb_before env fuel fail f) s = (Some st, t)"
  shows "\<exists>new x. calls t = calls s @ new @ [(Cpu k_cycle_get_32, x)] \<and> reprogrammed f new"
proof -
  obtain st' u where r: "run_state (pm_pll_reconfigure env fuel fail f) s = (Some st', u)"
    and k: "calls t = calls u @ [(Cpu k_cycle_get_32, env (calls u) (Cpu k_cycle_get_32))]"
    using assms unfolding cb_before_def by (elim obind_SomeD) auto
  from reconfigure_calls [OF r] k show ?thesis by auto
qed

lemma cb_after_calls:
  assumes "run_state (cb_after env fuel fail v f) s = (Some st, t)"
  shows "\<exists>new x y. calls t = calls s @ [(Cpu k_cycle_get_32, x), (Pm (Cy_RRAM_SetVoltageMode v), y)] @ new \<and>
    reprogrammed f new"
proof -
  let ?c = "Cpu k_cycle_get_32" and ?v = "Pm (Cy_RRAM_SetVoltageMode v)"
  let ?h = "calls s @ [(?c, env (calls s) ?c)]"
  let ?u = "s\<lparr>s_after_start_cyc := env (calls s) ?c, calls := ?h @ [(?v, env ?h ?v)]\<rparr>"
  have "run_state (pm_pll_reconfigure env fuel fail f) ?u = (Some st, t)"
    using assms by (simp add: cb_after_def)
  from reconfigure_calls [OF this] show ?thesis by auto
qed

fun final_freq :: "pm_mode_t \<Rightarrow> u32" where
  "final_freq PM_MODE_HP = DPLL_FREQ_HP_HZ"
| "final_freq PM_MODE_LP = DPLL_FREQ_LP_HZ"
| "final_freq _ = DPLL_FREQ_ULP_HZ"

fun mode_vmode :: "pm_mode_t \<Rightarrow> vmode" where
  "mode_vmode PM_MODE_HP = CY_RRAM_VMODE_HP"
| "mode_vmode PM_MODE_LP = CY_RRAM_VMODE_LP"
| "mode_vmode _ = CY_RRAM_VMODE_ULP"

text \<open>The intermediate frequency, when \<open>Cy_SysPm_IsSystemUlp\<close> tells the source mode.\<close>

fun intermediate :: "pm_mode_t \<Rightarrow> pm_mode_t \<Rightarrow> u32" where
  "intermediate a PM_MODE_HP = DPLL_FREQ_INTERMEDIATE_LP_HZ"
| "intermediate a PM_MODE_LP =
     (if a = PM_MODE_ULP then DPLL_FREQ_INTERMEDIATE_ULP_HZ else DPLL_FREQ_INTERMEDIATE_LP_HZ)"
| "intermediate a _ = DPLL_FREQ_INTERMEDIATE_ULP_HZ"

definition knows_mode :: "soc_env \<Rightarrow> pm_mode_t \<Rightarrow> bool" where
  "knows_mode env a \<longleftrightarrow> (\<forall>h. (env h (Pm Cy_SysPm_IsSystemUlp) \<noteq> 0) = (a = PM_MODE_ULP))"

lemma before_calls:
  assumes "valid_mode b" and "knows_mode env a"
    and "run_state (registered_cb env fuel fail b CY_SYSPM_BEFORE_TRANSITION) s = (Some st, t)"
  shows "\<exists>q new x. calls t = calls s @ q @ new @ [(Cpu k_cycle_get_32, x)] \<and>
    reprogrammed (intermediate a b) new \<and> list_all (\<lambda>e. fst e = Pm Cy_SysPm_IsSystemUlp) q"
proof (cases "b = PM_MODE_LP")
  case True
  let ?q = "Pm Cy_SysPm_IsSystemUlp"
  have "run_state (cb_before env fuel fail (intermediate a b))
      (s\<lparr>calls := calls s @ [(?q, env (calls s) ?q)]\<rparr>) = (Some st, t)"
    using assms True by (simp add: knows_mode_def)
  from cb_before_calls [OF this] obtain new x where
    "calls t = calls s @ [(?q, env (calls s) ?q)] @ new @ [(Cpu k_cycle_get_32, x)]"
    "reprogrammed (intermediate a b) new" by auto
  moreover have "list_all (\<lambda>e. fst e = Pm Cy_SysPm_IsSystemUlp) [(?q, env (calls s) ?q)]" by simp
  ultimately show ?thesis by blast
next
  case False
  have "run_state (cb_before env fuel fail (intermediate a b)) s = (Some st, t)"
    using assms False by (cases b) auto
  from cb_before_calls [OF this] obtain new x where
    "calls t = calls s @ [] @ new @ [(Cpu k_cycle_get_32, x)]"
    "reprogrammed (intermediate a b) new" by auto
  moreover have "list_all (\<lambda>e. fst e = Pm Cy_SysPm_IsSystemUlp) []" by simp
  ultimately show ?thesis by blast
qed

lemma after_calls:
  assumes "valid_mode b"
    and "run_state (registered_cb env fuel fail b CY_SYSPM_AFTER_TRANSITION) s = (Some st, t)"
  shows "\<exists>new x y. calls t = calls s @
      [(Cpu k_cycle_get_32, x), (Pm (Cy_RRAM_SetVoltageMode (mode_vmode b)), y)] @ new \<and>
    reprogrammed (final_freq b) new"
proof -
  have "run_state (cb_after env fuel fail (mode_vmode b) (final_freq b)) s = (Some st, t)"
    using assms by (cases b) auto
  then show ?thesis by (rule cb_after_calls)
qed

text \<open>The calls of a whole transition, by the status of its voltage step.\<close>

definition pll_shape :: "pm_mode_t \<Rightarrow> pm_mode_t \<Rightarrow> u32 \<Rightarrow> (soc_call \<times> u32) list \<Rightarrow> bool" where
  "pll_shape a b st new \<longleftrightarrow> (\<exists>c0 tr q n1 x y z n2 w out.
     new = (Cpu k_cycle_get_32, c0) # tr @ q @ n1 @ (Cpu k_cycle_get_32, x) # (Pm (enter_call b), st) #
       (Cpu k_cycle_get_32, y) # (Pm (Cy_RRAM_SetVoltageMode (mode_vmode b)), z) # n2 @
       (Cpu k_cycle_get_32, w) # out \<and>
     list_all (scb2 \<circ> fst) tr \<and> list_all (\<lambda>e. fst e = Pm Cy_SysPm_IsSystemUlp) q \<and>
     reprogrammed (intermediate a b) n1 \<and> reprogrammed (final_freq b) n2 \<and>
     map fst out = (if st = 0 then [] else [Out (printk ''[pm] SystemEnter* failed (%d)'' [Num st])]))"

abbreviation real_pdl :: "soc_env \<Rightarrow> nat \<Rightarrow> u32 \<Rightarrow> pll_ext pdl" where
  "real_pdl env fuel fail \<equiv> pll_pdl env fuel fail (documented_enter env fail)"

lemma check_ready [simp]: "registered_cb env fuel fail m CY_SYSPM_CHECK_READY = return (Some 0)"
  by (cases m) simp_all

lemma enter_calls:
  assumes b: "valid_mode b" and k: "knows_mode env a"
    and run: "run_state (documented_enter env fail b (registered_cb env fuel fail b)) s = (Some st, t)"
  shows "\<exists>q n1 x y z n2. calls t = calls s @ q @ n1 @ [(Cpu k_cycle_get_32, x), (Pm (enter_call b), st),
      (Cpu k_cycle_get_32, y), (Pm (Cy_RRAM_SetVoltageMode (mode_vmode b)), z)] @ n2 \<and>
    list_all (\<lambda>e. fst e = Pm Cy_SysPm_IsSystemUlp) q \<and>
    reprogrammed (intermediate a b) n1 \<and> reprogrammed (final_freq b) n2"
proof -
  have "run_state (obind (registered_cb env fuel fail b CY_SYSPM_BEFORE_TRANSITION) (\<lambda>_. do {
         st \<leftarrow> ask env (Pm (enter_call b));
         obind (registered_cb env fuel fail b CY_SYSPM_AFTER_TRANSITION) (\<lambda>_. return (Some st))
       })) s = (Some st, t)"
    using run by (simp add: documented_enter_def run_obind)
  then obtain st1 u where 1: "run_state (registered_cb env fuel fail b CY_SYSPM_BEFORE_TRANSITION) s = (Some st1, u)"
    and 2: "run_state (do {
         st \<leftarrow> ask env (Pm (enter_call b));
         obind (registered_cb env fuel fail b CY_SYSPM_AFTER_TRANSITION) (\<lambda>_. return (Some st))
       }) u = (Some st, t)"
    by (rule obind_SomeD)
  let ?r = "env (calls u) (Pm (enter_call b))"
  let ?u = "u\<lparr>calls := calls u @ [(Pm (enter_call b), ?r)]\<rparr>"
  have 3: "run_state (obind (registered_cb env fuel fail b CY_SYSPM_AFTER_TRANSITION)
      (\<lambda>_. return (Some ?r))) ?u = (Some st, t)"
    using 2 by simp
  then obtain st2 w where 4: "run_state (registered_cb env fuel fail b CY_SYSPM_AFTER_TRANSITION) ?u = (Some st2, w)"
    and 5: "run_state (return (Some ?r)) w = (Some st, t)"
    by (rule obind_SomeD)
  from before_calls [OF b k 1] obtain q n1 x where
    6: "calls u = calls s @ q @ n1 @ [(Cpu k_cycle_get_32, x)]" and 7: "reprogrammed (intermediate a b) n1"
    "list_all (\<lambda>e. fst e = Pm Cy_SysPm_IsSystemUlp) q" by blast
  from after_calls [OF b 4] 5 obtain n2 y z where
    8: "calls t = calls u @ [(Pm (enter_call b), st)] @
      [(Cpu k_cycle_get_32, y), (Pm (Cy_RRAM_SetVoltageMode (mode_vmode b)), z)] @ n2"
    and 9: "reprogrammed (final_freq b) n2" by auto
  have "calls t = calls s @ q @ n1 @ [(Cpu k_cycle_get_32, x), (Pm (enter_call b), st),
      (Cpu k_cycle_get_32, y), (Pm (Cy_RRAM_SetVoltageMode (mode_vmode b)), z)] @ n2"
    using 6 8 by simp
  with 7 9 show ?thesis by blast
qed

lemma syspm_enter_calls:
  assumes b: "valid_mode b" and k: "knows_mode env a"
    and run: "run_state (pm_syspm_enter env fuel (real_pdl env fuel fail) b) s = (Some st, t)"
  shows "\<exists>tr q n1 x y z n2. calls t = calls s @ tr @ q @ n1 @ [(Cpu k_cycle_get_32, x),
      (Pm (enter_call b), st), (Cpu k_cycle_get_32, y), (Pm (Cy_RRAM_SetVoltageMode (mode_vmode b)), z)] @ n2 \<and>
    list_all (scb2 \<circ> fst) tr \<and> list_all (\<lambda>e. fst e = Pm Cy_SysPm_IsSystemUlp) q \<and>
    reprogrammed (intermediate a b) n1 \<and> reprogrammed (final_freq b) n2"
proof -
  obtain msg where "run_state (obind (TRACE env fuel msg) (\<lambda>_. documented_enter env fail b
      (registered_cb env fuel fail b))) s = (Some st, t)"
    using b run by (cases b) (auto simp: pll_pdl_def)
  then obtain r u where 1: "run_state (TRACE env fuel msg) s = (Some r, u)"
    and 2: "run_state (documented_enter env fail b (registered_cb env fuel fail b)) u = (Some st, t)"
    by (rule obind_SomeD)
  obtain tr where u: "u = s\<lparr>calls := calls s @ tr\<rparr>" and tr: "list_all (scb2 \<circ> fst) tr"
    using quietE [OF quiet_diag_trace, of env fuel "Some (''<T:'' @ msg @ ''>'' @ [CHR 0x0A])" s] 1
    by (auto simp: TRACE_def)
  from enter_calls [OF b k 2] obtain q n1 x y z n2 where
    3: "calls t = calls u @ q @ n1 @ [(Cpu k_cycle_get_32, x),
      (Pm (enter_call b), st), (Cpu k_cycle_get_32, y), (Pm (Cy_RRAM_SetVoltageMode (mode_vmode b)), z)] @ n2"
    and 4: "list_all (\<lambda>e. fst e = Pm Cy_SysPm_IsSystemUlp) q"
      "reprogrammed (intermediate a b) n1" "reprogrammed (final_freq b) n2" by blast
  have "calls t = calls s @ tr @ q @ n1 @ [(Cpu k_cycle_get_32, x), (Pm (enter_call b), st),
      (Cpu k_cycle_get_32, y), (Pm (Cy_RRAM_SetVoltageMode (mode_vmode b)), z)] @ n2"
    using 3 u by simp
  with tr 4 show ?thesis by blast
qed

lemma pll_transition_calls:
  assumes b: "valid_mode b" and k: "knows_mode env a"
    and run: "run_state (pll_transition env fuel (real_pdl env fuel fail) a b) s = (Some rc, t)"
  shows "\<exists>st new. calls t = calls s @ new \<and> pll_shape a b st new \<and> rc = (if st = 0 then 0 else - EIO)"
proof -
  let ?c = "Cpu k_cycle_get_32"
  let ?lab = "labels ! unat (mode_code a) ! unat (mode_code b)"
  let ?s = "s\<lparr>s_label := ?lab, s_count := 0, s_before_end_cyc := 0, s_after_start_cyc := 0,
    calls := calls s @ [(?c, env (calls s) ?c)]\<rparr>"
  obtain st u where 1: "run_state (pm_syspm_enter env fuel (real_pdl env fuel fail) b) ?s = (Some st, u)"
    using run by (auto simp: pll_transition_def pm_phase_log_reset_def elim!: obind_SomeD)
  have 2: "rc = (if st = 0 then 0 else - EIO) \<and> (\<exists>w out. calls t = calls u @ (?c, w) # out \<and>
      map fst out = (if st = 0 then [] else [Out (printk ''[pm] SystemEnter* failed (%d)'' [Num st])]))"
    using run 1 by (auto simp: pll_transition_def pm_phase_log_reset_def pm_phase_log_record_def run_obind
        split: if_splits)
  from syspm_enter_calls [OF b k 1] obtain tr q n1 x y z n2 where
    3: "calls u = (calls s @ [(?c, env (calls s) ?c)]) @ tr @ q @ n1 @ [(?c, x), (Pm (enter_call b), st),
      (?c, y), (Pm (Cy_RRAM_SetVoltageMode (mode_vmode b)), z)] @ n2"
    and 4: "list_all (scb2 \<circ> fst) tr" "list_all (\<lambda>e. fst e = Pm Cy_SysPm_IsSystemUlp) q"
      "reprogrammed (intermediate a b) n1" "reprogrammed (final_freq b) n2"
    by (elim exE conjE) (rule that, simp_all)
  from 2 obtain w out where 5: "calls t = calls u @ (?c, w) # out"
    "map fst out = (if st = 0 then [] else [Out (printk ''[pm] SystemEnter* failed (%d)'' [Num st])])"
    by blast
  let ?new = "(?c, env (calls s) ?c) # tr @ q @ n1 @ (?c, x) # (Pm (enter_call b), st) #
       (?c, y) # (Pm (Cy_RRAM_SetVoltageMode (mode_vmode b)), z) # n2 @ (?c, w) # out"
  have "calls t = calls s @ ?new" using 3 5 by simp
  moreover have "pll_shape a b st ?new" unfolding pll_shape_def using 4 5(2) by blast
  ultimately show ?thesis using 2 by blast
qed

section \<open>Envelope\<close>

definition reprogram_calls :: "u32 \<Rightarrow> bool \<Rightarrow> soc_call list" where
  "reprogram_calls f ok =
     [Clk Cy_SysClk_PllDisable, Clk (Cy_SysClk_PllConfigure DPLL_INPUT_FREQ_HZ f)] @
     (if ok then [Clk (Cy_SysClk_PllEnable DPLL_ENABLE_TIMEOUT_MS)] else [])"

lemma status_reads_benign: "status_reads new \<Longrightarrow> list_all (benign \<circ> fst) new"
  by (simp add: status_reads_def list_all_iff)

lemma hw_reprogrammed: "reprogrammed f new \<Longrightarrow> \<exists>ok. hw_calls new = reprogram_calls f ok"
proof -
  assume "reprogrammed f new"
  then obtain pre a b e where "status_reads pre"
    "new = pre @ [(Clk Cy_SysClk_PllDisable, a), (Clk (Cy_SysClk_PllConfigure DPLL_INPUT_FREQ_HZ f), b)] @
       (if b = 0 then [(Clk (Cy_SysClk_PllEnable DPLL_ENABLE_TIMEOUT_MS), e)] else [])"
    unfolding reprogrammed_def by blast
  then have "hw_calls new = reprogram_calls f (b = 0)"
    using hw_calls_benign [OF status_reads_benign] by (simp add: reprogram_calls_def)
  then show ?thesis by blast
qed

lemma benign_lists:
  "list_all (scb2 \<circ> fst) tr \<Longrightarrow> list_all (benign \<circ> fst) tr"
  "list_all (\<lambda>e. fst e = Pm Cy_SysPm_IsSystemUlp) q \<Longrightarrow> list_all (benign \<circ> fst) q"
  by (auto simp: list_all_iff scb2_benign)

lemma hw_pll_shape:
  assumes "pll_shape a b st new"
  shows "\<exists>ok1 ok2. hw_calls new = reprogram_calls (intermediate a b) ok1 @
    [Pm (enter_call b), Pm (Cy_RRAM_SetVoltageMode (mode_vmode b))] @ reprogram_calls (final_freq b) ok2"
proof -
  obtain c0 tr q n1 x y z n2 w out where
    n: "new = (Cpu k_cycle_get_32, c0) # tr @ q @ n1 @ (Cpu k_cycle_get_32, x) # (Pm (enter_call b), st) #
       (Cpu k_cycle_get_32, y) # (Pm (Cy_RRAM_SetVoltageMode (mode_vmode b)), z) # n2 @
       (Cpu k_cycle_get_32, w) # out" "list_all (scb2 \<circ> fst) tr"
      "list_all (\<lambda>e. fst e = Pm Cy_SysPm_IsSystemUlp) q"
      "reprogrammed (intermediate a b) n1" "reprogrammed (final_freq b) n2"
      "map fst out = (if st = 0 then [] else [Out (printk ''[pm] SystemEnter* failed (%d)'' [Num st])])"
    using assms unfolding pll_shape_def by blast
  have "list_all (benign \<circ> fst) out"
    using n(6) by (cases out) (auto split: if_splits)
  moreover have "\<not> benign (Pm (enter_call b))" by (cases b) simp_all
  moreover obtain ok1 where "hw_calls n1 = reprogram_calls (intermediate a b) ok1"
    using hw_reprogrammed [OF n(4)] by blast
  moreover obtain ok2 where "hw_calls n2 = reprogram_calls (final_freq b) ok2"
    using hw_reprogrammed [OF n(5)] by blast
  ultimately have "hw_calls new = reprogram_calls (intermediate a b) ok1 @
      [Pm (enter_call b), Pm (Cy_RRAM_SetVoltageMode (mode_vmode b))] @ reprogram_calls (final_freq b) ok2"
    using n(2,3) by (simp add: n(1) hw_calls_benign benign_lists)
  then show ?thesis by blast
qed

lemma returns_pll:
  assumes "tx_drains env n" and "n \<le> fuel"
  shows "returns (pll_transition env fuel (real_pdl env fuel fail) a b)"
proof -
  have r: "returns (pm_pll_reconfigure env fuel fail f)" for f
    unfolding pm_pll_reconfigure_def by (intro returns_intros returns_flush [OF assms])
  have b: "returns (registered_cb env fuel fail m p)" for m p
    by (cases m; cases p) (auto simp: cb_before_def cb_after_def intro!: returns_intros r)
  have e: "returns (pm_syspm_enter env fuel (real_pdl env fuel fail) m)" for m
    by (rule returns_enter [OF assms])
      (simp add: pll_pdl_def documented_enter_def, intro returns_intros b)
  show ?thesis unfolding pll_transition_def by (intro returns_intros e)
qed

text \<open>
  Property C6. The PLL strategy reprograms the PLL twice around the voltage step, first to an
  intermediate frequency, and after the step sets the RRAM mode and the final frequency, with
  any PDL status. The intermediate frequency is within the ceiling of the target mode, the
  final one exactly the target's; within the ceiling of the source mode, whose voltage is
  still applied when the PLL locks, it is for every pair except ULP to HP: there the PLL
  relocks at 75 MHz while the core is at the ULP voltage, rated for 50 MHz.
\<close>

theorem pll_transition_envelope:
  assumes "valid_mode a" and "valid_mode b" and "a \<noteq> b" and "knows_mode env a"
    and "tx_drains env n" and "n \<le> fuel"
  shows "\<exists>rc t ok1 ok2 f.
    run_state (pll_transition env fuel (real_pdl env fuel fail) a b) s = (Some rc, t) \<and>
    hw_calls (calls t) = hw_calls (calls s) @ reprogram_calls f ok1 @
      [Pm (enter_call b), Pm (Cy_RRAM_SetVoltageMode (mode_vmode b))] @
      reprogram_calls (of_nat (ceiling_mhz b * 1000000)) ok2 \<and>
    unat f \<le> ceiling_mhz b * 1000000 \<and>
    (unat f \<le> ceiling_mhz a * 1000000) = (\<not> (a = PM_MODE_ULP \<and> b = PM_MODE_HP))"
proof -
  obtain rc t where run: "run_state (pll_transition env fuel (real_pdl env fuel fail) a b) s = (Some rc, t)"
    using returns_pll [OF assms(5,6), of fail a b] unfolding returns_def
    by (metis not_None_eq prod.collapse)
  from pll_transition_calls [OF assms(2,4) run] obtain st new where
    new: "calls t = calls s @ new" and shape: "pll_shape a b st new" by blast
  from hw_pll_shape [OF shape] obtain ok1 ok2 where
    hw: "hw_calls new = reprogram_calls (intermediate a b) ok1 @
      [Pm (enter_call b), Pm (Cy_RRAM_SetVoltageMode (mode_vmode b))] @ reprogram_calls (final_freq b) ok2"
    by blast
  have f: "final_freq b = of_nat (ceiling_mhz b * 1000000)"
    using assms(2) by (cases b) (simp_all add: DPLL_FREQ_HP_HZ_def DPLL_FREQ_LP_HZ_def DPLL_FREQ_ULP_HZ_def)
  have "unat (intermediate a b) \<le> ceiling_mhz b * 1000000 \<and>
    (unat (intermediate a b) \<le> ceiling_mhz a * 1000000) = (\<not> (a = PM_MODE_ULP \<and> b = PM_MODE_HP))"
    using assms(1-3) by (cases a; cases b)
      (simp_all add: DPLL_FREQ_INTERMEDIATE_LP_HZ_def DPLL_FREQ_INTERMEDIATE_ULP_HZ_def)
  with run new hw f show ?thesis by (intro exI conjI) (assumption | simp)+
qed

text \<open>Hardware that reports success, in ULP.\<close>

definition ulp_env :: soc_env where
  "ulp_env h c = (if c = Pm Cy_SysPm_IsSystemUlp \<or> c = Uart device_is_ready_console then 1 else 0)"

lemma ulp_env_drains: "tx_drains ulp_env 1"
  by (simp add: tx_drains_def settles_def ulp_env_def tx_idle_def)

lemma ulp_env_knows: "knows_mode ulp_env PM_MODE_ULP"
  by (simp add: knows_mode_def ulp_env_def)

theorem pll_transition_envelope_witness:
  "\<exists>rc t ok1 ok2 f.
    run_state (pll_transition ulp_env 1 (real_pdl ulp_env 1 7) PM_MODE_ULP PM_MODE_HP) pll_boot = (Some rc, t) \<and>
    hw_calls (calls t) = hw_calls (calls pll_boot) @ reprogram_calls f ok1 @
      [Pm (enter_call PM_MODE_HP), Pm (Cy_RRAM_SetVoltageMode (mode_vmode PM_MODE_HP))] @
      reprogram_calls (of_nat (ceiling_mhz PM_MODE_HP * 1000000)) ok2 \<and>
    unat f \<le> ceiling_mhz PM_MODE_HP * 1000000 \<and>
    (unat f \<le> ceiling_mhz PM_MODE_ULP * 1000000) =
      (\<not> (PM_MODE_ULP = PM_MODE_ULP \<and> PM_MODE_HP = PM_MODE_HP))"
  by (rule pll_transition_envelope [OF _ _ _ ulp_env_knows ulp_env_drains order_refl]) simp_all

section \<open>The console contract\<close>

text \<open>
  The SCB baud divider is stale from \<open>PllDisable\<close> until \<open>uart_configure\<close>; a console that is
  healthy emits nothing in between. The state is the pair of "stale" and "healthy so far".
\<close>

fun con_step :: "soc_call \<times> u32 \<Rightarrow> bool \<times> bool \<Rightarrow> bool \<times> bool" where
  "con_step (Clk Cy_SysClk_PllDisable, r) (stale, ok) = (True, ok)"
| "con_step (Uart uart_configure, r) (stale, ok) = (False, ok)"
| "con_step (Wr SCB2_TX_FIFO_WR b, r) (stale, ok) = (stale, ok \<and> \<not> stale)"
| "con_step (Out x, r) (stale, ok) = (stale, ok \<and> \<not> stale)"
| "con_step e x = x"

definition console :: "(soc_call \<times> u32) list \<Rightarrow> bool \<times> bool" where
  "console h = fold con_step h (False, True)"

lemma con_benign: "list_all (benign \<circ> fst) new \<Longrightarrow> fold con_step new (False, ok) = (False, ok)"
proof (induction new)
  case (Cons e new)
  then have "con_step e (False, ok) = (False, ok)"
    by (cases "(e, (False, ok))" rule: con_step.cases) auto
  with Cons show ?case by simp
qed simp

lemma con_unhealthy: "snd (fold con_step new (stale, False)) = False"
proof (induction new arbitrary: stale)
  case (Cons e new)
  obtain st where "con_step e (stale, False) = (st, False)"
    by (cases "(e, (stale, False))" rule: con_step.cases) auto
  with Cons show ?case by simp
qed simp

lemma con_scb2: "list_all (scb2 \<circ> fst) new \<Longrightarrow> fold con_step new (stale, False) = (stale, False)"
  by (induction new) (auto simp: scb2_def)

lemma con_reads: "status_reads new \<Longrightarrow> fold con_step new x = x"
  by (induction new arbitrary: x) (auto simp: status_reads_def)

lemma con_query: "list_all (\<lambda>e. fst e = Pm Cy_SysPm_IsSystemUlp) q \<Longrightarrow> fold con_step q x = x"
  by (induction q arbitrary: x) auto

lemma con_reprogrammed: "reprogrammed f new \<Longrightarrow> fold con_step new (stale, ok) = (True, ok)"
  unfolding reprogrammed_def by (elim exE conjE) (simp add: con_reads)

lemma con_enter [simp]: "con_step (Pm p, r) x = x"
  by (cases x) simp

lemma con_cpu [simp]: "con_step (Cpu k, r) x = x" "con_step (Gpio g, r) x = x"
  by (cases x; simp)+

lemma con_pll_shape:
  assumes "pll_shape a b st new"
  shows "fold con_step new (False, True) = (True, st = 0)"
proof -
  obtain c0 tr q n1 x y z n2 w out where
    n: "new = (Cpu k_cycle_get_32, c0) # tr @ q @ n1 @ (Cpu k_cycle_get_32, x) # (Pm (enter_call b), st) #
       (Cpu k_cycle_get_32, y) # (Pm (Cy_RRAM_SetVoltageMode (mode_vmode b)), z) # n2 @
       (Cpu k_cycle_get_32, w) # out" "list_all (scb2 \<circ> fst) tr"
      "list_all (\<lambda>e. fst e = Pm Cy_SysPm_IsSystemUlp) q"
      "reprogrammed (intermediate a b) n1" "reprogrammed (final_freq b) n2"
      "map fst out = (if st = 0 then [] else [Out (printk ''[pm] SystemEnter* failed (%d)'' [Num st])])"
    using assms unfolding pll_shape_def by blast
  have "fold con_step out (True, True) = (True, st = 0)"
    using n(6) by (cases "st = 0") auto
  with n(2-5) show ?thesis
    by (simp add: n(1) con_query con_reprogrammed con_benign benign_lists)
qed

definition uart_live :: "soc_env \<Rightarrow> bool" where
  "uart_live env \<longleftrightarrow>
     (\<forall>h. env h (Uart device_is_ready_console) \<noteq> 0 \<and> env h (Uart uart_config_get) = 0)"

lemma switch_done_console:
  assumes live: "uart_live env" and drains: "tx_drains env n" "n \<le> fuel"
    and P: "P = pll_strategy env fuel Q"
    and run: "run_state (pm_switch_done env fuel P a b cyc) s = (r, t)"
  shows "\<exists>new. calls t = calls s @ new \<and> fold con_step new (True, True) = (False, True)"
proof -
  let ?s = "s\<lparr>s_current_mode := b, calls := calls s @
    [(Clk SystemCoreClockUpdate, env (calls s) (Clk SystemCoreClockUpdate))]\<rparr>"
  let ?rest = "\<lambda>_. do {
     tell env (Out (printk ''[pm] transition %s -> %s : %u cycles''
       [Str (pm_mode_name P a), Str (pm_mode_name P b), Num cyc]));
     pm_strategy_print_last_phases P;
     obind (TRACE env fuel ''switch:complete'') (\<lambda>_. do {
     pm_clock_probe env P;
     return (Some (0::int))
     })}"
  obtain u where "run_state (diag_trace_flush env fuel) ?s = (Some (), u)"
    using diag_flush_returns [OF drains, of ?s] by (metis prod.collapse)
  moreover from run_flush [OF this] obtain pre where
    u: "u = ?s\<lparr>calls := calls ?s @ pre\<rparr>" and pre: "status_reads pre" by blast
  ultimately have f: "run_state (diag_trace_flush env fuel) ?s = (Some (), ?s\<lparr>calls := calls ?s @ pre\<rparr>)"
    by simp
  let ?h = "calls ?s @ pre"
  let ?h1 = "?h @ [(Uart device_is_ready_console, env ?h (Uart device_is_ready_console))]"
  let ?h2 = "?h1 @ [(Uart uart_config_get, 0)]"
  let ?u = "?s\<lparr>calls := ?h2 @ [(Uart uart_configure, env ?h2 (Uart uart_configure))]\<rparr>"
  have "run_state (pm_reconfigure_console_uart env) (?s\<lparr>calls := ?h\<rparr>) = ((), ?u)"
    using live by (simp add: pm_reconfigure_console_uart_def uart_live_def)
  with run f have rest: "run_state (?rest ()) ?u = (r, t)"
    by (simp add: pm_switch_done_def P pll_strategy_def run_obind)
  have "quiet benign (?rest ())"
    by (intro quiet_intros quiet_clock_probe)
      (simp_all add: P pll_strategy_def quiet_phase_log_print pll_probe_status_def quiet_intros)
  then obtain new where "final (?rest ()) ?u = ?u\<lparr>calls := calls ?u @ new\<rparr>"
    and b: "list_all (benign \<circ> fst) new" by (rule quietE)
  with rest have "calls t = calls s @ ((Clk SystemCoreClockUpdate, env (calls s) (Clk SystemCoreClockUpdate)) #
      pre @ [(Uart device_is_ready_console, env ?h (Uart device_is_ready_console)),
       (Uart uart_config_get, 0), (Uart uart_configure, env ?h2 (Uart uart_configure))] @ new)"
    by simp
  moreover have "fold con_step ((Clk SystemCoreClockUpdate, env (calls s) (Clk SystemCoreClockUpdate)) #
      pre @ [(Uart device_is_ready_console, env ?h (Uart device_is_ready_console)),
       (Uart uart_config_get, 0), (Uart uart_configure, env ?h2 (Uart uart_configure))] @ new) (True, True) =
      (False, True)"
    using pre b by (simp add: con_reads con_benign)
  ultimately show ?thesis by blast
qed

lemma switch_to_steps:
  assumes "target \<noteq> s_current_mode s" and "valid_mode target"
    and "run_state (pm_switch_to env fuel strat target) s = (Some r, t)"
  obtains rc u x y where
    "run_state (pm_strategy_transition strat (s_current_mode s) target)
       (s\<lparr>calls := pulse_begin env (calls s)\<rparr>) = (Some rc, u)"
    and "\<exists>cyc. run_state (if rc \<noteq> 0 then obind (TRACE env fuel ''switch:FAIL'') (\<lambda>_. return (Some rc))
        else pm_switch_done env fuel strat (s_current_mode s) target cyc)
       (u\<lparr>calls := calls u @ [(Gpio (gpio_pin_set_dt pm_busy 0), x), (Cpu k_cycle_get_32, y)]\<rparr>) = (Some r, t)"
proof -
  let ?s1 = "s\<lparr>calls := pulse_begin env (calls s)\<rparr>"
  have v: "target = PM_MODE_HP \<or> target = PM_MODE_LP \<or> target = PM_MODE_ULP"
    using assms(2) by (cases target) auto
  have "run_state (pm_switch_to env fuel strat target) s =
    run_state (obind (pm_strategy_transition strat (s_current_mode s) target) (\<lambda>rc. do {
       gpio_indicators_transition_end env;
       t_end \<leftarrow> ask env (Cpu k_cycle_get_32);
       if rc \<noteq> 0 then obind (TRACE env fuel ''switch:FAIL'') (\<lambda>_. return (Some rc))
       else pm_switch_done env fuel strat (s_current_mode s) target
         (t_end - env (calls s) (Cpu k_cycle_get_32))
       })) ?s1"
    using assms(1) v
    by (auto simp: pm_switch_to_def gpio_indicators_transition_begin_def pulse_begin_def Let_def)
  with assms(3) obtain rc u where 1: "run_state (pm_strategy_transition strat (s_current_mode s) target) ?s1 = (Some rc, u)"
    and 2: "run_state (do {
       gpio_indicators_transition_end env;
       t_end \<leftarrow> ask env (Cpu k_cycle_get_32);
       if rc \<noteq> 0 then obind (TRACE env fuel ''switch:FAIL'') (\<lambda>_. return (Some rc))
       else pm_switch_done env fuel strat (s_current_mode s) target
         (t_end - env (calls s) (Cpu k_cycle_get_32))
       }) u = (Some r, t)"
    by (metis (no_types, lifting) obind_SomeD)
  let ?g = "Gpio (gpio_pin_set_dt pm_busy 0)"
  let ?x = "env (calls u) ?g"
  let ?y = "env (calls u @ [(?g, ?x)]) (Cpu k_cycle_get_32)"
  from 2 have "run_state (if rc \<noteq> 0 then obind (TRACE env fuel ''switch:FAIL'') (\<lambda>_. return (Some rc))
        else pm_switch_done env fuel strat (s_current_mode s) target (?y - env (calls s) (Cpu k_cycle_get_32)))
       (u\<lparr>calls := calls u @ [(?g, ?x), (Cpu k_cycle_get_32, ?y)]\<rparr>) = (Some r, t)"
    by (cases "rc = 0") (simp_all add: gpio_indicators_transition_end_def)
  with 1 show ?thesis by (intro that) blast+
qed

text \<open>A failed switch only traces: the console stays stale and the hardware as the transition left it.\<close>

definition is_pll_config :: "soc_call \<Rightarrow> bool" where
  "is_pll_config c \<longleftrightarrow> (\<exists>f. c = Clk (Cy_SysClk_PllConfigure DPLL_INPUT_FREQ_HZ f))"

lemma failed_switch_console:
  assumes run: "run_state (obind (TRACE env fuel msg) (\<lambda>_. return (Some rc))) u = (Some r, t)"
    and con: "console (calls u) = (True, False)"
  shows "r = rc \<and> s_current_mode t = s_current_mode u \<and> console (calls t) = (True, False) \<and>
    hw_calls (calls t) = hw_calls (calls u)"
proof -
  from run obtain v where tr: "run_state (TRACE env fuel msg) u = (v, t)" and "r = rc"
    by (elim obind_SomeD) auto
  obtain n where t: "t = u\<lparr>calls := calls u @ n\<rparr>" and n: "list_all (scb2 \<circ> fst) n"
    using quietE [OF quiet_diag_trace, of env fuel _ u] tr unfolding TRACE_def by (metis snd_conv)
  have "console (calls t) = (True, False)"
    using con con_scb2 [OF n, of True] by (simp add: t console_def)
  moreover have "hw_calls (calls t) = hw_calls (calls u)"
    using hw_calls_benign [OF benign_lists(1) [OF n]] by (simp add: t)
  ultimately show ?thesis
    using \<open>r = rc\<close> by (simp add: t)
qed

text \<open>
  Property C11. The console contract of the PLL strategy, with a UART driver that answers and a
  transmitter that drains. A successful switch emits nothing, neither traces nor output,
  between the first \<open>PllDisable\<close> and the retune of the UART, so no byte leaves at a stale baud
  rate. A failed one returns \<open>-EIO\<close> and keeps the mode, but does not keep the contract: it
  prints and traces with the PLL already reprogrammed to the target's frequency, and never
  retunes the UART.
\<close>

theorem pll_console_contract:
  fixes s :: pll_soc
  assumes "valid_mode target" and "target \<noteq> s_current_mode s" and "knows_mode env (s_current_mode s)"
    and "uart_live env" and "tx_drains env n" and "n \<le> fuel" and "console (calls s) = (False, True)"
  shows "\<exists>rc t. run_state (pm_switch_to env fuel (pll_strategy env fuel (real_pdl env fuel fail)) target) s =
      (Some rc, t) \<and>
    (if rc = 0 then s_current_mode t = target \<and> console (calls t) = (False, True)
     else rc = - EIO \<and> s_current_mode t = s_current_mode s \<and> console (calls t) = (True, False) \<and>
       filter is_pll_config (hw_calls (calls t)) = filter is_pll_config (hw_calls (calls s)) @
         [Clk (Cy_SysClk_PllConfigure DPLL_INPUT_FREQ_HZ (intermediate (s_current_mode s) target)),
          Clk (Cy_SysClk_PllConfigure DPLL_INPUT_FREQ_HZ (final_freq target))])"
proof -
  let ?P = "pll_strategy env fuel (real_pdl env fuel fail)"
  have trans: "pm_strategy_transition ?P = pll_transition env fuel (real_pdl env fuel fail)"
    by (simp add: pll_strategy_def)
  obtain r t where run: "run_state (pm_switch_to env fuel ?P target) s = (Some r, t)"
    using returns_switch_to [OF assms(5,6), of ?P target] returns_pll [OF assms(5,6), of fail]
    unfolding returns_def trans by (metis not_None_eq prod.collapse)
  from switch_to_steps [OF assms(2,1) run] obtain rc u x y cyc where
    1: "run_state (pll_transition env fuel (real_pdl env fuel fail) (s_current_mode s) target)
       (s\<lparr>calls := pulse_begin env (calls s)\<rparr>) = (Some rc, u)"
    and 2: "run_state (if rc \<noteq> 0 then obind (TRACE env fuel ''switch:FAIL'') (\<lambda>_. return (Some rc))
        else pm_switch_done env fuel ?P (s_current_mode s) target cyc)
       (u\<lparr>calls := calls u @ [(Gpio (gpio_pin_set_dt pm_busy 0), x), (Cpu k_cycle_get_32, y)]\<rparr>) = (Some r, t)"
    unfolding trans by metis
  from pll_transition_calls [OF assms(1,3) 1] obtain st new where
    new: "calls u = pulse_begin env (calls s) @ new" "pll_shape (s_current_mode s) target st new"
    "rc = (if st = 0 then 0 else - EIO)" by auto
  have mode: "s_current_mode u = s_current_mode s"
    using pll.transition_keeps_mode [where penv = env and pfuel = fuel and fail = fail and denv = env
      and dfail = fail and a = "s_current_mode s" and b = target and
      s = "s\<lparr>calls := pulse_begin env (calls s)\<rparr>"] 1 by (simp add: trans)
  have con: "console (calls u) = (True, st = 0)"
    using new(1) con_pll_shape [OF new(2)] assms(7) by (simp add: console_def pulse_begin_def Let_def)
  show ?thesis
  proof (cases "st = 0")
    case True
    let ?u = "u\<lparr>calls := calls u @ [(Gpio (gpio_pin_set_dt pm_busy 0), x), (Cpu k_cycle_get_32, y)]\<rparr>"
    have d: "run_state (pm_switch_done env fuel ?P (s_current_mode s) target cyc) ?u = (Some r, t)"
      using 2 True new(3) by simp
    from switch_done_console [OF assms(4,5,6) refl d] obtain n where
      "calls t = calls ?u @ n" "fold con_step n (True, True) = (False, True)" by blast
    then have "console (calls t) = (False, True)" using con True by (simp add: console_def)
    moreover obtain n' r' where "run_state (pm_switch_done env fuel ?P (s_current_mode s) target cyc) ?u =
        (r', ?u\<lparr>s_current_mode := target, calls := calls ?u @ n'\<rparr>)" "r' = None \<or> r' = Some 0"
      by (rule pll.switch_done_run)
    ultimately show ?thesis using run d by auto
  next
    case False
    let ?u = "u\<lparr>calls := calls u @ [(Gpio (gpio_pin_set_dt pm_busy 0), x), (Cpu k_cycle_get_32, y)]\<rparr>"
    have rc: "rc = - EIO" using new(3) False by simp
    then have f: "run_state (obind (TRACE env fuel ''switch:FAIL'') (\<lambda>_. return (Some rc))) ?u = (Some r, t)"
      using 2 by simp
    obtain ok1 ok2 where "hw_calls new = reprogram_calls (intermediate (s_current_mode s) target) ok1 @
      [Pm (enter_call target), Pm (Cy_RRAM_SetVoltageMode (mode_vmode target))] @
      reprogram_calls (final_freq target) ok2"
      using hw_pll_shape [OF new(2)] by blast
    then have "filter is_pll_config (hw_calls (calls ?u)) = filter is_pll_config (hw_calls (calls s)) @
       [Clk (Cy_SysClk_PllConfigure DPLL_INPUT_FREQ_HZ (intermediate (s_current_mode s) target)),
        Clk (Cy_SysClk_PllConfigure DPLL_INPUT_FREQ_HZ (final_freq target))]"
      using new(1) by (simp add: pulse_begin_def Let_def reprogram_calls_def is_pll_config_def)
    moreover have "console (calls ?u) = (True, False)" using con False by (simp add: console_def)
    ultimately show ?thesis
      using failed_switch_console [OF f] run rc mode by simp
  qed
qed

lemma ulp_env_live: "uart_live ulp_env"
  by (simp add: uart_live_def ulp_env_def)

theorem pll_console_contract_witness:
  "\<exists>rc t. run_state (pm_switch_to ulp_env 1 (pll_strategy ulp_env 1 (real_pdl ulp_env 1 7)) PM_MODE_LP)
      (pll_boot\<lparr>s_current_mode := PM_MODE_ULP\<rparr>) = (Some rc, t) \<and>
    (if rc = 0 then s_current_mode t = PM_MODE_LP \<and> console (calls t) = (False, True) else rc = - EIO)"
proof -
  let ?s = "pll_boot\<lparr>s_current_mode := PM_MODE_ULP\<rparr>"
  have 1: "valid_mode PM_MODE_LP" "PM_MODE_LP \<noteq> s_current_mode ?s" by simp_all
  have 2: "knows_mode ulp_env (s_current_mode ?s)" using ulp_env_knows by simp
  have 3: "console (calls ?s) = (False, True)"
    by (simp add: console_def pll_boot_def soc.defs soc_boot_def)
  from pll_console_contract [OF 1 2 ulp_env_live ulp_env_drains order_refl 3, of 7] show ?thesis
    by (auto split: if_splits)
qed

end
