(* ===== verification/Pm_Hf0.thy ===== *)
theory Pm_Hf0
  imports Pm_Core
begin

text \<open>
  The HF0-divider strategy (\<open>power_manager_hf0_divider.c\<close>), the one the build selects: six
  transition helpers, each a divider step, a voltage step and an RRAM step in an order that
  depends on the direction. The lemmas follow the commanded divider and voltage through the
  record of calls and show that the core clock never exceeds the ceiling of the voltage, at
  any point of any sequence of switches, and that a failed switch restores the source mode.
\<close>

section \<open>The six transitions\<close>

text \<open>
  Without registered callbacks, \<open>Cy_SysPm_SystemEnter*\<close> is one call into the PDL with a status.
\<close>

definition plain_pdl :: "soc_env \<Rightarrow> u32 \<Rightarrow> 'z pdl" where
  "plain_pdl env fail =
     \<lparr>CY_SYSPM_FAIL = fail,
      Cy_SysPm_SystemEnter = (\<lambda>m. do { st \<leftarrow> ask env (Pm (enter_call m)); return (Some st) })\<rparr>"

definition record_phases :: "string \<Rightarrow> string \<Rightarrow> string \<Rightarrow> u32 \<Rightarrow> u32 \<Rightarrow> u32 \<Rightarrow> u32 \<Rightarrow> ('z, unit) soc_prog"
  where
  "record_phases n1 n2 n3 t0 t1 t2 t3 = do {
     pm_phase_log_record (Some n1) (t1 - t0);
     pm_phase_log_record (Some n2) (t2 - t1);
     pm_phase_log_record (Some n3) (t3 - t2)
   }"

text \<open>
  The shape of the three helpers that lower the voltage, and of the three that raise it; the
  helpers differ in the label, the dividers, the mode and the message.
\<close>

definition trans_lower :: "soc_env \<Rightarrow> nat \<Rightarrow> 'z pdl \<Rightarrow> string \<Rightarrow> nat \<Rightarrow> nat \<Rightarrow> pm_mode_t \<Rightarrow> vmode \<Rightarrow> string \<Rightarrow>
    ('z, int option) soc_prog" where
  "trans_lower env fuel P label div_tgt div_src mode rram msg = do {
     pm_phase_log_reset (Some label);
     t0 \<leftarrow> ask env (Cpu k_cycle_get_32);
     tell env (Clk (Cy_SysClk_ClkHfSetDivider 0 div_tgt));
     t1 \<leftarrow> ask env (Cpu k_cycle_get_32);
     obind (pm_syspm_enter env fuel P mode) (\<lambda>st. do {
     t2 \<leftarrow> ask env (Cpu k_cycle_get_32);
     if st \<noteq> 0 then do {
       tell env (Clk (Cy_SysClk_ClkHfSetDivider 0 div_src));
       tell env (Out (printk msg [Num st]));
       return (Some (- EIO))
     }
     else do {
       tell env (Pm (Cy_RRAM_SetVoltageMode rram));
       t3 \<leftarrow> ask env (Cpu k_cycle_get_32);
       record_phases ''div'' ''enter'' ''rram'' t0 t1 t2 t3;
       return (Some 0)
     }})
   }"

definition trans_raise :: "soc_env \<Rightarrow> nat \<Rightarrow> 'z pdl \<Rightarrow> string \<Rightarrow> nat \<Rightarrow> pm_mode_t \<Rightarrow> vmode \<Rightarrow> string \<Rightarrow>
    ('z, int option) soc_prog" where
  "trans_raise env fuel P label div_tgt mode rram msg = do {
     pm_phase_log_reset (Some label);
     t0 \<leftarrow> ask env (Cpu k_cycle_get_32);
     obind (pm_syspm_enter env fuel P mode) (\<lambda>st. do {
     t1 \<leftarrow> ask env (Cpu k_cycle_get_32);
     if st \<noteq> 0 then do {
       tell env (Out (printk msg [Num st]));
       return (Some (- EIO))
     }
     else do {
       tell env (Pm (Cy_RRAM_SetVoltageMode rram));
       t2 \<leftarrow> ask env (Cpu k_cycle_get_32);
       tell env (Clk (Cy_SysClk_ClkHfSetDivider 0 div_tgt));
       t3 \<leftarrow> ask env (Cpu k_cycle_get_32);
       record_phases ''enter'' ''rram'' ''div'' t0 t1 t2 t3;
       return (Some 0)
     }})
   }"

definition trans_hp_to_lp :: "soc_env \<Rightarrow> nat \<Rightarrow> 'z pdl \<Rightarrow> ('z, int option) soc_prog" where
  "trans_hp_to_lp env fuel P = trans_lower env fuel P ''hp2lp'' 3 1 PM_MODE_LP CY_RRAM_VMODE_LP
     ''[pm] HP->LP EnterLp failed (%d)''"

definition trans_hp_to_ulp :: "soc_env \<Rightarrow> nat \<Rightarrow> 'z pdl \<Rightarrow> ('z, int option) soc_prog" where
  "trans_hp_to_ulp env fuel P = trans_lower env fuel P ''hp2ulp'' 4 1 PM_MODE_ULP CY_RRAM_VMODE_ULP
     ''[pm] HP->ULP EnterUlp failed (%d)''"

definition trans_lp_to_ulp :: "soc_env \<Rightarrow> nat \<Rightarrow> 'z pdl \<Rightarrow> ('z, int option) soc_prog" where
  "trans_lp_to_ulp env fuel P = trans_lower env fuel P ''lp2ulp'' 4 3 PM_MODE_ULP CY_RRAM_VMODE_ULP
     ''[pm] LP->ULP EnterUlp failed (%d)''"

definition trans_ulp_to_lp :: "soc_env \<Rightarrow> nat \<Rightarrow> 'z pdl \<Rightarrow> ('z, int option) soc_prog" where
  "trans_ulp_to_lp env fuel P = trans_raise env fuel P ''ulp2lp'' 3 PM_MODE_LP CY_RRAM_VMODE_LP
     ''[pm] ULP->LP EnterLp failed (%d)''"

definition trans_lp_to_hp :: "soc_env \<Rightarrow> nat \<Rightarrow> 'z pdl \<Rightarrow> ('z, int option) soc_prog" where
  "trans_lp_to_hp env fuel P = trans_raise env fuel P ''lp2hp'' 1 PM_MODE_HP CY_RRAM_VMODE_HP
     ''[pm] LP->HP EnterHp failed (%d)''"

definition trans_ulp_to_hp :: "soc_env \<Rightarrow> nat \<Rightarrow> 'z pdl \<Rightarrow> ('z, int option) soc_prog" where
  "trans_ulp_to_hp env fuel P = trans_raise env fuel P ''ulp2hp'' 1 PM_MODE_HP CY_RRAM_VMODE_HP
     ''[pm] ULP->HP EnterHp failed (%d)''"

section \<open>The strategy interface\<close>

definition hf0_transition ::
  "soc_env \<Rightarrow> nat \<Rightarrow> 'z pdl \<Rightarrow> pm_mode_t \<Rightarrow> pm_mode_t \<Rightarrow> ('z, int option) soc_prog" where
  "hf0_transition env fuel P source target =
     (case source of
        PM_MODE_HP \<Rightarrow>
          if target = PM_MODE_LP then trans_hp_to_lp env fuel P
          else if target = PM_MODE_ULP then trans_hp_to_ulp env fuel P
          else return (Some (- EINVAL))
      | PM_MODE_LP \<Rightarrow>
          if target = PM_MODE_HP then trans_lp_to_hp env fuel P
          else if target = PM_MODE_ULP then trans_lp_to_ulp env fuel P
          else return (Some (- EINVAL))
      | PM_MODE_ULP \<Rightarrow>
          if target = PM_MODE_HP then trans_ulp_to_hp env fuel P
          else if target = PM_MODE_LP then trans_ulp_to_lp env fuel P
          else return (Some (- EINVAL))
      | PM_MODE_OTHER n \<Rightarrow> return (Some (- EINVAL)))"

fun hf0_mode_name :: "pm_mode_t \<Rightarrow> string" where
  "hf0_mode_name PM_MODE_HP = ''HP  (200 MHz)''"
| "hf0_mode_name PM_MODE_LP = ''LP  ( 66 MHz)''"
| "hf0_mode_name PM_MODE_ULP = ''ULP ( 50 MHz)''"
| "hf0_mode_name (PM_MODE_OTHER n) = ''UNKNOWN''"

definition hf0_strategy :: "soc_env \<Rightarrow> nat \<Rightarrow> 'z pdl \<Rightarrow> 'z strategy" where
  "hf0_strategy env fuel P =
     \<lparr>pm_strategy_init = return (),
      pm_strategy_transition = hf0_transition env fuel P,
      pm_strategy_mode_name = hf0_mode_name,
      pm_strategy_probe_status =
        tell env (Out (printk ''[div] approach=divider-only  DPLL frozen at boot value'' [])),
      pm_strategy_needs_uart_retune = False,
      pm_strategy_print_last_phases = pm_phase_log_print env\<rparr>"

section \<open>The commanded divider and voltage\<close>

text \<open>
  \<open>commanded h\<close> reads the CLK_HF0 divider and the core voltage mode off the calls, from the
  boot state HP at /1: a divider call sets the divider, an enter call that reports success
  sets the mode. \<open>in_envelope\<close>: DPLL_LP0 at 200 MHz over the divider stays at or under the
  AN237976 ceiling of the mode. \<open>always_in_envelope\<close>: so at every point of the record, and
  an enter call, which passes through both voltages, is only made with a divider that is
  within both ceilings.
\<close>

fun clock_step :: "(soc_call \<times> u32) \<Rightarrow> nat \<times> pm_mode_t \<Rightarrow> nat \<times> pm_mode_t" where
  "clock_step (Clk (Cy_SysClk_ClkHfSetDivider n d), r) (dv, m) = (if n = 0 then (d, m) else (dv, m))"
| "clock_step (Pm Cy_SysPm_SystemEnterHp, r) (dv, m) = (dv, if r = 0 then PM_MODE_HP else m)"
| "clock_step (Pm Cy_SysPm_SystemEnterLp, r) (dv, m) = (dv, if r = 0 then PM_MODE_LP else m)"
| "clock_step (Pm Cy_SysPm_SystemEnterUlp, r) (dv, m) = (dv, if r = 0 then PM_MODE_ULP else m)"
| "clock_step (c, r) x = x"

definition commanded :: "(soc_call \<times> u32) list \<Rightarrow> nat \<times> pm_mode_t" where
  "commanded h = fold clock_step h (1, PM_MODE_HP)"

definition in_envelope :: "nat \<times> pm_mode_t \<Rightarrow> bool" where
  "in_envelope x \<longleftrightarrow> 0 < fst x \<and> 200 \<le> ceiling_mhz (snd x) * fst x"

fun step_in_envelope :: "soc_call \<Rightarrow> nat \<times> pm_mode_t \<Rightarrow> bool" where
  "step_in_envelope (Clk (Cy_SysClk_ClkHfSetDivider n d)) (dv, m) = (n = 0 \<longrightarrow> in_envelope (d, m))"
| "step_in_envelope (Pm Cy_SysPm_SystemEnterHp) (dv, m) = in_envelope (dv, PM_MODE_HP)"
| "step_in_envelope (Pm Cy_SysPm_SystemEnterLp) (dv, m) = in_envelope (dv, PM_MODE_LP)"
| "step_in_envelope (Pm Cy_SysPm_SystemEnterUlp) (dv, m) = in_envelope (dv, PM_MODE_ULP)"
| "step_in_envelope c x = True"

fun envelope_from :: "nat \<times> pm_mode_t \<Rightarrow> (soc_call \<times> u32) list \<Rightarrow> bool" where
  "envelope_from x [] = in_envelope x"
| "envelope_from x (e # h) = (in_envelope x \<and> step_in_envelope (fst e) x \<and> envelope_from (clock_step e x) h)"

definition always_in_envelope :: "(soc_call \<times> u32) list \<Rightarrow> bool" where
  "always_in_envelope h = envelope_from (1, PM_MODE_HP) h"

fun hf0_divider :: "pm_mode_t \<Rightarrow> nat" where
  "hf0_divider PM_MODE_HP = 1"
| "hf0_divider PM_MODE_LP = 3"
| "hf0_divider PM_MODE_ULP = 4"
| "hf0_divider (PM_MODE_OTHER n) = 1"

definition hf0_agrees :: "pm_mode_t \<Rightarrow> (soc_call \<times> u32) list \<Rightarrow> bool" where
  "hf0_agrees m h \<longleftrightarrow> commanded h = (hf0_divider m, m) \<and> always_in_envelope h"

lemma envelope_from_append:
  "envelope_from x (h @ k) \<longleftrightarrow> envelope_from x h \<and> envelope_from (fold clock_step h x) k"
proof (induction h arbitrary: x)
  case Nil
  then show ?case by (cases k) auto
qed auto

lemma always_snoc [simp]:
  "always_in_envelope (h @ [e]) \<longleftrightarrow> always_in_envelope h \<and>
     step_in_envelope (fst e) (commanded h) \<and> in_envelope (clock_step e (commanded h))"
proof -
  have "envelope_from x h \<Longrightarrow> in_envelope (fold clock_step h x)" for x
    by (induction h arbitrary: x) auto
  then show ?thesis
    by (auto simp: always_in_envelope_def commanded_def envelope_from_append)
qed

lemma commanded_snoc [simp]: "commanded (h @ [e]) = clock_step e (commanded h)"
  by (simp add: commanded_def)

lemma always_last: "always_in_envelope h \<Longrightarrow> in_envelope (commanded h)"
  by (cases h rule: rev_cases) (auto simp: always_in_envelope_def commanded_def envelope_from_append)

lemma benign_clock: "benign c \<Longrightarrow> clock_step (c, r) x = x \<and> step_in_envelope c x"
  by (cases x; cases c rule: benign.cases) auto

text \<open>Benign calls and pin writes change nothing here.\<close>

definition same_clocks :: "soc_call \<Rightarrow> bool" where
  "same_clocks c \<longleftrightarrow> (\<forall>r x. clock_step (c, r) x = x \<and> step_in_envelope c x)"

lemma same_clocks_simps [simp]:
  "benign c \<Longrightarrow> same_clocks c" "same_clocks (Gpio g)" "same_clocks (Pm (Cy_RRAM_SetVoltageMode v))"
  using benign_clock by (auto simp: same_clocks_def)

lemma same_clocksD: "same_clocks c \<Longrightarrow> clock_step (c, r) x = x" "same_clocks c \<Longrightarrow> step_in_envelope c x"
  by (auto simp: same_clocks_def simp del: split_paired_All)

lemma fold_same: "list_all (same_clocks \<circ> fst) new \<Longrightarrow> fold clock_step new x = x"
  by (induction new arbitrary: x) (auto simp: same_clocksD)

lemma envelope_same: "list_all (same_clocks \<circ> fst) new \<Longrightarrow> envelope_from x new = in_envelope x"
  by (induction new arbitrary: x) (auto simp: same_clocksD)

lemma commanded_same: "list_all (same_clocks \<circ> fst) new \<Longrightarrow> commanded (h @ new) = commanded h"
  by (simp add: commanded_def fold_same)

lemma always_same:
  "list_all (same_clocks \<circ> fst) new \<Longrightarrow> always_in_envelope (h @ new) = always_in_envelope h"
  using always_last [of h]
  by (auto simp: always_in_envelope_def envelope_from_append envelope_same commanded_def)

lemma agrees_same: "list_all (same_clocks \<circ> fst) new \<Longrightarrow> hf0_agrees m (h @ new) = hf0_agrees m h"
  by (simp add: hf0_agrees_def commanded_same always_same)

section \<open>Every transition keeps hardware and mode together\<close>

lemma syspm_enter_plain:
  assumes "valid_mode m"
  shows "\<exists>pre r. list_all (benign \<circ> fst) pre \<and>
    (case r of None \<Rightarrow> run_state (pm_syspm_enter env fuel (plain_pdl env fail) m) s =
         (None, s\<lparr>calls := calls s @ pre\<rparr>)
     | Some st \<Rightarrow> run_state (pm_syspm_enter env fuel (plain_pdl env fail) m) s =
         (Some st, s\<lparr>calls := calls s @ pre @ [(Pm (enter_call m), st)]\<rparr>))"
proof -
  have gen: "\<exists>pre r. list_all (benign \<circ> fst) pre \<and>
      (case r of None \<Rightarrow> run_state (obind (TRACE env fuel msg)
          (\<lambda>_. Cy_SysPm_SystemEnter (plain_pdl env fail) m)) s = (None, s\<lparr>calls := calls s @ pre\<rparr>)
       | Some st \<Rightarrow> run_state (obind (TRACE env fuel msg)
          (\<lambda>_. Cy_SysPm_SystemEnter (plain_pdl env fail) m)) s =
          (Some st, s\<lparr>calls := calls s @ pre @ [(Pm (enter_call m), st)]\<rparr>))" for msg
  proof -
    obtain pre where 1: "final (TRACE env fuel msg) s = s\<lparr>calls := calls s @ pre\<rparr>"
      "list_all (benign \<circ> fst) pre" using quietE [OF quiet_TRACE] .
    show ?thesis
    proof (cases "result (TRACE env fuel msg) s")
      case None
      with 1 show ?thesis by (intro exI [of _ pre] exI [of _ None]) (simp add: run_obind split_beta)
    next
      case (Some u)
      with 1 show ?thesis
        by (intro exI [of _ pre] exI [of _ "Some (env (calls s @ pre) (Pm (enter_call m)))"])
          (simp add: run_obind split_beta plain_pdl_def)
    qed
  qed
  show ?thesis using assms by (cases m) (use gen in \<open>simp_all only: pm_syspm_enter.simps\<close>, simp)
qed

lemma record_phases_keep:
  "calls (final (record_phases a b c t0 t1 t2 t3) s) = calls s \<and>
   s_current_mode (final (record_phases a b c t0 t1 t2 t3) s) = s_current_mode s"
  for s :: "'z soc_scheme"
  by (simp add: record_phases_def pm_phase_log_record_def)

lemma clock_step_enter:
  "valid_mode m \<Longrightarrow> clock_step (Pm (enter_call m), r) (dv, n) = (dv, if r = 0 then m else n)"
  "valid_mode m \<Longrightarrow> step_in_envelope (Pm (enter_call m)) (dv, n) = in_envelope (dv, m)"
  by (cases m; simp)+

lemma commanded_append: "commanded (h @ k) = fold clock_step k (commanded h)"
  by (simp add: commanded_def)

lemma always_append:
  "always_in_envelope (h @ k) \<longleftrightarrow> always_in_envelope h \<and> envelope_from (commanded h) k"
  by (simp add: always_in_envelope_def envelope_from_append commanded_def)

lemma benign_same: "list_all (benign \<circ> fst) new \<Longrightarrow> list_all (same_clocks \<circ> fst) new"
  by (auto simp: list_all_iff)

text \<open>What a transition should make of the calls that command clocks, voltage or pins.\<close>

definition lower_script :: "nat \<Rightarrow> nat \<Rightarrow> pm_mode_t \<Rightarrow> vmode \<Rightarrow> int option \<Rightarrow> soc_call list" where
  "lower_script dt ds m v r =
     Clk (Cy_SysClk_ClkHfSetDivider 0 dt) #
     (case r of None \<Rightarrow> []
      | Some rc \<Rightarrow> Pm (enter_call m) #
          [if rc = 0 then Pm (Cy_RRAM_SetVoltageMode v) else Clk (Cy_SysClk_ClkHfSetDivider 0 ds)])"

definition raise_script :: "nat \<Rightarrow> pm_mode_t \<Rightarrow> vmode \<Rightarrow> int option \<Rightarrow> soc_call list" where
  "raise_script dt m v r =
     (case r of None \<Rightarrow> []
      | Some rc \<Rightarrow> Pm (enter_call m) #
          (if rc = 0 then [Pm (Cy_RRAM_SetVoltageMode v), Clk (Cy_SysClk_ClkHfSetDivider 0 dt)] else []))"

lemma not_benign_enter [simp]: "\<not> benign (Pm (enter_call m))"
  by (cases m) simp_all

lemmas clock_calc =
  hw_calls_benign lower_script_def raise_script_def
  hf0_agrees_def commanded_append always_append envelope_from_append fold_same envelope_same
  clock_step_enter

text \<open>A lowering step: the divider of the target is legal in both modes and set first.\<close>

lemma trans_lower_agrees:
  assumes m: "valid_mode b" and ag: "hf0_agrees a (calls s)"
    and env: "in_envelope (hf0_divider b, a)" "in_envelope (hf0_divider b, b)"
    and run: "run_state (trans_lower env fuel (plain_pdl env fail) label (hf0_divider b) (hf0_divider a)
      b rram msg) s = (r, t)"
  shows "s_current_mode t = s_current_mode s \<and>
    (case r of None \<Rightarrow> always_in_envelope (calls t)
     | Some rc \<Rightarrow> hf0_agrees (if rc = 0 then b else a) (calls t) \<and> (rc = 0 \<or> rc = - EIO)) \<and>
    hw_calls (calls t) = hw_calls (calls s) @ lower_script (hf0_divider b) (hf0_divider a) b rram r"
proof -
  let ?c = "Cpu k_cycle_get_32" and ?d = "Clk (Cy_SysClk_ClkHfSetDivider 0 (hf0_divider b))"
  let ?h1 = "calls s @ [(?c, env (calls s) ?c)]"
  let ?h2 = "?h1 @ [(?d, env ?h1 ?d)]"
  let ?s3 = "s\<lparr>s_label := label, s_count := 0, calls := ?h2 @ [(?c, env ?h2 ?c)]\<rparr>"
  have a: "commanded (calls s) = (hf0_divider a, a)" "always_in_envelope (calls s)"
      "in_envelope (hf0_divider a, a)"
    using ag always_last [of "calls s"] by (simp_all add: hf0_agrees_def)
  obtain pre q where bpre: "list_all (benign \<circ> fst) pre" and
    q: "case q of None \<Rightarrow> run_state (pm_syspm_enter env fuel (plain_pdl env fail) b) ?s3 =
         (None, ?s3\<lparr>calls := calls ?s3 @ pre\<rparr>)
     | Some st \<Rightarrow> run_state (pm_syspm_enter env fuel (plain_pdl env fail) b) ?s3 =
         (Some st, ?s3\<lparr>calls := calls ?s3 @ pre @ [(Pm (enter_call b), st)]\<rparr>)"
    using syspm_enter_plain [OF m, of env fuel fail ?s3] by blast
  note pre = bpre benign_same [OF bpre]
  show ?thesis
  proof (cases q)
    case None
    then have "r = None" "s_current_mode t = s_current_mode s"
      "calls t = calls s @ [(?c, env (calls s) ?c), (?d, env ?h1 ?d), (?c, env ?h2 ?c)] @ pre"
      using run q by (auto simp: trans_lower_def pm_phase_log_reset_def run_obind)
    with a env pre show ?thesis by (simp add: clock_calc)
  next
    case (Some st)
    with q have e: "run_state (pm_syspm_enter env fuel (plain_pdl env fail) b) ?s3 =
         (Some st, ?s3\<lparr>calls := calls ?s3 @ pre @ [(Pm (enter_call b), st)]\<rparr>)" by simp
    let ?mid = "calls s @ [(?c, env (calls s) ?c), (?d, env ?h1 ?d), (?c, env ?h2 ?c)] @ pre @
      [(Pm (enter_call b), st)]"
    show ?thesis
    proof (cases "st = 0")
      case False
      with run e obtain x y z where "r = Some (- EIO)" "s_current_mode t = s_current_mode s"
        "calls t = ?mid @ [(?c, x), (Clk (Cy_SysClk_ClkHfSetDivider 0 (hf0_divider a)), y),
           (Out (printk msg [Num st]), z)]"
        by (auto simp: trans_lower_def pm_phase_log_reset_def run_obind)
      with a env pre m False show ?thesis by (simp add: clock_calc)
    next
      case True
      with run e obtain x y z where "r = Some 0" "s_current_mode t = s_current_mode s"
        "calls t = ?mid @ [(?c, x), (Pm (Cy_RRAM_SetVoltageMode rram), y), (?c, z)]"
        by (auto simp: trans_lower_def pm_phase_log_reset_def run_obind split_beta record_phases_keep)
      with a env pre m True show ?thesis by (simp add: clock_calc)
    qed
  qed
qed

text \<open>A raising step: the divider of the source is legal in both modes and changed last.\<close>

lemma trans_raise_agrees:
  assumes m: "valid_mode b" and ag: "hf0_agrees a (calls s)"
    and env: "in_envelope (hf0_divider a, b)" "in_envelope (hf0_divider b, b)"
    and run: "run_state (trans_raise env fuel (plain_pdl env fail) label (hf0_divider b) b rram msg) s =
      (r, t)"
  shows "s_current_mode t = s_current_mode s \<and>
    (case r of None \<Rightarrow> always_in_envelope (calls t)
     | Some rc \<Rightarrow> hf0_agrees (if rc = 0 then b else a) (calls t) \<and> (rc = 0 \<or> rc = - EIO)) \<and>
    hw_calls (calls t) = hw_calls (calls s) @ raise_script (hf0_divider b) b rram r"
proof -
  let ?c = "Cpu k_cycle_get_32"
  let ?s1 = "s\<lparr>s_label := label, s_count := 0, calls := calls s @ [(?c, env (calls s) ?c)]\<rparr>"
  have a: "commanded (calls s) = (hf0_divider a, a)" "always_in_envelope (calls s)"
      "in_envelope (hf0_divider a, a)"
    using ag always_last [of "calls s"] by (simp_all add: hf0_agrees_def)
  obtain pre q where bpre: "list_all (benign \<circ> fst) pre" and
    q: "case q of None \<Rightarrow> run_state (pm_syspm_enter env fuel (plain_pdl env fail) b) ?s1 =
         (None, ?s1\<lparr>calls := calls ?s1 @ pre\<rparr>)
     | Some st \<Rightarrow> run_state (pm_syspm_enter env fuel (plain_pdl env fail) b) ?s1 =
         (Some st, ?s1\<lparr>calls := calls ?s1 @ pre @ [(Pm (enter_call b), st)]\<rparr>)"
    using syspm_enter_plain [OF m, of env fuel fail ?s1] by blast
  note pre = bpre benign_same [OF bpre]
  show ?thesis
  proof (cases q)
    case None
    then have "r = None" "s_current_mode t = s_current_mode s"
      "calls t = calls s @ [(?c, env (calls s) ?c)] @ pre"
      using run q by (auto simp: trans_raise_def pm_phase_log_reset_def run_obind)
    with a env pre show ?thesis by (simp add: clock_calc)
  next
    case (Some st)
    with q have e: "run_state (pm_syspm_enter env fuel (plain_pdl env fail) b) ?s1 =
         (Some st, ?s1\<lparr>calls := calls ?s1 @ pre @ [(Pm (enter_call b), st)]\<rparr>)" by simp
    let ?mid = "calls s @ [(?c, env (calls s) ?c)] @ pre @ [(Pm (enter_call b), st)]"
    show ?thesis
    proof (cases "st = 0")
      case False
      with run e obtain x y where "r = Some (- EIO)" "s_current_mode t = s_current_mode s"
        "calls t = ?mid @ [(?c, x), (Out (printk msg [Num st]), y)]"
        by (auto simp: trans_raise_def pm_phase_log_reset_def run_obind)
      with a env pre m False show ?thesis by (simp add: clock_calc)
    next
      case True
      with run e obtain x y z w v where "r = Some 0" "s_current_mode t = s_current_mode s"
        "calls t = ?mid @ [(?c, x), (Pm (Cy_RRAM_SetVoltageMode rram), y), (?c, z),
           (Clk (Cy_SysClk_ClkHfSetDivider 0 (hf0_divider b)), w), (?c, v)]"
        by (auto simp: trans_raise_def pm_phase_log_reset_def run_obind split_beta record_phases_keep)
      with a env pre m True show ?thesis by (simp add: clock_calc)
    qed
  qed
qed

section \<open>The contract holds\<close>

lemma confined_plain_enter: "confined (\<lambda>c. \<not> sets_pin c) (pm_syspm_enter env fuel (plain_pdl env fail) m)"
proof (rule confined_enter)
  show "confined (\<lambda>c. \<not> sets_pin c) (Cy_SysPm_SystemEnter (plain_pdl env fail) k)" for k
    unfolding plain_pdl_def pdl.simps by (intro confined_intros) simp
qed (rule benign_no_pin)

lemma confined_trans:
  "confined (\<lambda>c. \<not> sets_pin c) (trans_lower env fuel (plain_pdl env fail) l d1 d2 m v msg)"
  "confined (\<lambda>c. \<not> sets_pin c) (trans_raise env fuel (plain_pdl env fail) l d1 m v msg)"
  unfolding trans_lower_def trans_raise_def record_phases_def
  by (intro confined_intros confined_plain_enter; simp)+

fun rram_mode :: "pm_mode_t \<Rightarrow> vmode" where
  "rram_mode PM_MODE_HP = CY_RRAM_VMODE_HP"
| "rram_mode PM_MODE_LP = CY_RRAM_VMODE_LP"
| "rram_mode _ = CY_RRAM_VMODE_ULP"

definition raises :: "pm_mode_t \<Rightarrow> pm_mode_t \<Rightarrow> bool" where
  "raises a b \<longleftrightarrow> mode_code a < mode_code b"

definition transition_script :: "pm_mode_t \<Rightarrow> pm_mode_t \<Rightarrow> int option \<Rightarrow> soc_call list" where
  "transition_script a b r =
     (if raises a b then raise_script (hf0_divider b) b (rram_mode b) r
      else lower_script (hf0_divider b) (hf0_divider a) b (rram_mode b) r)"

lemma hf0_transition_shape:
  assumes "valid_mode a" "valid_mode b" "a \<noteq> b"
  shows "\<exists>l msg. hf0_transition env fuel P a b =
    (if raises a b then trans_raise env fuel P l (hf0_divider b) b (rram_mode b) msg
     else trans_lower env fuel P l (hf0_divider b) (hf0_divider a) b (rram_mode b) msg)"
  using assms
  by (cases a; cases b; simp add: hf0_transition_def trans_hp_to_lp_def trans_hp_to_ulp_def
      trans_lp_to_ulp_def trans_ulp_to_lp_def trans_lp_to_hp_def trans_ulp_to_hp_def raises_def; blast)

lemma divider_envelopes:
  assumes "valid_mode a" "valid_mode b" "a \<noteq> b"
  shows "in_envelope (hf0_divider b, b)" "raises a b \<Longrightarrow> in_envelope (hf0_divider a, b)"
    "\<not> raises a b \<Longrightarrow> in_envelope (hf0_divider b, a)"
  using assms by (cases a; cases b; simp add: in_envelope_def raises_def)+

lemma hf0_transition_agrees:
  fixes s :: "'z soc_scheme"
  assumes "valid_mode a" "valid_mode b" "a \<noteq> b" "hf0_agrees a (calls s)"
    and run: "run_state (hf0_transition env fuel (plain_pdl env fail) a b) s = (r, t)"
  shows "s_current_mode t = s_current_mode s \<and>
    (case r of None \<Rightarrow> always_in_envelope (calls t)
     | Some rc \<Rightarrow> hf0_agrees (if rc = 0 then b else a) (calls t) \<and> (rc = 0 \<or> rc = - EIO)) \<and>
    hw_calls (calls t) = hw_calls (calls s) @ transition_script a b r"
proof -
  let ?P = "plain_pdl env fail :: 'z pdl"
  obtain l msg where shape: "hf0_transition env fuel ?P a b =
      (if raises a b then trans_raise env fuel ?P l (hf0_divider b) b (rram_mode b) msg
       else trans_lower env fuel ?P l (hf0_divider b) (hf0_divider a) b (rram_mode b) msg)"
    using hf0_transition_shape [OF assms(1-3), of env fuel ?P] by blast
  note d = divider_envelopes [OF assms(1-3)]
  show ?thesis
  proof (cases "raises a b")
    case True
    then show ?thesis
      using trans_raise_agrees [OF assms(2,4) d(2) d(1)] run shape
      by (simp add: transition_script_def)
  next
    case False
    then show ?thesis
      using trans_lower_agrees [OF assms(2,4) d(3) d(1)] run shape
      by (simp add: transition_script_def)
  qed
qed

interpretation hf0: pm_strategy "hf0_strategy penv pfuel (plain_pdl penv fail)" for penv pfuel fail
proof
  fix a b :: pm_mode_t
  have ret: "confined (\<lambda>c. \<not> sets_pin c) (return x)" for x by (rule confined_intros)
  show "confined (\<lambda>c. \<not> sets_pin c)
      (pm_strategy_transition (hf0_strategy penv pfuel (plain_pdl penv fail)) a b)"
    by (auto simp: hf0_strategy_def hf0_transition_def trans_hp_to_lp_def trans_hp_to_ulp_def
        trans_lp_to_ulp_def trans_ulp_to_lp_def trans_lp_to_hp_def trans_ulp_to_hp_def
        confined_trans ret split: pm_mode_t.split)
qed (auto simp: hf0_strategy_def quiet_phase_log_print intro!: quiet_intros)

interpretation hf0r: pm_strategy_rollback "hf0_strategy penv pfuel (plain_pdl penv fail)" hf0_agrees
  always_in_envelope for penv pfuel fail
proof
  fix a b s r t
  assume "valid_mode a" "valid_mode b" "a \<noteq> b" "hf0_agrees a (calls s)"
    "run_state (pm_strategy_transition (hf0_strategy penv pfuel (plain_pdl penv fail)) a b) s = (r, t)"
  from hf0_transition_agrees [OF this(1-4), of penv pfuel fail r t] this(5)
  show "case r of None \<Rightarrow> always_in_envelope (calls t)
     | Some rc \<Rightarrow> hf0_agrees (if rc = 0 then b else a) (calls t)"
    by (auto simp: hf0_strategy_def split: option.split)
next
  fix m h and new :: "(soc_call \<times> u32) list"
  assume "hf0_agrees m h" "list_all (benign \<circ> fst) new"
  then show "hf0_agrees m (h @ new)" by (simp add: agrees_same benign_same)
next
  fix m h g x
  assume "hf0_agrees m h"
  then show "hf0_agrees m (h @ [(Gpio g, x)])" by (simp add: agrees_same)
qed (simp add: hf0_agrees_def)

section \<open>Properties\<close>

lemma returns_hf0:
  assumes "tx_drains env n" and "n \<le> fuel"
  shows "returns (pm_strategy_transition (hf0_strategy env fuel (plain_pdl env fail)) a b)"
proof -
  have e: "returns (pm_syspm_enter env fuel (plain_pdl env fail) m)" for m
    by (rule returns_enter [OF assms]) (simp add: plain_pdl_def returns_intros)
  have t: "returns (trans_lower env fuel (plain_pdl env fail) l d1 d2 m v msg)"
    "returns (trans_raise env fuel (plain_pdl env fail) l d1 m v msg)" for l d1 d2 m v msg
    unfolding trans_lower_def trans_raise_def by (intro returns_intros e)+
  show ?thesis
    by (auto simp: hf0_strategy_def hf0_transition_def trans_hp_to_lp_def trans_hp_to_ulp_def
        trans_lp_to_ulp_def trans_ulp_to_lp_def trans_lp_to_hp_def trans_ulp_to_hp_def t
        returns_return split: pm_mode_t.split)
qed

text \<open>
  Property C1. The core clock never exceeds the ceiling of the core voltage. From boot,
  through any sequence of switches to any targets, invalid ones included, with any answers of
  the PDL (failed voltage steps at any point) and even if a trace hangs, the commanded divider
  keeps 200 MHz over it within the ceiling of the commanded voltage at every call, and each
  voltage step is made with a divider within both ceilings. Whenever a switch has returned,
  divider and voltage are exactly those of the recorded mode, after failed switches too.
\<close>

theorem hf0_clock_within_ceiling:
  "let (r, t) = run_state (pm_switches env fuel (hf0_strategy env fuel (plain_pdl env fail)) ms) soc_boot
   in always_in_envelope (calls t) \<and> valid_mode (s_current_mode t) \<and>
      (if r = None then True
       else commanded (calls t) = (hf0_divider (s_current_mode t), s_current_mode t))"
proof -
  obtain r t where rt: "run_state (pm_switches env fuel (hf0_strategy env fuel (plain_pdl env fail)) ms)
      soc_boot = (r, t)" by fastforce
  have "hf0_agrees PM_MODE_HP []"
    by (simp add: hf0_agrees_def commanded_def always_in_envelope_def in_envelope_def)
  then have b: "valid_mode (s_current_mode soc_boot)"
    "hf0_agrees (s_current_mode soc_boot) (calls soc_boot)"
    by (simp_all add: soc_boot_def)
  from hf0r.switches_agree [OF b rt] show ?thesis
    unfolding rt by (auto simp: hf0_agrees_def Let_def)
qed

text \<open>
  Property C2. What one switch does, on a console that drains. From a mode whose divider and
  voltage are in place, a switch to another mode returns 0 or \<open>-EIO\<close>, and the only calls that
  command clocks, voltage or pins are: the pm-busy pulse around the transition, and inside it,
  going down the divider, the voltage step, then the RRAM step; going up the voltage step, the
  RRAM step, then the divider. When the voltage step fails the lowered divider is put back (or
  was not touched, going up), RRAM is left alone, and the mode stays the source.
\<close>

theorem hf0_switch_order:
  fixes s :: soc
  assumes "valid_mode (s_current_mode s)" and "hf0_agrees (s_current_mode s) (calls s)"
    and "valid_mode target" and "target \<noteq> s_current_mode s"
    and "tx_drains env n" and "n \<le> fuel"
  shows "\<exists>rc t. run_state (pm_switch_to env fuel (hf0_strategy env fuel (plain_pdl env fail)) target) s =
      (Some rc, t) \<and> (rc = 0 \<or> rc = - EIO) \<and>
    s_current_mode t = (if rc = 0 then target else s_current_mode s) \<and>
    hw_calls (calls t) = hw_calls (calls s) @ [Gpio (gpio_pin_set_dt pm_busy 1)] @
      transition_script (s_current_mode s) target (Some rc) @ [Gpio (gpio_pin_set_dt pm_busy 0)]"
proof -
  let ?S = "hf0_strategy env fuel (plain_pdl env fail) :: unit strategy"
  let ?s1 = "s\<lparr>calls := pulse_begin env (calls s)\<rparr>"
  obtain q u where tr: "run_state (pm_strategy_transition ?S (s_current_mode s) target) ?s1 = (q, u)"
    by fastforce
  obtain rc where q: "q = Some rc"
    using returns_hf0 [OF assms(5,6), of fail "s_current_mode s" target] tr
    unfolding returns_def by (metis fst_conv option.exhaust)
  have tr': "run_state (hf0_transition env fuel (plain_pdl env fail) (s_current_mode s) target) ?s1 = (q, u)"
    using tr by (simp add: hf0_strategy_def)
  have pulse: "hw_calls (pulse_begin env (calls s)) = hw_calls (calls s) @ [Gpio (gpio_pin_set_dt pm_busy 1)]"
    by (simp add: pulse_begin_def Let_def)
  have ag: "hf0_agrees (s_current_mode s) (calls ?s1)"
    using hf0r.pulse_agrees [OF assms(2)] by simp
  have u: "rc = 0 \<or> rc = - EIO"
    "hw_calls (calls u) = hw_calls (calls s) @ [Gpio (gpio_pin_set_dt pm_busy 1)] @
      transition_script (s_current_mode s) target (Some rc)"
    using hf0_transition_agrees [OF assms(1,3) _ ag tr'] assms(4) q pulse by auto
  obtain new r' x y where run: "run_state (pm_switch_to env fuel ?S target) s =
       (r', u\<lparr>s_current_mode := if rc = 0 then target else s_current_mode s,
          calls := calls u @ (Gpio (gpio_pin_set_dt pm_busy 0), x) # (Cpu k_cycle_get_32, y) # new\<rparr>)"
    and b: "list_all (benign \<circ> fst) new" and r': "r' = None \<or> r' = Some rc"
    using hf0.switch_to_run [OF assms(4,3), where penv = env and pfuel = fuel and env = env and fuel = fuel and fail = fail] tr q by auto
  have "r' \<noteq> None"
    using returns_switch_to [OF assms(5,6) returns_hf0 [OF assms(5,6)], of fail target] run
    unfolding returns_def by (metis fst_conv)
  with r' run u b show ?thesis by (simp add: hw_calls_benign)
qed

theorem hf0_switch_order_witness:
  "\<exists>rc t. run_state (pm_switch_to idle_env 1 (hf0_strategy idle_env 1 (plain_pdl idle_env 1)) PM_MODE_LP) soc_boot =
      (Some rc, t) \<and> (rc = 0 \<or> rc = - EIO) \<and>
    s_current_mode t = (if rc = 0 then PM_MODE_LP else PM_MODE_HP) \<and>
    hw_calls (calls t) = [Gpio (gpio_pin_set_dt pm_busy 1)] @
      transition_script PM_MODE_HP PM_MODE_LP (Some rc) @ [Gpio (gpio_pin_set_dt pm_busy 0)]"
proof -
  have boot: "s_current_mode soc_boot = PM_MODE_HP" "calls soc_boot = []" by (simp_all add: soc_boot_def)
  have "hf0_agrees (s_current_mode soc_boot) (calls soc_boot)"
    by (simp add: boot hf0_agrees_def commanded_def always_in_envelope_def in_envelope_def)
  then have ag: "hf0_agrees (s_current_mode soc_boot) (calls soc_boot)" .
  have "valid_mode (s_current_mode soc_boot)" "PM_MODE_LP \<noteq> s_current_mode soc_boot"
    by (simp_all add: boot)
  from hf0_switch_order [OF this(1) ag _ this(2) idle_env_drains order_refl, where fail = 1] show ?thesis
    by (simp only: boot hw_calls_Nil append_Nil valid_mode.simps simp_thms)
qed

end
