(* ===== verification/Script.thy ===== *)
theory Script
  imports Soc
begin

text \<open>
  Straight-line programs as scripts. Much of the power-management code is a fixed sequence of
  calls, some of them a read of a register followed by the write of a changed value. A script
  lists such a sequence, \<open>follows\<close> says that a program makes exactly its calls and touches no
  variable, and the rules compose. Facts about order and coverage are then computed on the
  script, without the answers of the environment.
\<close>

definition rmw :: "soc_env \<Rightarrow> sfr \<Rightarrow> (u32 \<Rightarrow> u32) \<Rightarrow> ('z, unit) soc_prog" where
  "rmw env r f = do { v \<leftarrow> ask env (Rd r); tell env (Wr r (f v)) }"

datatype item = Do soc_call | Rmw sfr "u32 \<Rightarrow> u32"

fun matches :: "item list \<Rightarrow> (soc_call \<times> u32) list \<Rightarrow> bool" where
  "matches [] h \<longleftrightarrow> h = []"
| "matches (Do c # is) h \<longleftrightarrow> (\<exists>r h'. h = (c, r) # h' \<and> matches is h')"
| "matches (Rmw x f # is) h \<longleftrightarrow> (\<exists>v r h'. h = (Rd x, v) # (Wr x (f v), r) # h' \<and> matches is h')"

definition follows :: "('z soc_scheme, 'a) state \<Rightarrow> item list \<Rightarrow> bool" where
  "follows m is \<longleftrightarrow> (\<forall>s. \<exists>new. final m s = s\<lparr>calls := calls s @ new\<rparr> \<and> matches is new)"

named_theorems follows_intros "programs that follow a script"

lemma matches_append: "matches is h \<Longrightarrow> matches js k \<Longrightarrow> matches (is @ js) (h @ k)"
  by (induction "is" h rule: matches.induct) auto

lemma follows_return [follows_intros]: "follows (return x) []"
  by (auto simp: follows_def)

lemma follows_tell [follows_intros]: "follows (tell env c) [Do c]"
  by (auto simp: follows_def)

lemma follows_rmw [follows_intros]: "follows (rmw env r f) [Rmw r f]"
  by (auto simp: follows_def rmw_def)

lemma follows_bind [follows_intros]:
  assumes "follows m is" and f: "\<And>x. follows (f x) js"
  shows "follows (m \<bind> f) (is @ js)"
  unfolding follows_def
proof
  fix s
  obtain new where 1: "final m s = s\<lparr>calls := calls s @ new\<rparr>" "matches is new"
    using assms(1) unfolding follows_def by blast
  obtain new' where 2: "final (f (result m s)) (final m s) = s\<lparr>calls := calls s @ new @ new'\<rparr>"
    "matches js new'"
    using f [of "result m s", unfolded follows_def, THEN spec, of "final m s"] by (auto simp: 1(1))
  show "\<exists>new. final (m \<bind> f) s = s\<lparr>calls := calls s @ new\<rparr> \<and> matches (is @ js) new"
    by (intro exI [of _ "new @ new'"]) (use 1 2 in \<open>simp add: split_beta matches_append\<close>)
qed

lemma follows_for_each [follows_intros]:
  "(\<And>x. follows (body x) (sc x)) \<Longrightarrow> follows (for_each xs body) (concat (map sc xs))"
  by (induction xs) (auto intro!: follows_intros)

lemma follows_if: "follows m is \<Longrightarrow> follows n js \<Longrightarrow> follows (if b then m else n) (if b then is else js)"
  by simp

text \<open>Computing the script of a program, to be compared with the one it should follow.\<close>

lemma follows_eq: "follows m is \<Longrightarrow> is = js \<Longrightarrow> follows m js"
  by simp

lemma follows_made: "follows m is \<Longrightarrow> matches is (made m s)"
  unfolding follows_def made_def by (elim allE [of _ s]) auto

lemma follows_final: "follows m is \<Longrightarrow> final m s = s\<lparr>calls := calls s @ made m s\<rparr>"
  unfolding follows_def made_def by (elim allE [of _ s]) auto

text \<open>What a projection that ignores register accesses sees of the calls.\<close>

definition seen :: "(soc_call \<Rightarrow> 'b option) \<Rightarrow> item list \<Rightarrow> 'b list" where
  "seen p is = List.map_filter (\<lambda>i. case i of Do c \<Rightarrow> p c | Rmw r f \<Rightarrow> None) is"

lemma matches_seen:
  assumes "\<And>r. p (Rd r) = None" and "\<And>r v. p (Wr r v) = None" and "matches is h"
  shows "List.map_filter p (map fst h) = seen p is"
  using assms(3)
  by (induction "is" h rule: matches.induct)
    (auto simp: seen_def map_filter_simps assms(1,2) split: option.split)

text \<open>
  Every write in \<open>h\<close> is of the register read just before, with a value the relation \<open>ok\<close> allows for
  what was read.
\<close>

definition written :: "soc_call \<Rightarrow> (sfr \<times> u32) option" where
  "written c = (case c of Wr r v \<Rightarrow> Some (r, v) | _ \<Rightarrow> None)"

definition read_by :: "soc_call \<Rightarrow> sfr option" where
  "read_by c = (case c of Rd r \<Rightarrow> Some r | _ \<Rightarrow> None)"

lemma accesses [simp]:
  "written (Wr r v) = Some (r, v)" "written (Rd r) = None"
  "read_by (Rd r) = Some r" "read_by (Wr r v) = None"
  by (simp_all add: written_def read_by_def)

text \<open>The walk, with the register read just before and what was read.\<close>

fun rmw_from :: "(sfr \<Rightarrow> u32 \<Rightarrow> u32 \<Rightarrow> bool) \<Rightarrow> (sfr \<times> u32) option \<Rightarrow> (soc_call \<times> u32) list \<Rightarrow> bool" where
  "rmw_from ok prev [] \<longleftrightarrow> True"
| "rmw_from ok prev (e # h) \<longleftrightarrow>
     (case written (fst e) of
        None \<Rightarrow> True
      | Some (r, w) \<Rightarrow> (case prev of None \<Rightarrow> False | Some (x, v) \<Rightarrow> x = r \<and> ok r v w)) \<and>
     rmw_from ok (case read_by (fst e) of None \<Rightarrow> None | Some r \<Rightarrow> Some (r, snd e)) h"

definition rmw_only :: "(sfr \<Rightarrow> u32 \<Rightarrow> u32 \<Rightarrow> bool) \<Rightarrow> (soc_call \<times> u32) list \<Rightarrow> bool" where
  "rmw_only ok h = rmw_from ok None h"

definition plain_call :: "soc_call \<Rightarrow> bool" where
  "plain_call c \<longleftrightarrow> written c = None \<and> read_by c = None"

lemma matches_rmw_only:
  assumes "matches is h"
    and "list_all (\<lambda>i. case i of Do c \<Rightarrow> plain_call c | Rmw r f \<Rightarrow> \<forall>v. ok r v (f v)) is"
  shows "rmw_only ok h"
  unfolding rmw_only_def
  using assms by (induction "is" h rule: matches.induct) (auto simp: plain_call_def)

section \<open>Programs whose calls depend on answers\<close>

text \<open>
  \<open>runs m Q\<close>: the program touches no variable, and \<open>Q\<close> relates its result with the calls it
  makes and their answers.
\<close>

definition runs :: "('z soc_scheme, 'a) state \<Rightarrow> ('a \<Rightarrow> (soc_call \<times> u32) list \<Rightarrow> bool) \<Rightarrow> bool" where
  "runs m Q \<longleftrightarrow> (\<forall>s. \<exists>new. final m s = s\<lparr>calls := calls s @ new\<rparr> \<and> Q (result m s) new)"

named_theorems runs_intros "what programs do, by their parts"

lemma runs_return [runs_intros]: "runs (return x) (\<lambda>y h. y = x \<and> h = [])"
  by (auto simp: runs_def)

lemma runs_ask [runs_intros]: "runs (ask env c) (\<lambda>y h. h = [(c, y)])"
  by (auto simp: runs_def)

lemma runs_tell [runs_intros]: "runs (tell env c) (\<lambda>y h. \<exists>r. h = [(c, r)])"
  by (auto simp: runs_def)

lemma runs_rmw [runs_intros]: "runs (rmw env r f) (\<lambda>y h. \<exists>v a. h = [(Rd r, v), (Wr r (f v), a)])"
  by (auto simp: runs_def rmw_def)

lemma runs_bind [runs_intros]:
  assumes "runs m Q" and f: "\<And>x. runs (f x) (R x)"
  shows "runs (m \<bind> f) (\<lambda>y h. \<exists>x a b. Q x a \<and> R x y b \<and> h = a @ b)"
  unfolding runs_def
proof
  fix s
  obtain new where 1: "final m s = s\<lparr>calls := calls s @ new\<rparr>" "Q (result m s) new"
    using assms(1) unfolding runs_def by blast
  obtain new' where 2: "final (f (result m s)) (final m s) = s\<lparr>calls := calls s @ new @ new'\<rparr>"
    "R (result m s) (result (f (result m s)) (final m s)) new'"
    using f [of "result m s", unfolded runs_def, THEN spec, of "final m s"] by (auto simp: 1(1))
  show "\<exists>new. final (m \<bind> f) s = s\<lparr>calls := calls s @ new\<rparr> \<and>
      (\<exists>x a b. Q x a \<and> R x (result (m \<bind> f) s) b \<and> new = a @ b)"
    by (intro exI [of _ "new @ new'"]) (use 1 2 in \<open>auto simp: split_beta\<close>)
qed

lemma runs_if [runs_intros]:
  "(b \<Longrightarrow> runs m Q) \<Longrightarrow> (\<not> b \<Longrightarrow> runs n R) \<Longrightarrow>
   runs (if b then m else n) (\<lambda>y h. if b then Q y h else R y h)"
  by simp

lemma runs_conseq: "runs m Q \<Longrightarrow> (\<And>y h. Q y h \<Longrightarrow> Q' y h) \<Longrightarrow> runs m Q'"
  unfolding runs_def by blast

lemma runsE:
  assumes "runs m Q"
  obtains "final m s = s\<lparr>calls := calls s @ made m s\<rparr>" and "Q (result m s) (made m s)"
proof -
  obtain new where "final m s = s\<lparr>calls := calls s @ new\<rparr>" "Q (result m s) new"
    using assms unfolding runs_def by blast
  then show thesis using that by (simp add: made_def)
qed

lemma runs_obind [runs_intros]:
  assumes "runs m Q" and f: "\<And>x. runs (f x) (R x)"
  shows "runs (obind m f) (\<lambda>y h. y = None \<and> Q None h \<or> (\<exists>x a b. Q (Some x) a \<and> R x y b \<and> h = a @ b))"
  unfolding obind_def
proof (rule runs_conseq)
  have "runs (case r of None \<Rightarrow> return None | Some x \<Rightarrow> f x)
      (\<lambda>y h. case r of None \<Rightarrow> y = None \<and> h = [] | Some x \<Rightarrow> R x y h)" for r
    using f runs_return by (cases r) simp_all
  then show "runs (m \<bind> (\<lambda>r. case r of None \<Rightarrow> return None | Some x \<Rightarrow> f x))
      (\<lambda>y h. \<exists>r a b. Q r a \<and> (case r of None \<Rightarrow> y = None \<and> b = [] | Some x \<Rightarrow> R x y b) \<and> h = a @ b)"
    by (rule runs_bind [OF assms(1)])
next
  fix y h
  assume "\<exists>r a b. Q r a \<and> (case r of None \<Rightarrow> y = None \<and> b = [] | Some x \<Rightarrow> R x y b) \<and> h = a @ b"
  then obtain r a b where "Q r a" "case r of None \<Rightarrow> y = None \<and> b = [] | Some x \<Rightarrow> R x y b" "h = a @ b"
    by blast
  then show "y = None \<and> Q None h \<or> (\<exists>x a b. Q (Some x) a \<and> R x y b \<and> h = a @ b)"
    by (cases r) auto
qed

lemma runs_for_tell [runs_intros]:
  "runs (for_each xs (\<lambda>x. tell env (f x))) (\<lambda>y h. map fst h = map f xs)"
proof (induction xs)
  case Nil
  show ?case unfolding for_each.simps by (rule runs_conseq, rule runs_return) simp
next
  case (Cons x xs)
  show ?case unfolding for_each.simps
    by (rule runs_conseq, rule runs_bind [OF runs_tell Cons.IH]) auto
qed

end
