(* ===== verification/Pm_Boot.thy ===== *)
theory Pm_Boot
  imports Script
begin

text \<open>
  The boot hooks of \<open>apps/06_pse84_m33_s_shell_ulp_lp_hp\<close> (with byte-identical copies in 07a):
  \<open>pm_boot_optimize.c\<close>, which gates what the demo does not use, and the static deep-sleep
  preparation of \<open>cmd_deep_sleep.c\<close>. The register masks come from the device headers and are
  parameters. The lemmas read off the record of calls what is switched off, in which order, and
  that what the demo needs is left alone.
\<close>

section \<open>Register updates\<close>

record masks =
  SMIF_CORE_CTL_ENABLED_Msk :: u32
  SRSS_PWR_CTL2_BGREF_LPMODE_Msk :: u32
  SRSS_CLK_IMO_CONFIG_DPSLP_ENABLE_Msk :: u32
  SCB_SCR_SLEEPDEEP_Msk :: u32
  CY_MCWDT_CTRS :: u32

text \<open>Some masks, for concrete runs.\<close>

definition demo_masks :: masks where
  "demo_masks = \<lparr>SMIF_CORE_CTL_ENABLED_Msk = 0x80000000, SRSS_PWR_CTL2_BGREF_LPMODE_Msk = 0x1000,
     SRSS_CLK_IMO_CONFIG_DPSLP_ENABLE_Msk = 0x40000000, SCB_SCR_SLEEPDEEP_Msk = 4, CY_MCWDT_CTRS = 7\<rparr>"

section \<open>Boot trims\<close>

definition PSE84_GPIO_PORT_COUNT :: nat where "PSE84_GPIO_PORT_COUNT = 22"
definition KEEP_PORT_PM_BUSY :: u32 where "KEEP_PORT_PM_BUSY = 3"
definition KEEP_PORT_LEDS :: u32 where "KEEP_PORT_LEDS = 16"

definition s_unused_hf_clocks :: "nat list" where
  "s_unused_hf_clocks = [1, 2, 3, 4, 5, 6, 7, 8, 9, 11, 12, 13]"

definition trim_socmem :: "soc_env \<Rightarrow> ('z, unit) soc_prog" where
  "trim_socmem env = tell env (Pm (Cy_SysEnableSOCMEM False))"

definition trim_smif :: "soc_env \<Rightarrow> masks \<Rightarrow> ('z, unit) soc_prog" where
  "trim_smif env M = do {
     rmw env SMIF0_CORE_CTL (\<lambda>v. v AND NOT (SMIF_CORE_CTL_ENABLED_Msk M));
     rmw env SMIF1_CORE_CTL (\<lambda>v. v AND NOT (SMIF_CORE_CTL_ENABLED_Msk M))
   }"

definition trim_app_domain :: "soc_env \<Rightarrow> ('z, unit) soc_prog" where
  "trim_app_domain env = do {
     tell env (Pm cy_pd_pdcm_clear_dependency_APPCPUSS_SYSCPU);
     tell env (Pm Cy_SysCM55SetDbgPort_DISABLE);
     tell env (Pm (cy_pd_ppu_set_power_mode_OFF PPU_PD1));
     tell env (Pm (cy_pd_ppu_set_power_mode_OFF PPU_SOCMEM));
     tell env (Pm (cy_pd_ppu_set_power_mode_OFF PPU_APPCPUSS));
     tell env (Pm (cy_pd_ppu_set_power_mode_OFF PPU_APPCPU));
     tell env (Pm (cy_pd_ppu_set_power_mode_OFF PPU_U55))
   }"

definition trim_unused_hf_clocks :: "soc_env \<Rightarrow> ('z, unit) soc_prog" where
  "trim_unused_hf_clocks env =
     for_each s_unused_hf_clocks (\<lambda>i. tell env (Clk (Cy_SysClk_ClkHfDisable i)))"

definition trim_unused_gpio_ports :: "soc_env \<Rightarrow> ('z, unit) soc_prog" where
  "trim_unused_gpio_ports env =
     for_each (map of_nat [0..<PSE84_GPIO_PORT_COUNT]) (\<lambda>port.
       if port = KEEP_PORT_PM_BUSY \<or> port = KEEP_PORT_LEDS then return ()
       else tell env (Pm (Cy_GPIO_Port_Deinit port)))"

definition trim_unused_plls :: "soc_env \<Rightarrow> ('z, unit) soc_prog" where
  "trim_unused_plls env = do {
     tell env (Clk (Cy_SysClk_DpllLpDisable 1));
     tell env (Clk (Cy_SysClk_DpllHpDisable 0))
   }"

definition pm_boot_optimize :: "soc_env \<Rightarrow> masks \<Rightarrow> ('z, int) soc_prog" where
  "pm_boot_optimize env M = do {
     trim_socmem env;
     trim_smif env M;
     trim_app_domain env;
     trim_unused_hf_clocks env;
     trim_unused_plls env;
     trim_unused_gpio_ports env;
     tell env (Out (printk ''[pm-boot] trimmed SOCMEM, SMIF0/1, PD1 (APP domain), HF{1..9,11..13}, DPLL_LP1, DPLL_HP, GPIO ports (kept 3, 16)'' []));
     return 0
   }"

definition pm_early_mcwdt_reset :: "soc_env \<Rightarrow> masks \<Rightarrow> ('z, int) soc_prog" where
  "pm_early_mcwdt_reset env M = do {
     tell env (Pm Cy_MCWDT_Unlock);
     tell env (Pm (Cy_MCWDT_Disable (CY_MCWDT_CTRS M) 100));
     tell env (Pm (Cy_MCWDT_ClearInterrupt (CY_MCWDT_CTRS M)));
     tell env (Pm (Cy_MCWDT_SetInterruptMask 0));
     return 0
   }"

section \<open>Deep-sleep preparation\<close>

definition deep_sleep_bgref_lp :: "soc_env \<Rightarrow> masks \<Rightarrow> ('z, unit) soc_prog" where
  "deep_sleep_bgref_lp env M = rmw env SRSS_PWR_CTL2 (\<lambda>v. v OR SRSS_PWR_CTL2_BGREF_LPMODE_Msk M)"

definition deep_sleep_buck_config :: "soc_env \<Rightarrow> ('z, unit) soc_prog" where
  "deep_sleep_buck_config env = do {
     tell env (Pm Cy_SysPm_CoreBuckDpslpSetVoltage_0_70V);
     tell env (Pm Cy_SysPm_CoreBuckDpslpSetMode_LP);
     tell env (Pm (Cy_SysPm_CoreBuckDpslpEnableOverride True))
   }"

definition deep_sleep_stop_osc :: "soc_env \<Rightarrow> masks \<Rightarrow> ('z, unit) soc_prog" where
  "deep_sleep_stop_osc env M = do {
     tell env (Clk Cy_SysClk_IhoDeepsleepDisable);
     rmw env SRSS_CLK_IMO_CONFIG (\<lambda>v. v AND NOT (SRSS_CLK_IMO_CONFIG_DPSLP_ENABLE_Msk M))
   }"

definition deep_sleep_backup_clock :: "soc_env \<Rightarrow> ('z, unit) soc_prog" where
  "deep_sleep_backup_clock env = tell env (Clk Cy_SysClk_ClkBakSetSource_PILO)"

definition pm_deep_sleep_init :: "soc_env \<Rightarrow> masks \<Rightarrow> ('z, int) soc_prog" where
  "pm_deep_sleep_init env M = do {
     tell env (Pm Cy_SysPm_Init);
     deep_sleep_bgref_lp env M;
     deep_sleep_buck_config env;
     deep_sleep_stop_osc env M;
     deep_sleep_backup_clock env;
     tell env (Pm (Cy_SysPm_SetDeepSleepMode CY_SYSPM_MODE_DEEPSLEEP));
     return 0
   }"

section \<open>What the boot trims do\<close>

definition boot_script :: "masks \<Rightarrow> item list" where
  "boot_script M =
     [Do (Pm (Cy_SysEnableSOCMEM False)),
      Rmw SMIF0_CORE_CTL (\<lambda>v. v AND NOT (SMIF_CORE_CTL_ENABLED_Msk M)),
      Rmw SMIF1_CORE_CTL (\<lambda>v. v AND NOT (SMIF_CORE_CTL_ENABLED_Msk M)),
      Do (Pm cy_pd_pdcm_clear_dependency_APPCPUSS_SYSCPU), Do (Pm Cy_SysCM55SetDbgPort_DISABLE)] @
     map (\<lambda>p. Do (Pm (cy_pd_ppu_set_power_mode_OFF p))) [PPU_PD1, PPU_SOCMEM, PPU_APPCPUSS, PPU_APPCPU, PPU_U55] @
     map (\<lambda>i. Do (Clk (Cy_SysClk_ClkHfDisable i))) s_unused_hf_clocks @
     [Do (Clk (Cy_SysClk_DpllLpDisable 1)), Do (Clk (Cy_SysClk_DpllHpDisable 0))] @
     concat (map (\<lambda>p. if p = KEEP_PORT_PM_BUSY \<or> p = KEEP_PORT_LEDS then [] else [Do (Pm (Cy_GPIO_Port_Deinit p))])
       (map of_nat [0..<PSE84_GPIO_PORT_COUNT])) @
     [Do (Out (printk ''[pm-boot] trimmed SOCMEM, SMIF0/1, PD1 (APP domain), HF{1..9,11..13}, DPLL_LP1, DPLL_HP, GPIO ports (kept 3, 16)'' []))]"

lemma follows_for_tell: "follows (for_each xs (\<lambda>x. tell env (f x))) (map (\<lambda>x. Do (f x)) xs)"
proof -
  have "concat (map (\<lambda>x. [Do (f x)]) xs) = map (\<lambda>x. Do (f x)) xs" by (induction xs) simp_all
  then show ?thesis using follows_for_each [where xs = xs and body = "\<lambda>x. tell env (f x)" and sc = "\<lambda>x. [Do (f x)]", OF follows_tell] by simp
qed

lemma follows_boot: "follows (pm_boot_optimize env M :: ('z, int) soc_prog) (boot_script M)"
proof -
  let ?ports = "concat (map (\<lambda>p. if p = KEEP_PORT_PM_BUSY \<or> p = KEEP_PORT_LEDS then []
      else [Do (Pm (Cy_GPIO_Port_Deinit p))]) (map of_nat [0..<PSE84_GPIO_PORT_COUNT]))"
  have ports: "follows (trim_unused_gpio_ports env :: ('z, unit) soc_prog) ?ports"
    unfolding trim_unused_gpio_ports_def
    by (intro follows_for_each follows_if follows_return follows_tell)
  show ?thesis
    unfolding pm_boot_optimize_def trim_socmem_def trim_smif_def trim_app_domain_def
      trim_unused_hf_clocks_def trim_unused_plls_def
    by (rule follows_eq, (rule follows_bind follows_tell follows_rmw follows_return follows_for_tell ports)+)
      (simp add: boot_script_def)
qed

text \<open>Views of the record of calls.\<close>

fun hf_gated :: "soc_call \<Rightarrow> nat option" where
  "hf_gated (Clk (Cy_SysClk_ClkHfDisable i)) = Some i" | "hf_gated c = None"

fun port_off :: "soc_call \<Rightarrow> u32 option" where
  "port_off (Pm (Cy_GPIO_Port_Deinit p)) = Some p" | "port_off c = None"

fun ppu_off :: "soc_call \<Rightarrow> ppu option" where
  "ppu_off (Pm (cy_pd_ppu_set_power_mode_OFF p)) = Some p" | "ppu_off c = None"

text \<open>A PLL switched off: LP1 is 1, and HP is 2.\<close>

fun pll_off :: "soc_call \<Rightarrow> nat option" where
  "pll_off (Clk (Cy_SysClk_DpllLpDisable i)) = Some i"
| "pll_off (Clk (Cy_SysClk_DpllHpDisable i)) = Some (2 + i)"
| "pll_off c = None"

text \<open>The steps whose order the hardware requires.\<close>

fun stage :: "soc_call \<Rightarrow> nat option" where
  "stage (Pm (Cy_SysEnableSOCMEM b)) = Some 0"
| "stage (Pm cy_pd_pdcm_clear_dependency_APPCPUSS_SYSCPU) = Some 1"
| "stage (Pm Cy_SysCM55SetDbgPort_DISABLE) = Some 1"
| "stage (Pm (cy_pd_ppu_set_power_mode_OFF p)) = Some 2"
| "stage (Clk (Cy_SysClk_ClkHfDisable i)) = Some 3"
| "stage (Clk (Cy_SysClk_DpllLpDisable i)) = Some 4"
| "stage (Clk (Cy_SysClk_DpllHpDisable i)) = Some 4"
| "stage c = None"

lemma seen_append [simp]: "seen p (xs @ ys) = seen p xs @ seen p ys"
  by (simp add: seen_def List.map_filter_def)

lemma seen_simps [simp]:
  "seen p [] = []"
  "seen p (Do c # is) = (case p c of None \<Rightarrow> seen p is | Some x \<Rightarrow> x # seen p is)"
  "seen p (Rmw r f # is) = seen p is"
  by (simp_all add: seen_def map_filter_simps split: option.split)

lemma ports_upt: "map of_nat [0..<PSE84_GPIO_PORT_COUNT] =
    ([0, 1, 2, 3, 4, 5, 6, 7, 8, 9, 10, 11, 12, 13, 14, 15, 16, 17, 18, 19, 20, 21] :: u32 list)"
  by (simp add: PSE84_GPIO_PORT_COUNT_def upt_rec)

text \<open>
  Property C39. The boot trims gate the root clocks 1 to 9 and 11 to 13 and no other, so never the
  core clock HF0 nor the console clock HF10; switch off the PLLs LP1 and HP but not LP0; take the
  five power domains of the application side down; and reset every GPIO port but 3 (the trigger)
  and 16 (the LEDs). The order is the one the hardware needs: the SOCMEM controller, the
  dependency and debug port, the domains, the root clocks, the PLLs. Each register the code writes
  it has just read, and it only clears the enable bit.
\<close>

theorem boot_trims_keep_demo:
  "let new = made (pm_boot_optimize env M) s; cs = map fst new in
   List.map_filter hf_gated cs = [1, 2, 3, 4, 5, 6, 7, 8, 9, 11, 12, 13] \<and>
   List.map_filter pll_off cs = [1, 2] \<and>
   List.map_filter ppu_off cs = [PPU_PD1, PPU_SOCMEM, PPU_APPCPUSS, PPU_APPCPU, PPU_U55] \<and>
   List.map_filter port_off cs = [0, 1, 2, 4, 5, 6, 7, 8, 9, 10, 11, 12, 13, 14, 15, 17, 18, 19, 20, 21] \<and>
   sorted (List.map_filter stage cs) \<and>
   rmw_only (\<lambda>r v w. r \<in> {SMIF0_CORE_CTL, SMIF1_CORE_CTL} \<and> w = v AND NOT (SMIF_CORE_CTL_ENABLED_Msk M)) new"
proof -
  have m: "matches (boot_script M) (made (pm_boot_optimize env M) s)"
    by (rule follows_made [OF follows_boot])
  note see = matches_seen [OF _ _ m]
  have "List.map_filter hf_gated (map fst (made (pm_boot_optimize env M) s)) = seen hf_gated (boot_script M)"
    "List.map_filter pll_off (map fst (made (pm_boot_optimize env M) s)) = seen pll_off (boot_script M)"
    "List.map_filter ppu_off (map fst (made (pm_boot_optimize env M) s)) = seen ppu_off (boot_script M)"
    "List.map_filter port_off (map fst (made (pm_boot_optimize env M) s)) = seen port_off (boot_script M)"
    "List.map_filter stage (map fst (made (pm_boot_optimize env M) s)) = seen stage (boot_script M)"
    by (rule see; simp)+
  moreover have "rmw_only (\<lambda>r v w. r \<in> {SMIF0_CORE_CTL, SMIF1_CORE_CTL} \<and>
      w = v AND NOT (SMIF_CORE_CTL_ENABLED_Msk M)) (made (pm_boot_optimize env M) s)"
    by (rule matches_rmw_only [OF m])
      (simp add: boot_script_def plain_call_def written_def read_by_def s_unused_hf_clocks_def ports_upt KEEP_PORT_PM_BUSY_def
        KEEP_PORT_LEDS_def)
  ultimately show ?thesis
    by (simp add: Let_def boot_script_def s_unused_hf_clocks_def ports_upt KEEP_PORT_PM_BUSY_def
        KEEP_PORT_LEDS_def)
qed

text \<open>The static deep-sleep preparation changes one bit in each of two registers and never touches PILO.\<close>

definition deep_sleep_script :: "masks \<Rightarrow> item list" where
  "deep_sleep_script M =
     [Do (Pm Cy_SysPm_Init),
      Rmw SRSS_PWR_CTL2 (\<lambda>v. v OR SRSS_PWR_CTL2_BGREF_LPMODE_Msk M),
      Do (Pm Cy_SysPm_CoreBuckDpslpSetVoltage_0_70V), Do (Pm Cy_SysPm_CoreBuckDpslpSetMode_LP),
      Do (Pm (Cy_SysPm_CoreBuckDpslpEnableOverride True)),
      Do (Clk Cy_SysClk_IhoDeepsleepDisable),
      Rmw SRSS_CLK_IMO_CONFIG (\<lambda>v. v AND NOT (SRSS_CLK_IMO_CONFIG_DPSLP_ENABLE_Msk M)),
      Do (Clk Cy_SysClk_ClkBakSetSource_PILO),
      Do (Pm (Cy_SysPm_SetDeepSleepMode CY_SYSPM_MODE_DEEPSLEEP))]"

lemma follows_deep_sleep_init: "follows (pm_deep_sleep_init env M :: ('z, int) soc_prog) (deep_sleep_script M)"
  unfolding pm_deep_sleep_init_def deep_sleep_bgref_lp_def deep_sleep_buck_config_def
    deep_sleep_stop_osc_def deep_sleep_backup_clock_def
  by (rule follows_eq, (rule follows_intros)+) (simp add: deep_sleep_script_def)

end
