(* ===== verification/Pm_Cmds.thy ===== *)
theory Pm_Cmds
  imports Pm_Hf0 Pm_Boot
begin

text \<open>
  The shell of \<open>apps/06_pse84_m33_s_shell_ulp_lp_hp\<close> (with byte-identical copies in 07a):
  \<open>shell_cmds.c\<close>, \<open>cmd_sleep.c\<close>, \<open>cmd_deep_sleep.c\<close>, \<open>cmd_noidle.c\<close> and \<open>main.c\<close>. The commands are
  clients of \<open>power_manager.h\<close>, which is the record \<open>mode_manager\<close>: the lemmas on sessions are proved
  in the locale \<open>mode_switching\<close>, which states its contract. Every \<open>pm_strategy\<close> gives such a manager;
  app 07 provides another (\<open>Pm_Ns\<close>), with the same shell.
\<close>

section \<open>Mode commands\<close>

record 'z mode_manager =
  mm_current_mode :: "('z, pm_mode_t) soc_prog"
  mm_mode_name :: "pm_mode_t \<Rightarrow> string"
  mm_switch_to :: "pm_mode_t \<Rightarrow> ('z, int option) soc_prog"
  mm_clock_probe :: "('z, unit option) soc_prog"

definition do_mode_switch ::
  "soc_env \<Rightarrow> 'z mode_manager \<Rightarrow> pm_mode_t \<Rightarrow> int \<Rightarrow> int \<Rightarrow> ('z, int option) soc_prog" where
  "do_mode_switch env mgr target red green = do {
     tell env (Out (shell_print ''switching to %s'' [Str (mm_mode_name mgr target)]));
     gpio_indicators_set_mode_leds env red green;
     obind (mm_switch_to mgr target) (\<lambda>rc.
       if rc \<noteq> 0 then do {
         tell env (Out (shell_error ''power mode switch failed (%d)'' [SInt rc]));
         return (Some rc)
       }
       else do {
         m \<leftarrow> mm_current_mode mgr;
         tell env (Out (shell_print ''now in %s'' [Str (mm_mode_name mgr m)]));
         return (Some 0)
       })
   }"

definition cmd_ulp :: "soc_env \<Rightarrow> 'z mode_manager \<Rightarrow> ('z, int option) soc_prog" where
  "cmd_ulp env mgr = do_mode_switch env mgr PM_MODE_ULP 0 1"

definition cmd_lp :: "soc_env \<Rightarrow> 'z mode_manager \<Rightarrow> ('z, int option) soc_prog" where
  "cmd_lp env mgr = do_mode_switch env mgr PM_MODE_LP 1 0"

definition cmd_hp :: "soc_env \<Rightarrow> 'z mode_manager \<Rightarrow> ('z, int option) soc_prog" where
  "cmd_hp env mgr = do_mode_switch env mgr PM_MODE_HP 0 0"

definition cmd_probe :: "'z mode_manager \<Rightarrow> ('z, int option) soc_prog" where
  "cmd_probe mgr = obind (mm_clock_probe mgr) (\<lambda>_. return (Some 0))"

text \<open>The manager of app 06, for any of its strategies.\<close>

definition core_manager :: "soc_env \<Rightarrow> nat \<Rightarrow> 'z strategy \<Rightarrow> 'z mode_manager" where
  "core_manager env fuel strat =
     \<lparr>mm_current_mode = pm_current_mode, mm_mode_name = pm_mode_name strat,
      mm_switch_to = pm_switch_to env fuel strat,
      mm_clock_probe = do { pm_clock_probe env strat; return (Some ()) }\<rparr>"

section \<open>Sleep commands\<close>

definition cmd_sleep :: "soc_env \<Rightarrow> ('z, int) soc_prog" where
  "cmd_sleep env = do {
     gpio_indicators_transition_begin env;
     tell env (Out (shell_print ''entering CPU sleep -- press any key to wake'' []));
     tell env (Cpu (k_msleep 20));
     gpio_indicators_transition_end env;
     t_enter \<leftarrow> ask env (Cpu k_cycle_get_32);
     tell env (Cpu disable_irq);
     tell env (Cpu (irq_unlock 0));
     tell env (Cpu DSB);
     tell env (Cpu WFI);
     tell env (Cpu enable_irq);
     t_exit \<leftarrow> ask env (Cpu k_cycle_get_32);
     gpio_indicators_transition_begin env;
     let dwell_cyc = t_exit - t_enter;
     dwell_us \<leftarrow> ask env (Cpu (k_cyc_to_us_floor32 dwell_cyc));
     tell env (Out (shell_print ''woke after %u us (%u LPTIMER cycles @ 32768 Hz)''
       [Num dwell_us, Num dwell_cyc]));
     gpio_indicators_transition_end env;
     return 0
   }"

definition cmd_deep_sleep :: "soc_env \<Rightarrow> masks \<Rightarrow> ('z, int) soc_prog" where
  "cmd_deep_sleep env M = do {
     gpio_indicators_transition_begin env;
     tell env (Out (shell_print ''entering CPU deep sleep -- wakes on LPTIMER tick'' []));
     tell env (Cpu (k_msleep 20));
     gpio_indicators_transition_end env;
     t_enter \<leftarrow> ask env (Cpu k_cycle_get_32);
     tell env (Cpu disable_irq);
     tell env (Cpu (irq_unlock 0));
     tell env (Cpu DSB);
     tell env (Pm Cy_SysPm_CpuEnterDeepSleep);
     rmw env SCB_SCR (\<lambda>v. v AND NOT (SCB_SCR_SLEEPDEEP_Msk M));
     tell env (Cpu enable_irq);
     t_exit \<leftarrow> ask env (Cpu k_cycle_get_32);
     gpio_indicators_transition_begin env;
     let dwell_cyc = t_exit - t_enter;
     dwell_us \<leftarrow> ask env (Cpu (k_cyc_to_us_floor32 dwell_cyc));
     tell env (Out (shell_print ''woke after %u us (%u LPTIMER cycles @ 32768 Hz)''
       [Num dwell_us, Num dwell_cyc]));
     gpio_indicators_transition_end env;
     return 0
   }"

text \<open>
  The calls of the two commands, for the cycle counts \<open>t0\<close> and \<open>t1\<close> read around the wait and the
  dwell \<open>us\<close> in microseconds. \<open>wait\<close> is what happens while interrupts are masked.
\<close>

definition sleep_calls :: "string \<Rightarrow> soc_call list \<Rightarrow> u32 \<Rightarrow> u32 \<Rightarrow> soc_call list" where
  "sleep_calls banner wait dwell us =
     [Gpio (gpio_pin_set_dt pm_busy 1), Out (shell_print banner []), Cpu (k_msleep 20),
      Gpio (gpio_pin_set_dt pm_busy 0), Cpu k_cycle_get_32,
      Cpu disable_irq, Cpu (irq_unlock 0), Cpu DSB] @ wait @ [Cpu enable_irq,
      Cpu k_cycle_get_32, Gpio (gpio_pin_set_dt pm_busy 1), Cpu (k_cyc_to_us_floor32 dwell),
      Out (shell_print ''woke after %u us (%u LPTIMER cycles @ 32768 Hz)'' [Num us, Num dwell]),
      Gpio (gpio_pin_set_dt pm_busy 0)]"

lemma cmd_sleep_runs:
  "runs (cmd_sleep env) (\<lambda>y h. y = 0 \<and>
     (\<exists>us. map fst h = sleep_calls ''entering CPU sleep -- press any key to wake'' [Cpu WFI]
        (snd (h ! 10) - snd (h ! 4)) us \<and> us = snd (h ! 12)))"
  unfolding cmd_sleep_def gpio_indicators_transition_begin_def gpio_indicators_transition_end_def Let_def
  by (rule runs_conseq, (rule runs_intros)+) (auto simp: sleep_calls_def nth_Cons' numeral_eq_Suc)

lemma cmd_deep_sleep_runs:
  "runs (cmd_deep_sleep env M) (\<lambda>y h. y = 0 \<and>
     (\<exists>us v. map fst h = sleep_calls ''entering CPU deep sleep -- wakes on LPTIMER tick''
        [Pm Cy_SysPm_CpuEnterDeepSleep, Rd SCB_SCR, Wr SCB_SCR (v AND NOT (SCB_SCR_SLEEPDEEP_Msk M))]
        (snd (h ! 12) - snd (h ! 4)) us \<and> v = snd (h ! 9) \<and> us = snd (h ! 14)))"
  unfolding cmd_deep_sleep_def gpio_indicators_transition_begin_def gpio_indicators_transition_end_def Let_def
  by (rule runs_conseq, (rule runs_intros)+) (auto simp: sleep_calls_def nth_Cons' numeral_eq_Suc)

section \<open>The idle hook\<close>

definition z_arm_on_enter_cpu_idle :: "('z, bool) soc_prog" where
  "z_arm_on_enter_cpu_idle = gets (\<lambda>s. \<not> s_prevent_idle s)"

definition cmd_noidle :: "soc_env \<Rightarrow> string list \<Rightarrow> ('z, int) soc_prog" where
  "cmd_noidle env argv =
     (if length argv = 1 then do {
        on \<leftarrow> gets s_prevent_idle;
        tell env (Out (shell_print ''noidle is %s'' [Str (if on then ''on'' else ''off'')]));
        return 0
      }
      else if length argv \<noteq> 2 then do {
        tell env (Out (shell_error ''usage: noidle [on|off]'' []));
        return (- EINVAL)
      }
      else if argv ! 1 = ''on'' then do {
        modify (s_prevent_idle_update (\<lambda>_. True));
        tell env (Out (shell_print ''noidle on -- CPU spins in idle (no WFI)'' []));
        return 0
      }
      else if argv ! 1 = ''off'' then do {
        modify (s_prevent_idle_update (\<lambda>_. False));
        tell env (Out (shell_print ''noidle off -- WFI in idle (default)'' []));
        return 0
      }
      else do {
        tell env (Out (shell_error ''usage: noidle [on|off]'' []));
        return (- EINVAL)
      })"

section \<open>Start-up and sessions\<close>

definition shell_main :: "soc_env \<Rightarrow> 'z strategy \<Rightarrow> ('z, int) soc_prog" where
  "shell_main env strat = do {
     tell env (Out (printf ''CM33-S shell-power-mode on %s'' []));
     rc \<leftarrow> gpio_indicators_init env;
     (if rc < 0 then tell env (Out (printf ''CM33-S: GPIO indicators init failed'' [])) else return ());
     pm_init env strat;
     m \<leftarrow> pm_current_mode;
     tell env (Out (printf ''CM33-S: initial power mode %s'' [Str (pm_mode_name strat m)]));
     return 0
   }"

datatype command = Ulp | Lp | Hp | Probe | Sleep | Deep_sleep | Noidle "string list"

fun run_command :: "soc_env \<Rightarrow> masks \<Rightarrow> 'z mode_manager \<Rightarrow> command \<Rightarrow> ('z, int option) soc_prog" where
  "run_command env M mgr Ulp = cmd_ulp env mgr"
| "run_command env M mgr Lp = cmd_lp env mgr"
| "run_command env M mgr Hp = cmd_hp env mgr"
| "run_command env M mgr Probe = cmd_probe mgr"
| "run_command env M mgr Sleep = do { r \<leftarrow> cmd_sleep env; return (Some r) }"
| "run_command env M mgr Deep_sleep = do { r \<leftarrow> cmd_deep_sleep env M; return (Some r) }"
| "run_command env M mgr (Noidle argv) = do { r \<leftarrow> cmd_noidle env argv; return (Some r) }"

text \<open>A session: the commands one after the other, with the codes they return.\<close>

primrec run_session ::
  "soc_env \<Rightarrow> masks \<Rightarrow> 'z mode_manager \<Rightarrow> command list \<Rightarrow> ('z, int list option) soc_prog" where
  "run_session env M mgr [] = return (Some [])"
| "run_session env M mgr (c # cs) =
     obind (run_command env M mgr c) (\<lambda>rc.
     obind (run_session env M mgr cs) (\<lambda>rcs. return (Some (rc # rcs))))"

section \<open>What a session means\<close>

text \<open>
  The abstract state: the mode, the levels of the two LEDs, and whether idle is prevented. A mode
  command moves the LEDs to its target before it knows whether the switch succeeds.
\<close>

record view =
  v_mode :: pm_mode_t
  v_leds :: "int \<times> int"
  v_noidle :: bool

fun leds_for :: "pm_mode_t \<Rightarrow> int \<times> int" where
  "leds_for PM_MODE_ULP = (0, 1)"
| "leds_for PM_MODE_LP = (1, 0)"
| "leds_for _ = (0, 0)"

definition view_switch :: "pm_mode_t \<Rightarrow> int \<Rightarrow> view \<Rightarrow> view" where
  "view_switch m rc v = v\<lparr>v_leds := leds_for m, v_mode := (if rc = 0 then m else v_mode v)\<rparr>"

fun view_step :: "command \<times> int \<Rightarrow> view \<Rightarrow> view" where
  "view_step (Ulp, rc) v = view_switch PM_MODE_ULP rc v"
| "view_step (Lp, rc) v = view_switch PM_MODE_LP rc v"
| "view_step (Hp, rc) v = view_switch PM_MODE_HP rc v"
| "view_step (Noidle argv, rc) v =
     (if length argv = 2 \<and> rc = 0 then v\<lparr>v_noidle := (argv ! 1 = ''on'')\<rparr> else v)"
| "view_step (_, rc) v = v"

definition view_of :: "'z soc_scheme \<Rightarrow> view" where
  "view_of s = \<lparr>v_mode = s_current_mode s,
     v_leds = (pin_level led_red (calls s), pin_level led_green (calls s)),
     v_noidle = s_prevent_idle s\<rparr>"

text \<open>A state between commands: a defined mode, and the busy trigger low.\<close>

definition at_prompt :: "'z soc_scheme \<Rightarrow> bool" where
  "at_prompt s \<longleftrightarrow> valid_mode (s_current_mode s) \<and> pin_level pm_busy (calls s) = 0"

text \<open>The level of a pin, one call further.\<close>

definition level_step :: "pin \<Rightarrow> soc_call \<times> u32 \<Rightarrow> int \<Rightarrow> int" where
  "level_step p e v =
     (case fst e of Gpio (gpio_pin_set_dt q w) \<Rightarrow> if q = p then w else v | _ \<Rightarrow> v)"

lemma pin_level_fold: "pin_level p (h @ k) = fold (level_step p) k (pin_level p h)"
proof (induction k rule: rev_induct)
  case (snoc e k)
  have "pin_level p ((h @ k) @ [e]) = level_step p e (pin_level p (h @ k))"
    by (cases e) (simp add: level_step_def del: append_assoc)
  with snoc show ?case by simp
qed simp

lemma level_step_simps [simp]:
  "level_step p (Gpio (gpio_pin_set_dt q w), r) v = (if q = p then w else v)"
  "level_step p (Out x, r) v = v" "level_step p (Cpu y, r) v = v" "level_step p (Pm z, r) v = v"
  "level_step p (Rd a, r) v = v" "level_step p (Wr a b, r) v = v" "level_step p (Clk d, r) v = v"
  by (simp_all add: level_step_def)

lemma pin_level_benign: "list_all (benign \<circ> fst) new \<Longrightarrow> pin_level p (h @ new) = pin_level p h"
  by (rule pin_level_other) (auto simp: list_all_iff benign_no_pin)

lemma pin_level_pulse: "pin_level p (pulse_begin env h) = (if p = pm_busy then 1 else pin_level p h)"
proof -
  have "pulse_begin env h = (h @ [(Cpu k_cycle_get_32, env h (Cpu k_cycle_get_32))]) @
      [(Gpio (gpio_pin_set_dt pm_busy 1), env (h @ [(Cpu k_cycle_get_32, env h (Cpu k_cycle_get_32))])
        (Gpio (gpio_pin_set_dt pm_busy 1)))]"
    by (simp add: pulse_begin_def Let_def)
  then show ?thesis by (simp only: pin_level_snoc) simp
qed

lemma pin_level_pulse_end:
  assumes "list_all (benign \<circ> fst) new"
  shows "pin_level p (h @ (Gpio (gpio_pin_set_dt pm_busy 0), x) # (Cpu k_cycle_get_32, y) # new) =
    (if p = pm_busy then 0 else pin_level p h)"
proof -
  have "pin_level p ((h @ [(Gpio (gpio_pin_set_dt pm_busy 0), x)]) @ (Cpu k_cycle_get_32, y) # new) =
      pin_level p (h @ [(Gpio (gpio_pin_set_dt pm_busy 0), x)])"
    by (rule pin_level_benign) (use assms in simp)
  then show ?thesis by simp
qed

lemma sleep_calls_level:
  assumes "map fst k = sleep_calls b w d us" and "list_all (\<lambda>c. \<not> sets_pin c) w"
  shows "pin_level p (h @ k) = (if p = pm_busy then 0 else pin_level p h)"
proof -
  have step: "level_step p e v = level_step p (fst e, 0) v" for e :: "soc_call \<times> u32" and v
    by (simp add: level_step_def)
  have "fold (level_step p) k v = fold (\<lambda>c. level_step p (c, 0)) (map fst k) v" for v
    by (induction k arbitrary: v) (simp_all add: step [symmetric])
  moreover have "fold (\<lambda>c. level_step p (c, 0)) w v = v" for v
    using assms(2)
    by (induction w arbitrary: v) (auto simp: level_step_def split: soc_call.splits gpio_call.splits)
  ultimately show ?thesis by (simp add: pin_level_fold assms(1) sleep_calls_def)
qed

lemma noidle_view:
  assumes "at_prompt s" and "run_state (cmd_noidle env argv) s = (rc, t)"
  shows "at_prompt t \<and> view_of t = view_step (Noidle argv, rc) (view_of s)"
  using assms by (auto simp: cmd_noidle_def at_prompt_def view_of_def split: if_splits)

lemma sleep_runs_view:
  assumes "runs m (\<lambda>y h. \<exists>b w d us. map fst h = sleep_calls b w d us \<and> list_all (\<lambda>c. \<not> sets_pin c) w)"
    and "at_prompt s"
  shows "at_prompt (final m s) \<and> view_of (final m s) = view_of s"
proof -
  have f: "final m s = s\<lparr>calls := calls s @ made m s\<rparr>"
    and q: "\<exists>b w d us. map fst (made m s) = sleep_calls b w d us \<and> list_all (\<lambda>c. \<not> sets_pin c) w"
    by (rule runsE [OF assms(1), where s = s], assumption)+
  have "pin_level p (calls (final m s)) = (if p = pm_busy then 0 else pin_level p (calls s))" for p
    using q by (subst f) (auto simp: sleep_calls_level)
  with f assms(2) show ?thesis by (simp add: at_prompt_def view_of_def)
qed

lemma sleep_view:
  "at_prompt s \<Longrightarrow> at_prompt (final (cmd_sleep env) s) \<and> view_of (final (cmd_sleep env) s) = view_of s"
  "at_prompt s \<Longrightarrow> at_prompt (final (cmd_deep_sleep env M) s) \<and>
     view_of (final (cmd_deep_sleep env M) s) = view_of s"
proof -
  have w: "list_all (\<lambda>c. \<not> sets_pin c) [Cpu WFI]"
    "list_all (\<lambda>c. \<not> sets_pin c) [Pm Cy_SysPm_CpuEnterDeepSleep, Rd a, Wr b v]" for a b v
    by simp_all
  show "at_prompt s \<Longrightarrow> at_prompt (final (cmd_sleep env) s) \<and> view_of (final (cmd_sleep env) s) = view_of s"
    by (rule sleep_runs_view) (rule runs_conseq [OF cmd_sleep_runs], use w(1) in blast)
  show "at_prompt s \<Longrightarrow> at_prompt (final (cmd_deep_sleep env M) s) \<and>
     view_of (final (cmd_deep_sleep env M) s) = view_of s"
    by (rule sleep_runs_view) (rule runs_conseq [OF cmd_deep_sleep_runs], use w(2) in blast)
qed

text \<open>Programs that keep what the shell shows.\<close>

definition keeps_view :: "view \<Rightarrow> ('z soc_scheme, 'a) state \<Rightarrow> bool" where
  "keeps_view V m \<longleftrightarrow> (\<forall>s. at_prompt s \<and> view_of s = V \<longrightarrow> at_prompt (final m s) \<and> view_of (final m s) = V)"

named_theorems keeps_view_intros "programs that keep what the shell shows"

lemma keeps_view_quiet:
  assumes "quiet (\<lambda>c. \<not> sets_pin c) m"
  shows "keeps_view V m"
  unfolding keeps_view_def
proof (intro allI impI)
  fix s
  obtain new where "final m s = s\<lparr>calls := calls s @ new\<rparr>" "list_all ((\<lambda>c. \<not> sets_pin c) \<circ> fst) new"
    by (rule quietE [OF assms])
  then show "at_prompt s \<and> view_of s = V \<Longrightarrow> at_prompt (final m s) \<and> view_of (final m s) = V"
    by (auto simp: at_prompt_def view_of_def pin_level_other)
qed

lemma keeps_view_bind [keeps_view_intros]: "keeps_view V m \<Longrightarrow> (\<And>x. keeps_view V (f x)) \<Longrightarrow> keeps_view V (m \<bind> f)"
  by (simp add: keeps_view_def split_beta)

lemma keeps_view_obind [keeps_view_intros]: "keeps_view V m \<Longrightarrow> (\<And>x. keeps_view V (f x)) \<Longrightarrow> keeps_view V (obind m f)"
  unfolding obind_def
  by (rule keeps_view_bind) (auto simp: keeps_view_def split: option.split)

lemma keeps_view_split [keeps_view_intros]: "(\<And>a b. keeps_view V (f a b)) \<Longrightarrow> keeps_view V (case p of (a, b) \<Rightarrow> f a b)"
  by (simp add: split_beta)

text \<open>What the shell relies on: a switch does what its code says, a probe changes nothing to see.\<close>

locale mode_switching =
  fixes mgr :: "'z mode_manager"
  assumes switch_law: "at_prompt s \<Longrightarrow> valid_mode m \<Longrightarrow> run_state (mm_switch_to mgr m) s = (Some rc, t) \<Longrightarrow>
      at_prompt t \<and> view_of t = (view_of s)\<lparr>v_mode := (if rc = 0 then m else v_mode (view_of s))\<rparr>"
    and probe_law: "at_prompt s \<Longrightarrow> run_state (mm_clock_probe mgr) s = (r, t) \<Longrightarrow>
      at_prompt t \<and> view_of t = view_of s"
    and current_law: "mm_current_mode mgr = gets s_current_mode"
begin

lemma mode_switch_view:
  assumes "at_prompt s" and "valid_mode m" and "leds_for m = (red, green)"
    and run: "run_state (do_mode_switch env mgr m red green) s = (Some rc, t)"
  shows "at_prompt t \<and> view_of t = view_switch m rc (view_of s)"
proof -
  let ?pre = "do { tell env (Out (shell_print ''switching to %s'' [Str (mm_mode_name mgr m)]));
      gpio_indicators_set_mode_leds env red green }"
  let ?s1 = "final ?pre s"
  have p1: "at_prompt ?s1"
    using assms(1) by (simp add: at_prompt_def gpio_indicators_set_mode_leds_def pin_level_fold)
  have v1: "view_of ?s1 = (view_of s)\<lparr>v_leds := (red, green)\<rparr>"
    by (simp add: view_of_def gpio_indicators_set_mode_leds_def pin_level_fold)
  obtain q u where sw: "run_state (mm_switch_to mgr m) ?s1 = (q, u)" by fastforce
  have run': "run_state (do_mode_switch env mgr m red green) s =
      (case q of None \<Rightarrow> (None, u) | Some k \<Rightarrow>
        run_state (if k \<noteq> 0 then do {
            tell env (Out (shell_error ''power mode switch failed (%d)'' [SInt k])); return (Some k) }
          else do { m \<leftarrow> mm_current_mode mgr;
            tell env (Out (shell_print ''now in %s'' [Str (mm_mode_name mgr m)])); return (Some 0) }) u)"
    using sw by (simp add: do_mode_switch_def run_obind gpio_indicators_set_mode_leds_def split: option.split)
  then obtain k where q: "q = Some k" using run by (cases q) auto
  have vu: "at_prompt u" "view_of u = (view_of ?s1)\<lparr>v_mode := (if k = 0 then m else v_mode (view_of ?s1))\<rparr>"
    using switch_law [OF p1 assms(2) sw [unfolded q]] by simp_all
  have "rc = k \<and> at_prompt t \<and> view_of t = view_of u"
    using run run' q vu(1) by (auto simp: current_law at_prompt_def view_of_def split: if_splits)
  with vu v1 assms(3) show ?thesis by (simp add: view_switch_def)
qed

lemma probe_view:
  assumes "at_prompt s" and "run_state (cmd_probe mgr) s = (Some rc, t)"
  shows "at_prompt t \<and> view_of t = view_of s"
proof -
  obtain r u where "run_state (mm_clock_probe mgr) s = (r, u)" by fastforce
  with assms probe_law [OF assms(1) this] show ?thesis
    by (auto simp: cmd_probe_def run_obind split: option.splits)
qed

lemma command_view:
  assumes p: "at_prompt s" and run: "run_state (run_command env M mgr c) s = (Some rc, t)"
  shows "at_prompt t \<and> view_of t = view_step (c, rc) (view_of s)"
proof (cases c)
  case Ulp
  with mode_switch_view [OF p, of PM_MODE_ULP 0 1 env rc t] run show ?thesis by (simp add: cmd_ulp_def)
next
  case Lp
  with mode_switch_view [OF p, of PM_MODE_LP 1 0 env rc t] run show ?thesis by (simp add: cmd_lp_def)
next
  case Hp
  with mode_switch_view [OF p, of PM_MODE_HP 0 0 env rc t] run show ?thesis by (simp add: cmd_hp_def)
next
  case Probe
  with probe_view [OF p] run show ?thesis by simp
next
  case Sleep
  with sleep_view(1) [OF p, of env] run show ?thesis by (auto simp: split_beta)
next
  case Deep_sleep
  with sleep_view(2) [OF p, of env M] run show ?thesis by (auto simp: split_beta)
next
  case (Noidle argv)
  with noidle_view [OF p, of env argv rc t] run show ?thesis by (simp add: prod_eq_iff split_beta)
qed

lemma session_view:
  assumes "at_prompt s" and "run_state (run_session env M mgr cs) s = (Some rcs, t)"
  shows "length rcs = length cs \<and> at_prompt t \<and> view_of t = fold view_step (zip cs rcs) (view_of s)"
  using assms
proof (induction cs arbitrary: s rcs)
  case (Cons c cs)
  from Cons.prems(2) obtain rc u rs where
    c: "run_state (run_command env M mgr c) s = (Some rc, u)" and
    cs: "run_state (run_session env M mgr cs) u = (Some rs, t)" and rcs: "rcs = rc # rs"
    by (auto simp: run_obind split: prod.splits option.splits)
  from Cons.IH [OF _ cs] command_view [OF Cons.prems(1) c] rcs show ?case by simp
qed simp

end

text \<open>A strategy with the contract of \<open>Pm_Core\<close> gives a manager with this one.\<close>

context pm_strategy begin

lemma switch_view:
  assumes "at_prompt s" and "valid_mode target"
    and run: "run_state (pm_switch_to env fuel strat target) s = (Some rc, t)"
  shows "at_prompt t \<and> view_of t = (view_of s)\<lparr>v_mode := (if rc = 0 then target else v_mode (view_of s))\<rparr>"
proof (cases "target = s_current_mode s")
  case True
  then have "t = s" using run by (simp add: pm_switch_to_def)
  with True run assms(1) show ?thesis by (simp add: view_of_def)
next
  case False
  let ?s1 = "s\<lparr>calls := pulse_begin env (calls s)\<rparr>"
  let ?tr = "pm_strategy_transition strat (s_current_mode s) target"
  obtain r u where tr: "run_state ?tr ?s1 = (r, u)" by fastforce
  have "confined (\<lambda>c. \<not> sets_pin c) ?tr" by (rule transition_confined)
  then obtain new where u: "s_prevent_idle u = s_prevent_idle s"
    "calls u = pulse_begin env (calls s) @ new" "list_all ((\<lambda>c. \<not> sets_pin c) \<circ> fst) new"
    unfolding confined_def using tr by (elim allE [of _ ?s1]) auto
  obtain rc' where r: "r = Some rc'"
    using switch_to_run [OF False assms(2), of env fuel] tr run by (cases r) auto
  obtain new' x y where t: "rc' = rc"
    "t = u\<lparr>s_current_mode := (if rc = 0 then target else s_current_mode s),
       calls := calls u @ (Gpio (gpio_pin_set_dt pm_busy 0), x) # (Cpu k_cycle_get_32, y) # new'\<rparr>"
    "list_all (benign \<circ> fst) new'"
    using switch_to_run [OF False assms(2), of env fuel] tr run r by auto
  have "pin_level p (calls t) = (if p = pm_busy then 0 else pin_level p (calls s))" for p
  proof -
    have "pin_level p (calls t) = (if p = pm_busy then 0 else pin_level p (calls u))"
      by (simp add: t(2) pin_level_pulse_end [OF t(3)])
    then show ?thesis by (simp add: u(2) pin_level_other [OF u(3)] pin_level_pulse)
  qed
  with t(2) u(1) assms show ?thesis
    by (simp add: at_prompt_def view_of_def)
qed

lemma core_probe_view:
  assumes "at_prompt s"
  shows "at_prompt (final (pm_clock_probe env strat) s) \<and> view_of (final (pm_clock_probe env strat) s) = view_of s"
proof -
  obtain new where "final (pm_clock_probe env strat) s = s\<lparr>calls := calls s @ new\<rparr>" "list_all (benign \<circ> fst) new"
    by (rule quietE [OF quiet_clock_probe [OF probe_quiet]])
  with assms show ?thesis by (simp add: at_prompt_def view_of_def pin_level_benign)
qed

lemma boot_view:
  assumes boot: "calls s0 = []" "\<not> s_prevent_idle s0"
  shows "at_prompt (final (shell_main env strat) s0)"
  and "view_of (final (shell_main env strat) s0) = \<lparr>v_mode = PM_MODE_HP, v_leds = (0, 0), v_noidle = False\<rparr>"
proof -
  let ?C = "\<lambda>c. \<not> sets_pin c"
  let ?pre = "do {
     tell env (Out (printf ''CM33-S shell-power-mode on %s'' []));
     rc \<leftarrow> gpio_indicators_init env;
     (if rc < 0 then tell env (Out (printf ''CM33-S: GPIO indicators init failed'' [])) else return ())
   }"
  let ?post = "do {
     pm_strategy_init strat;
     tell env (Clk SystemCoreClockUpdate);
     m \<leftarrow> pm_current_mode;
     tell env (Out (printf ''CM33-S: initial power mode %s'' [Str (pm_mode_name strat m)]));
     return (0::int)
   }"
  obtain n1 where 1: "final ?pre s0 = s0\<lparr>calls := calls s0 @ n1\<rparr>" "list_all (?C \<circ> fst) n1"
  proof (rule quietE)
    show "quiet ?C ?pre" by (intro quiet_intros) simp_all
  qed
  let ?s = "(final ?pre s0)\<lparr>s_current_mode := PM_MODE_HP\<rparr>"
  obtain n2 where 2: "final ?post ?s = ?s\<lparr>calls := calls ?s @ n2\<rparr>" "list_all (?C \<circ> fst) n2"
  proof (rule quietE)
    show "quiet ?C ?post" unfolding pm_current_mode_def by (intro quiet_intros init_quiet) simp_all
  qed
  have "final (shell_main env strat) s0 = final ?post ?s"
    by (simp add: shell_main_def pm_init_def split_beta)
  then have f: "final (shell_main env strat) s0 =
      s0\<lparr>s_current_mode := PM_MODE_HP, calls := n1 @ n2\<rparr>"
    unfolding 2(1) unfolding 1(1) by (simp add: boot)
  have "pin_level p (n1 @ n2) = 0" for p
    using pin_level_other [of "n1 @ n2" p "[]"] 1(2) 2(2) by (simp add: pin_level_def)
  then show "at_prompt (final (shell_main env strat) s0)"
    "view_of (final (shell_main env strat) s0) = \<lparr>v_mode = PM_MODE_HP, v_leds = (0, 0), v_noidle = False\<rparr>"
    unfolding f by (simp_all add: at_prompt_def view_of_def boot)
qed

end

sublocale pm_strategy \<subseteq> core: mode_switching "core_manager penv pfuel strat" for penv pfuel
proof
  fix s m rc t
  assume "at_prompt s" "valid_mode m" "run_state (mm_switch_to (core_manager penv pfuel strat) m) s = (Some rc, t)"
  then show "at_prompt t \<and> view_of t = (view_of s)\<lparr>v_mode := (if rc = 0 then m else v_mode (view_of s))\<rparr>"
    by (intro switch_view) (simp_all add: core_manager_def)
next
  fix s r t
  assume "at_prompt s" "run_state (mm_clock_probe (core_manager penv pfuel strat)) s = (r, t)"
  then show "at_prompt t \<and> view_of t = view_of s"
    using core_probe_view [of s penv] by (auto simp: core_manager_def split_beta)
qed (simp add: core_manager_def pm_current_mode_def)

lemma returns_session:
  assumes "\<And>m. returns (mm_switch_to mgr m)" and "returns (mm_clock_probe mgr)"
  shows "returns (run_session env M mgr cs)"
proof (induction cs)
  case Nil
  show ?case by (simp add: returns_return)
next
  case (Cons c cs)
  have "returns (run_command env M mgr c)"
    by (cases c) (auto simp: cmd_ulp_def cmd_lp_def cmd_hp_def cmd_probe_def do_mode_switch_def
        intro!: returns_intros assms)
  with Cons.IH show ?case by (auto intro!: returns_intros)
qed

section \<open>Properties\<close>

text \<open>
  Property C12. The shell keeps its promises over any session. From boot, on a console that
  drains, whatever the PDL and the GPIO driver answer and however many commands fail, every
  command returns, and afterwards the recorded mode, the two mode LEDs and the idle override are
  those of the abstract session: a mode command moves the LEDs to its target always but the mode
  only when it returned 0, \<open>noidle on\<close> and \<open>noidle off\<close> set the override, and everything else,
  the sleep commands included, leaves all three alone. Between commands pm-busy is low.
\<close>

theorem session_refines_view:
  assumes "tx_drains env n" and "n \<le> fuel"
  shows "\<exists>rcs t. run_state (run_session env M (core_manager env fuel (hf0_strategy env fuel (plain_pdl env fail))) cmds)
      (final (shell_main env (hf0_strategy env fuel (plain_pdl env fail))) soc_boot) = (Some rcs, t) \<and>
    length rcs = length cmds \<and> pin_level pm_busy (calls t) = 0 \<and>
    view_of t = fold view_step (zip cmds rcs) \<lparr>v_mode = PM_MODE_HP, v_leds = (0, 0), v_noidle = False\<rparr>"
proof -
  let ?S = "hf0_strategy env fuel (plain_pdl env fail) :: unit strategy"
  let ?s = "final (shell_main env ?S) soc_boot"
  have boot: "calls soc_boot = []" "\<not> s_prevent_idle soc_boot" by (simp_all add: soc_boot_def)
  have "returns (run_session env M (core_manager env fuel ?S) cmds)"
    by (rule returns_session)
      (auto simp: core_manager_def intro!: returns_intros returns_switch_to [OF assms returns_hf0 [OF assms]])
  then obtain rcs t where run: "run_state (run_session env M (core_manager env fuel ?S) cmds) ?s = (Some rcs, t)"
    unfolding returns_def by (metis not_None_eq prod.collapse)
  from hf0.core.session_view [OF hf0.boot_view(1) [OF boot] run] hf0.boot_view(2) [OF boot] run
  show ?thesis by (auto simp: at_prompt_def)
qed

theorem session_refines_view_witness:
  "\<exists>rcs t. run_state (run_session idle_env demo_masks (core_manager idle_env 1 (hf0_strategy idle_env 1 (plain_pdl idle_env 1))) [Lp, Sleep])
      (final (shell_main idle_env (hf0_strategy idle_env 1 (plain_pdl idle_env 1))) soc_boot) = (Some rcs, t) \<and>
    length rcs = 2 \<and> v_leds (view_of t) = (1, 0)"
  using session_refines_view [OF idle_env_drains order_refl, of demo_masks 1 "[Lp, Sleep]"]
  by (auto simp: view_switch_def length_Suc_conv numeral_eq_Suc)

section \<open>What a sleep command promises\<close>

text \<open>PRIMASK and BASEPRI, one call further, and the calls that wait.\<close>

definition primask_step :: "soc_call \<Rightarrow> bool \<Rightarrow> bool" where
  "primask_step c p = (if c = Cpu disable_irq then True else if c = Cpu enable_irq then False else p)"

definition basepri_step :: "soc_call \<Rightarrow> u32 \<Rightarrow> u32" where
  "basepri_step c b = (case c of Cpu k \<Rightarrow> (case k of irq_unlock v \<Rightarrow> v | _ \<Rightarrow> b) | _ \<Rightarrow> b)"

definition primask_after :: "bool \<Rightarrow> (soc_call \<times> u32) list \<Rightarrow> bool" where
  "primask_after p h = fold (primask_step \<circ> fst) h p"

definition basepri_after :: "u32 \<Rightarrow> (soc_call \<times> u32) list \<Rightarrow> u32" where
  "basepri_after b h = fold (basepri_step \<circ> fst) h b"

definition cpu_waits :: "soc_call \<Rightarrow> bool" where
  "cpu_waits c \<longleftrightarrow> c \<in> {Cpu WFI, Pm Cy_SysPm_CpuEnterSleep, Pm Cy_SysPm_CpuEnterDeepSleep}"

definition printed :: "(soc_call \<times> u32) list \<Rightarrow> out_call list" where
  "printed h = concat (map (\<lambda>e. case fst e of Out x \<Rightarrow> [x] | _ \<Rightarrow> []) h)"

definition written :: "(soc_call \<times> u32) list \<Rightarrow> (sfr \<times> u32) list" where
  "written h = concat (map (\<lambda>e. case fst e of Wr r v \<Rightarrow> [(r, v)] | _ \<Rightarrow> []) h)"

definition counted :: "(soc_call \<times> u32) list \<Rightarrow> u32 list" where
  "counted h = map snd (filter (\<lambda>e. fst e = Cpu k_cycle_get_32) h)"

text \<open>
  After a history \<open>k\<close>, with PRIMASK \<open>p\<close> and BASEPRI \<open>b\<close>: the CPU waits once, by \<open>wait\<close>, with PRIMASK
  set, so that a wake-up does not run its handler first, BASEPRI 0, so that no interrupt is kept from
  waking it, and the trigger low, and at the end interrupts are on and the trigger is low.
\<close>

definition waits_masked :: "bool \<Rightarrow> u32 \<Rightarrow> (soc_call \<times> u32) list \<Rightarrow> soc_call \<Rightarrow> (soc_call \<times> u32) list \<Rightarrow> bool" where
  "waits_masked p b k wait h \<longleftrightarrow> (\<exists>pre r post. h = pre @ (wait, r) # post \<and>
     list_all (\<lambda>e. \<not> cpu_waits (fst e)) (pre @ post) \<and>
     primask_after p pre \<and> basepri_after b pre = 0 \<and> pin_level pm_busy (k @ pre) = 0 \<and>
     \<not> primask_after p h \<and> pin_level pm_busy (k @ h) = 0)"

text \<open>The banner is printed with the trigger high, and the console gets 20 ms before the wait.\<close>

definition drains_console :: "(soc_call \<times> u32) list \<Rightarrow> soc_call \<Rightarrow> string \<Rightarrow> (soc_call \<times> u32) list \<Rightarrow> bool" where
  "drains_console k wait banner h \<longleftrightarrow> (\<exists>pre x post. h = pre @ (Cpu (k_msleep 20), x) # post \<and>
     printed pre = [shell_print banner []] \<and> pin_level pm_busy (k @ pre) = 1 \<and>
     list_all (\<lambda>e. fst e \<noteq> wait) pre \<and> list_ex (\<lambda>e. fst e = wait) post)"

text \<open>
  The cycle counter is read twice, with the wait and nothing that takes time in between: no output,
  no pin, no sleep. The one line printed afterwards has the wrapped difference and its conversion.
\<close>

definition reports_dwell :: "soc_call \<Rightarrow> (soc_call \<times> u32) list \<Rightarrow> bool" where
  "reports_dwell wait h \<longleftrightarrow> (\<exists>pre t0 mid t1 post us.
     h = pre @ (Cpu k_cycle_get_32, t0) # mid @ (Cpu k_cycle_get_32, t1) # post \<and> counted h = [t0, t1] \<and>
     list_all (\<lambda>e. fst e \<in> {wait, Cpu disable_irq, Cpu (irq_unlock 0), Cpu DSB, Cpu enable_irq, Rd SCB_SCR} \<or>
       (\<exists>v. fst e = Wr SCB_SCR v)) mid \<and>
     list_ex (\<lambda>e. fst e = wait) mid \<and>
     printed post = [shell_print ''woke after %u us (%u LPTIMER cycles @ 32768 Hz)'' [Num us, Num (t1 - t0)]] \<and>
     (Cpu (k_cyc_to_us_floor32 (t1 - t0)), us) \<in> set post)"

text \<open>The one register access of \<open>deep_sleep\<close>: SLEEPDEEP and only it is cleared, after the wait and still masked.\<close>

definition clears_sleepdeep :: "masks \<Rightarrow> bool \<Rightarrow> soc_call \<Rightarrow> (soc_call \<times> u32) list \<Rightarrow> bool" where
  "clears_sleepdeep M p wait h \<longleftrightarrow> (\<exists>pre v post. h = pre @ (Rd SCB_SCR, v) # post \<and>
     list_ex (\<lambda>e. fst e = wait) pre \<and> primask_after p pre \<and>
     fst (hd post) = Wr SCB_SCR (v AND NOT (SCB_SCR_SLEEPDEEP_Msk M)) \<and>
     written h = [(SCB_SCR, v AND NOT (SCB_SCR_SLEEPDEEP_Msk M))])"

text \<open>The monitors on the parts of a run.\<close>

lemma monitor_simps [simp]:
  "primask_after p [] = p" "primask_after p (e # h) = primask_after (primask_step (fst e) p) h"
  "basepri_after b [] = b" "basepri_after b (e # h) = basepri_after (basepri_step (fst e) b) h"
  "printed [] = []" "printed (e # h) = (case fst e of Out x \<Rightarrow> [x] | _ \<Rightarrow> []) @ printed h"
  "written [] = []" "written (e # h) = (case fst e of Wr r v \<Rightarrow> [(r, v)] | _ \<Rightarrow> []) @ written h"
  "counted [] = []" "counted (e # h) = (if fst e = Cpu k_cycle_get_32 then [snd e] else []) @ counted h"
  by (simp_all add: primask_after_def basepri_after_def printed_def written_def counted_def)

lemma cpu_waits_simps [simp]:
  "cpu_waits (Cpu k) \<longleftrightarrow> k = WFI" "\<not> cpu_waits (Gpio g)" "\<not> cpu_waits (Out x)"
  "\<not> cpu_waits (Rd r)" "\<not> cpu_waits (Wr r v)"
  by (auto simp: cpu_waits_def)

text \<open>They look at the calls only.\<close>

lemma monitor_calls:
  "primask_after p h = fold primask_step (map fst h) p"
  "basepri_after b h = fold basepri_step (map fst h) b"
  "printed h = concat (map (\<lambda>c. case c of Out x \<Rightarrow> [x] | _ \<Rightarrow> []) (map fst h))"
  "written h = concat (map (\<lambda>c. case c of Wr r v \<Rightarrow> [(r, v)] | _ \<Rightarrow> []) (map fst h))"
  "list_all (\<lambda>e. P (fst e)) h = list_all P (map fst h)"
  "list_ex (\<lambda>e. P (fst e)) h = list_ex P (map fst h)"
  by (simp_all add: primask_after_def basepri_after_def printed_def written_def fold_map comp_def
      list.pred_map list_ex_iff)

lemma pin_level_calls: "pin_level p (k @ h) = fold (\<lambda>c. level_step p (c, 0)) (map fst h) (pin_level p k)"
proof -
  have "level_step p e = level_step p (fst e, 0)" for e :: "soc_call \<times> u32"
    by (simp add: level_step_def fun_eq_iff)
  then have "level_step p = (\<lambda>c. level_step p (c, 0)) \<circ> fst" by (simp add: fun_eq_iff)
  then show ?thesis by (metis pin_level_fold fold_map)
qed

lemma split_history:
  assumes "map fst h = xs @ c # ys"
  obtains p r q where "h = p @ (c, r) # q" "map fst p = xs" "map fst q = ys"
  using assms by (auto simp: map_eq_append_conv map_eq_Cons_conv)

text \<open>The two commands in five parts: before the count, masking, the wait, and after the count.\<close>

lemma sleep_parts:
  assumes calls: "map fst h = sleep_calls banner w d us" and d: "d = snd (h ! (length w + 9)) - snd (h ! 4)"
    and us: "us = snd (h ! (length w + 11))"
  obtains a t0 m v x t1 y conv z where
    "h = a @ (Cpu k_cycle_get_32, t0) # m @ v @ (Cpu enable_irq, x) # (Cpu k_cycle_get_32, t1) # y @ (Cpu (k_cyc_to_us_floor32 (t1 - t0)), conv) # z"
    "map fst a = [Gpio (gpio_pin_set_dt pm_busy 1), Out (shell_print banner []), Cpu (k_msleep 20), Gpio (gpio_pin_set_dt pm_busy 0)]"
    "map fst m = [Cpu disable_irq, Cpu (irq_unlock 0), Cpu DSB]" "map fst v = w" "map fst y = [Gpio (gpio_pin_set_dt pm_busy 1)]"
    "map fst z = [Out (shell_print ''woke after %u us (%u LPTIMER cycles @ 32768 Hz)'' [Num conv, Num (t1 - t0)]),
       Gpio (gpio_pin_set_dt pm_busy 0)]"
proof -
  have "map fst h = [Gpio (gpio_pin_set_dt pm_busy 1), Out (shell_print banner []), Cpu (k_msleep 20), Gpio (gpio_pin_set_dt pm_busy 0)] @
      Cpu k_cycle_get_32 # ([Cpu disable_irq, Cpu (irq_unlock 0), Cpu DSB] @ w) @ Cpu enable_irq # [] @ Cpu k_cycle_get_32 #
      [Gpio (gpio_pin_set_dt pm_busy 1)] @ Cpu (k_cyc_to_us_floor32 d) #
      [Out (shell_print ''woke after %u us (%u LPTIMER cycles @ 32768 Hz)'' [Num us, Num d]), Gpio (gpio_pin_set_dt pm_busy 0)]"
    by (simp add: calls sleep_calls_def)
  then obtain a t0 h1 where a: "map fst a = [Gpio (gpio_pin_set_dt pm_busy 1), Out (shell_print banner []), Cpu (k_msleep 20), Gpio (gpio_pin_set_dt pm_busy 0)]"
    and h1: "h = a @ (Cpu k_cycle_get_32, t0) # h1" and "map fst h1 = ([Cpu disable_irq, Cpu (irq_unlock 0), Cpu DSB] @ w) @ Cpu enable_irq # [] @ Cpu k_cycle_get_32 #
      [Gpio (gpio_pin_set_dt pm_busy 1)] @ Cpu (k_cyc_to_us_floor32 d) #
      [Out (shell_print ''woke after %u us (%u LPTIMER cycles @ 32768 Hz)'' [Num us, Num d]), Gpio (gpio_pin_set_dt pm_busy 0)]"
    by (rule split_history)
  from this(3) obtain mv x h2 where mv: "map fst mv = [Cpu disable_irq, Cpu (irq_unlock 0), Cpu DSB] @ w"
    and h2: "h1 = mv @ (Cpu enable_irq, x) # h2" and "map fst h2 = [] @ Cpu k_cycle_get_32 # [Gpio (gpio_pin_set_dt pm_busy 1)] @ Cpu (k_cyc_to_us_floor32 d) #
      [Out (shell_print ''woke after %u us (%u LPTIMER cycles @ 32768 Hz)'' [Num us, Num d]), Gpio (gpio_pin_set_dt pm_busy 0)]"
    by (rule split_history)
  from this(3) obtain t1 h3 where h3: "h2 = (Cpu k_cycle_get_32, t1) # h3" and "map fst h3 = [Gpio (gpio_pin_set_dt pm_busy 1)] @ Cpu (k_cyc_to_us_floor32 d) #
      [Out (shell_print ''woke after %u us (%u LPTIMER cycles @ 32768 Hz)'' [Num us, Num d]), Gpio (gpio_pin_set_dt pm_busy 0)]"
    by (rule split_history) auto
  from this(2) obtain y conv z where y: "map fst y = [Gpio (gpio_pin_set_dt pm_busy 1)]" and h4: "h3 = y @ (Cpu (k_cyc_to_us_floor32 d), conv) # z"
    and z: "map fst z = [Out (shell_print ''woke after %u us (%u LPTIMER cycles @ 32768 Hz)'' [Num us, Num d]),
       Gpio (gpio_pin_set_dt pm_busy 0)]"
    by (rule split_history)
  obtain m v where mv': "mv = m @ v" and m: "map fst m = [Cpu disable_irq, Cpu (irq_unlock 0), Cpu DSB]" and v: "map fst v = w"
    by (rule that [of "take 3 mv" "drop 3 mv"]) (simp_all add: take_map [symmetric] drop_map [symmetric] mv)
  note h = h1 [unfolded h2 h3 h4 mv', simplified]
  have len: "length a = 4" "length m = 3" "length v = length w" "length y = 1"
    using arg_cong [OF a, of length] arg_cong [OF m, of length] arg_cong [OF v, of length] arg_cong [OF y, of length]
    by simp_all
  have at: "snd (h ! n) = r" if "h = p @ (c, r) # q" "length p = n" for p q n r and c :: soc_call
    unfolding that(1) that(2) [symmetric] nth_append_length by simp
  have "snd (h ! 4) = t0" by (rule at [OF h1 len(1)])
  moreover have "snd (h ! (length w + 9)) = t1"
    by (rule at [of "a @ (Cpu k_cycle_get_32, t0) # m @ v @ [(Cpu enable_irq, x)]" "Cpu k_cycle_get_32" t1]) (simp_all add: h len)
  moreover have "snd (h ! (length w + 11)) = conv"
    by (rule at [of "a @ (Cpu k_cycle_get_32, t0) # m @ v @ (Cpu enable_irq, x) # (Cpu k_cycle_get_32, t1) # y"
        "Cpu (k_cyc_to_us_floor32 d)" conv]) (simp_all add: h len)
  ultimately have "d = t1 - t0" "us = conv" using d us by simp_all
  with h z show thesis by (intro that [of a t0 m v x t1 y conv z] a m v y) simp_all
qed
text \<open>Whatever follows the wait, if it only accesses \<open>SCB_SCR\<close>.\<close>

definition scr_access :: "soc_call \<Rightarrow> bool" where
  "scr_access c \<longleftrightarrow> c = Rd SCB_SCR \<or> (\<exists>v. c = Wr SCB_SCR v)"

lemma scr_monitors:
  assumes "list_all scr_access cs"
  shows "fold primask_step cs p = p" "fold (\<lambda>c. level_step q (c, 0)) cs l = l"
    "list_all (\<lambda>c. \<not> cpu_waits c) cs" "concat (map (\<lambda>c. case c of Out x \<Rightarrow> [x] | _ \<Rightarrow> []) cs) = []"
    "Cpu k_cycle_get_32 \<notin> set cs"
  using assms by (induction cs) (auto simp: scr_access_def primask_step_def level_step_def cpu_waits_def)

lemma counted_append [simp]: "counted (h @ k) = counted h @ counted k"
  by (simp add: counted_def)

lemma counted_none: "Cpu k_cycle_get_32 \<notin> set (map fst h) \<Longrightarrow> counted h = []"
  by (induction h) auto

lemma printed_append [simp]: "printed (h @ k) = printed h @ printed k"
  by (simp add: printed_def)

lemma sleep_protocol:
  assumes calls: "map fst h = sleep_calls banner (wait # rest) d us"
    and d: "d = snd (h ! (length rest + 10)) - snd (h ! 4)" and us: "us = snd (h ! (length rest + 12))"
    and wait: "wait = Cpu WFI \<or> wait = Pm Cy_SysPm_CpuEnterDeepSleep" and rest: "list_all scr_access rest"
  shows "waits_masked p b k wait h" and "drains_console k wait banner h" and "reports_dwell wait h"
proof -
  obtain a t0 m v x t1 y conv z where
    h: "h = a @ (Cpu k_cycle_get_32, t0) # m @ v @ (Cpu enable_irq, x) # (Cpu k_cycle_get_32, t1) # y @ (Cpu (k_cyc_to_us_floor32 (t1 - t0)), conv) # z"
    and a: "map fst a = [Gpio (gpio_pin_set_dt pm_busy 1), Out (shell_print banner []), Cpu (k_msleep 20), Gpio (gpio_pin_set_dt pm_busy 0)]"
    and m: "map fst m = [Cpu disable_irq, Cpu (irq_unlock 0), Cpu DSB]" and v: "map fst v = wait # rest"
    and y: "map fst y = [Gpio (gpio_pin_set_dt pm_busy 1)]"
    and z: "map fst z = [Out (shell_print ''woke after %u us (%u LPTIMER cycles @ 32768 Hz)'' [Num conv, Num (t1 - t0)]),
       Gpio (gpio_pin_set_dt pm_busy 0)]"
  proof (rule sleep_parts [OF calls])
    show "d = snd (h ! (length (wait # rest) + 9)) - snd (h ! 4)" "us = snd (h ! (length (wait # rest) + 11))"
      by (simp_all add: d us add.commute)
  qed (rule that, assumption+)
  obtain r v' where v': "v = (wait, r) # v'" "map fst v' = rest" using v by (cases v) auto
  note scr = scr_monitors [OF rest]
  have wait': "primask_step wait q = q" "cpu_waits wait" "level_step q' (wait, 0) l = l" for q q' l
    using wait by (auto simp: primask_step_def cpu_waits_def)
  have none: "list_all (\<lambda>e. \<not> cpu_waits (fst e)) q" if "list_all (\<lambda>c. \<not> cpu_waits c) (map fst q)" for q :: "(soc_call \<times> u32) list"
    using that monitor_calls(5) [of "\<lambda>c. \<not> cpu_waits c" q] by simp
  have waits: "list_all (\<lambda>e. \<not> cpu_waits (fst e)) a" "list_all (\<lambda>e. \<not> cpu_waits (fst e)) m" "list_all (\<lambda>e. \<not> cpu_waits (fst e)) v'"
    "list_all (\<lambda>e. \<not> cpu_waits (fst e)) y" "list_all (\<lambda>e. \<not> cpu_waits (fst e)) z"
    by (rule none, simp add: a m v' y z scr)+
  show "waits_masked p b k wait h"
    unfolding waits_masked_def
    by (rule exI [of _ "a @ (Cpu k_cycle_get_32, t0) # m"], rule exI [of _ r],
        rule exI [of _ "v' @ (Cpu enable_irq, x) # (Cpu k_cycle_get_32, t1) # y @ (Cpu (k_cyc_to_us_floor32 (t1 - t0)), conv) # z"])
      (simp add: h v' a m y z waits monitor_calls(1,2) pin_level_calls scr wait' primask_step_def basepri_step_def
        del: monitor_simps)
  obtain a0 a1 a2 a3 where a': "a = [(Gpio (gpio_pin_set_dt pm_busy 1), a0), (Out (shell_print banner []), a1)] @
      (Cpu (k_msleep 20), a2) # [(Gpio (gpio_pin_set_dt pm_busy 0), a3)]"
    using a by (auto simp: map_eq_Cons_conv)
  show "drains_console k wait banner h"
    unfolding drains_console_def
    by (rule exI [of _ "[(Gpio (gpio_pin_set_dt pm_busy 1), a0), (Out (shell_print banner []), a1)]"], rule exI [of _ a2],
        rule exI [of _ "[(Gpio (gpio_pin_set_dt pm_busy 0), a3)] @ (Cpu k_cycle_get_32, t0) # m @ v @ (Cpu enable_irq, x) #
          (Cpu k_cycle_get_32, t1) # y @ (Cpu (k_cyc_to_us_floor32 (t1 - t0)), conv) # z"])
      (use wait in \<open>auto simp: h a' v' pin_level_fold\<close>)
  have nocount: "counted a = []" "counted m = []" "counted v = []" "counted y = []" "counted z = []"
    by (rule counted_none, use a m v y z wait scr(5) in \<open>auto simp del: set_map\<close>)+
  have window: "list_all (\<lambda>e. fst e \<in> {wait, Cpu disable_irq, Cpu (irq_unlock 0), Cpu DSB, Cpu enable_irq, Rd SCB_SCR} \<or>
       (\<exists>v. fst e = Wr SCB_SCR v)) q" if "q = m \<or> q = v" for q
    using that m v rest by (fastforce simp: scr_access_def list_all_iff map_eq_Cons_conv)
  have "printed y = []" "printed z = [shell_print ''woke after %u us (%u LPTIMER cycles @ 32768 Hz)'' [Num conv, Num (t1 - t0)]]"
    by (simp_all add: monitor_calls(3) y z)
  moreover have "list_ex (\<lambda>e. fst e = wait) v" by (simp add: v'(1))
  moreover note window [of m] window [of v]
  ultimately show "reports_dwell wait h"
    unfolding reports_dwell_def
    by - (rule exI [of _ a], rule exI [of _ t0], rule exI [of _ "m @ v @ [(Cpu enable_irq, x)]"],
        rule exI [of _ t1], rule exI [of _ "y @ (Cpu (k_cyc_to_us_floor32 (t1 - t0)), conv) # z"],
        rule exI [of _ conv], simp add: h nocount)
qed

lemma deep_sleep_clears:
  assumes calls: "map fst h = sleep_calls banner [Pm Cy_SysPm_CpuEnterDeepSleep, Rd SCB_SCR,
      Wr SCB_SCR (snd (h ! 9) AND NOT (SCB_SCR_SLEEPDEEP_Msk M))] d us"
  shows "clears_sleepdeep M p (Pm Cy_SysPm_CpuEnterDeepSleep) h"
proof -
  let ?w = "Wr SCB_SCR (snd (h ! 9) AND NOT (SCB_SCR_SLEEPDEEP_Msk M))"
  have len: "length h = 17" using arg_cong [OF calls, of length] by (simp add: sleep_calls_def)
  have nth: "fst (h ! i) = map fst h ! i" if "i < 17" for i using that len by simp
  have "h ! 9 = (Rd SCB_SCR, snd (h ! 9))" using nth [of 9] by (simp add: calls sleep_calls_def prod_eq_iff)
  moreover have "h = take 9 h @ h ! 9 # drop (Suc 9) h" by (rule id_take_nth_drop) (simp add: len)
  ultimately have split: "h = take 9 h @ (Rd SCB_SCR, snd (h ! 9)) # drop (Suc 9) h" by metis
  have pre: "map fst (take 9 h) = take 9 (map fst h)" by (simp add: take_map)
  have wait: "list_ex (\<lambda>e. fst e = Pm Cy_SysPm_CpuEnterDeepSleep) (take 9 h)"
    using monitor_calls(6) [of "\<lambda>c. c = Pm Cy_SysPm_CpuEnterDeepSleep" "take 9 h"] pre by (simp add: calls sleep_calls_def)
  have post: "fst (hd (drop (Suc 9) h)) = ?w"
    using nth [of 10] len by (simp add: hd_drop_conv_nth calls sleep_calls_def)
  have "written h = [(SCB_SCR, snd (h ! 9) AND NOT (SCB_SCR_SLEEPDEEP_Msk M))]"
    unfolding monitor_calls(4) by (subst calls) (simp add: sleep_calls_def)
  moreover have "primask_after p (take 9 h)"
    by (simp add: monitor_calls(1) pre calls sleep_calls_def primask_step_def)
  ultimately show ?thesis unfolding clears_sleepdeep_def using split wait post by blast
qed

text \<open>
  Property C40. The sleep commands wait once, with interrupts masked but able to wake the CPU, and
  report the time waited. Whatever PRIMASK and BASEPRI were before and whatever is read: each command
  returns 0 after exactly one wait, WFI for \<open>sleep\<close> and the PDL's deep sleep for \<open>deep_sleep\<close>; at the
  wait PRIMASK is set, BASEPRI 0 and pm-busy low, and at the end interrupts are on and pm-busy is low.
  The banner goes out with pm-busy high and the console has 20 ms to drain before the wait. The
  counter is read twice with nothing but the wait and the masking (and \<open>SCB_SCR\<close>) in between, and the
  one line printed has the 32-bit difference, also when the counter wraps, with its conversion to
  microseconds. \<open>sleep\<close> writes no register; \<open>deep_sleep\<close> clears \<open>SLEEPDEEP\<close> and nothing else, after the
  wait and still masked. The README of app 07 says that \<open>sleep\<close> enters CPU deep sleep, that of app 06
  that the dwell is not computed by \<open>k_cyc_to_us_floor32\<close>, and the file's header that the counter runs at
  50 MHz: the code does otherwise, and the manifest lists these as findings of this theorem.
\<close>

theorem sleep_commands_wait_masked:
  "(\<exists>h. run_state (cmd_sleep env) s = (0, s\<lparr>calls := calls s @ h\<rparr>) \<and>
     waits_masked p b (calls s) (Cpu WFI) h \<and>
     drains_console (calls s) (Cpu WFI) ''entering CPU sleep -- press any key to wake'' h \<and>
     reports_dwell (Cpu WFI) h \<and> written h = []) \<and>
   (\<exists>h. run_state (cmd_deep_sleep env M) s = (0, s\<lparr>calls := calls s @ h\<rparr>) \<and>
     waits_masked p b (calls s) (Pm Cy_SysPm_CpuEnterDeepSleep) h \<and>
     drains_console (calls s) (Pm Cy_SysPm_CpuEnterDeepSleep) ''entering CPU deep sleep -- wakes on LPTIMER tick'' h \<and>
     reports_dwell (Pm Cy_SysPm_CpuEnterDeepSleep) h \<and>
     clears_sleepdeep M p (Pm Cy_SysPm_CpuEnterDeepSleep) h)"
proof (rule conjI)
  obtain h where h: "final (cmd_sleep env) s = s\<lparr>calls := calls s @ h\<rparr>" "result (cmd_sleep env) s = 0"
    "map fst h = sleep_calls ''entering CPU sleep -- press any key to wake'' [Cpu WFI]
      (snd (h ! 10) - snd (h ! 4)) (snd (h ! 12))"
    using spec [OF cmd_sleep_runs [of env, unfolded runs_def], of s] by blast
  have "written h = []" unfolding monitor_calls(4) by (subst h(3)) (simp add: sleep_calls_def)
  with h(1,2) sleep_protocol [OF h(3)] show "\<exists>h. run_state (cmd_sleep env) s = (0, s\<lparr>calls := calls s @ h\<rparr>) \<and>
     waits_masked p b (calls s) (Cpu WFI) h \<and>
     drains_console (calls s) (Cpu WFI) ''entering CPU sleep -- press any key to wake'' h \<and>
     reports_dwell (Cpu WFI) h \<and> written h = []"
    by (intro exI [of _ h]) (simp add: prod_eq_iff)
  obtain h where h: "final (cmd_deep_sleep env M) s = s\<lparr>calls := calls s @ h\<rparr>" "result (cmd_deep_sleep env M) s = 0"
    "map fst h = sleep_calls ''entering CPU deep sleep -- wakes on LPTIMER tick''
       [Pm Cy_SysPm_CpuEnterDeepSleep, Rd SCB_SCR, Wr SCB_SCR (snd (h ! 9) AND NOT (SCB_SCR_SLEEPDEEP_Msk M))]
       (snd (h ! 12) - snd (h ! 4)) (snd (h ! 14))"
    using spec [OF cmd_deep_sleep_runs [of env M, unfolded runs_def], of s] by blast
  from h(1,2) sleep_protocol [OF h(3)] deep_sleep_clears [OF h(3)]
  show "\<exists>h. run_state (cmd_deep_sleep env M) s = (0, s\<lparr>calls := calls s @ h\<rparr>) \<and>
     waits_masked p b (calls s) (Pm Cy_SysPm_CpuEnterDeepSleep) h \<and>
     drains_console (calls s) (Pm Cy_SysPm_CpuEnterDeepSleep) ''entering CPU deep sleep -- wakes on LPTIMER tick'' h \<and>
     reports_dwell (Pm Cy_SysPm_CpuEnterDeepSleep) h \<and>
     clears_sleepdeep M p (Pm Cy_SysPm_CpuEnterDeepSleep) h"
    by (intro exI [of _ h]) (simp add: prod_eq_iff scr_access_def)
qed

end
