(* ===== verification/Images.thy ===== *)
theory Images
  imports Pm_Cmds
begin

text \<open>
  What is shared by the images that run the shell (apps 06, 07 and 07a): a calculus of the calls that a
  program may make, and the locale \<open>image_invariant\<close>, which carries an invariant of mode and calls over
  any session of any mode manager. \<open>App06\<close> and \<open>App07\<close> interpret it on their invariants.
\<close>

section \<open>Programs that make only given calls\<close>

text \<open>Programs that make only calls in \<open>C\<close>, whatever variables they change.\<close>

definition emits :: "(soc_call \<Rightarrow> bool) \<Rightarrow> ('z soc_scheme, 'a) state \<Rightarrow> bool" where
  "emits C m \<longleftrightarrow> (\<forall>s. \<exists>new. calls (final m s) = calls s @ new \<and> list_all (C \<circ> fst) new)"

named_theorems emits_intros "programs that make only given calls"

lemma emits_confined: "confined C m \<Longrightarrow> emits C m"
  by (auto simp: confined_def emits_def)

lemma emits_quiet: "quiet C m \<Longrightarrow> emits C m"
  by (rule emits_confined [OF confined_quiet])

lemmas emits_io [emits_intros] =
  emits_quiet [OF quiet_return] emits_quiet [OF quiet_ask] emits_quiet [OF quiet_tell] emits_quiet [OF quiet_gets]

lemma emits_modify [emits_intros]: "(\<And>s. calls (f s) = calls s) \<Longrightarrow> emits C (modify f)"
  by (auto simp: emits_def intro: exI [of _ "[]"])

lemma emits_if [emits_intros]: "emits C m \<Longrightarrow> emits C n \<Longrightarrow> emits C (if b then m else n)"
  by simp

lemma emits_bind [emits_intros]:
  assumes m: "emits C m" and f: "\<And>x. emits C (f x)"
  shows "emits C (m \<bind> f)"
  unfolding emits_def
proof
  fix s
  obtain new where 1: "calls (final m s) = calls s @ new" "list_all (C \<circ> fst) new"
    using m unfolding emits_def by blast
  obtain new' where 2: "calls (final (f (result m s)) (final m s)) = calls (final m s) @ new'" "list_all (C \<circ> fst) new'"
    using f unfolding emits_def by blast
  from 1 2 show "\<exists>new. calls (final (m \<bind> f) s) = calls s @ new \<and> list_all (C \<circ> fst) new"
    by (auto simp: split_beta)
qed

lemma emits_obind [emits_intros]: "emits C m \<Longrightarrow> (\<And>x. emits C (f x)) \<Longrightarrow> emits C (obind m f)"
  unfolding obind_def by (rule emits_bind) (simp_all add: emits_io split: option.split)

lemma emits_for_each [emits_intros]: "(\<And>x. emits C (body x)) \<Longrightarrow> emits C (for_each xs body)"
  by (induction xs) (auto intro!: emits_intros)

lemma emits_mono: "emits C m \<Longrightarrow> (\<And>c. C c \<Longrightarrow> D c) \<Longrightarrow> emits D m"
  unfolding emits_def list_all_iff by fastforce

section \<open>What the commands do besides switching\<close>

text \<open>The console, the pins, the CPU, and the wait with the register that ends it.\<close>

definition shell_call :: "soc_call \<Rightarrow> bool" where
  "shell_call c \<longleftrightarrow>
     (case c of Out x \<Rightarrow> True | Gpio g \<Rightarrow> True | Cpu x \<Rightarrow> True | Pm p \<Rightarrow> p = Cy_SysPm_CpuEnterDeepSleep
      | Rd r \<Rightarrow> r = SCB_SCR | Wr r v \<Rightarrow> r = SCB_SCR | _ \<Rightarrow> False)"

lemma shell_call_simps [simp]:
  "shell_call (Out x)" "shell_call (Gpio g)" "shell_call (Cpu k)" "shell_call (Pm Cy_SysPm_CpuEnterDeepSleep)"
  "shell_call (Rd SCB_SCR)" "shell_call (Wr SCB_SCR v)"
  by (simp_all add: shell_call_def)

lemma quiet_pins:
  "quiet shell_call (gpio_indicators_set_mode_leds env r g)" "quiet shell_call (gpio_indicators_transition_begin env)"
  "quiet shell_call (gpio_indicators_transition_end env)" "quiet shell_call (gpio_indicators_init env)"
  unfolding gpio_indicators_set_mode_leds_def gpio_indicators_transition_begin_def gpio_indicators_transition_end_def
    gpio_indicators_init_def
  by (intro quiet_intros; simp)+

lemma quiet_sleeps: "quiet shell_call (cmd_sleep env)" "quiet shell_call (cmd_deep_sleep env M)"
  unfolding cmd_sleep_def cmd_deep_sleep_def rmw_def Let_def
  by (intro quiet_intros quiet_pins; simp)+

lemma emits_noidle: "emits shell_call (cmd_noidle env argv)"
  unfolding cmd_noidle_def by (intro emits_intros) simp_all

lemma noidle_keeps_mode: "s_current_mode (final (cmd_noidle env argv) s) = s_current_mode s"
  by (simp add: cmd_noidle_def)

text \<open>A session makes these calls and those of its mode manager.\<close>

lemma emits_session:
  assumes shell: "\<And>c. shell_call c \<Longrightarrow> C c" and mode: "quiet C (mm_current_mode mgr)"
    and switch: "\<And>m. emits C (mm_switch_to mgr m)" and probe: "emits C (mm_clock_probe mgr)"
  shows "emits C (run_session env M mgr cs)"
proof -
  note quiet = emits_mono [OF emits_quiet shell]
  have sw: "emits C (do_mode_switch env mgr m r g)" for m r g
    unfolding do_mode_switch_def by (intro emits_intros quiet [OF quiet_pins(1)] emits_quiet [OF mode] switch shell; simp)
  have "emits C (run_command env M mgr c)" for c
    by (cases c) (auto simp: sw cmd_ulp_def cmd_lp_def cmd_hp_def cmd_probe_def intro!: emits_intros probe
        quiet [OF quiet_sleeps(1)] quiet [OF quiet_sleeps(2)] emits_mono [OF emits_noidle shell])
  then show ?thesis by (induction cs) (auto intro!: emits_intros)
qed

lemma session_length:
  "run_state (run_session env M mgr cs) s = (Some rcs, t) \<Longrightarrow> length rcs = length cs"
  by (induction cs arbitrary: s rcs) (auto simp: run_obind split: prod.splits option.splits)

section \<open>Invariants of a session\<close>

text \<open>
  \<open>stays I W m\<close>: a run of \<open>m\<close> from a state in \<open>I\<close> ends in \<open>I\<close>, or hangs in a state of the weaker \<open>W\<close>.
\<close>

definition stays ::
  "('z soc_scheme \<Rightarrow> bool) \<Rightarrow> ('z soc_scheme \<Rightarrow> bool) \<Rightarrow> ('z soc_scheme, 'a option) state \<Rightarrow> bool" where
  "stays I W m \<longleftrightarrow> (\<forall>s. I s \<longrightarrow> W (final m s) \<and> (result m s \<noteq> None \<longrightarrow> I (final m s)))"

named_theorems stays_intros "programs that carry an invariant"

text \<open>
  The invariant speaks of the mode and the calls, and the \<open>still\<close> calls, which include those of the
  commands, do not break it.
\<close>

locale image_invariant =
  fixes I W :: "'z soc_scheme \<Rightarrow> bool"
    and still :: "soc_call \<Rightarrow> bool"
  assumes weaken: "I s \<Longrightarrow> W s"
    and carry: "I s \<Longrightarrow> calls t = calls s @ new \<Longrightarrow> list_all (still \<circ> fst) new \<Longrightarrow>
      s_current_mode t = s_current_mode s \<Longrightarrow> I t"
    and shell_still: "shell_call c \<Longrightarrow> still c"
begin

lemma emits_carry:
  "emits still m \<Longrightarrow> s_current_mode (final m s) = s_current_mode s \<Longrightarrow> I s \<Longrightarrow> I (final m s)"
  unfolding emits_def using carry by blast

lemma confined_carry: "confined still m \<Longrightarrow> I s \<Longrightarrow> I (final m s)"
  by (rule emits_carry [OF emits_confined]) (simp_all add: confined_def)

lemma stays_return [stays_intros]: "stays I W (return x)"
  by (simp add: stays_def weaken)

lemma stays_if [stays_intros]: "stays I W m \<Longrightarrow> stays I W n \<Longrightarrow> stays I W (if b then m else n)"
  by simp

lemma stays_then [stays_intros]: "confined still m \<Longrightarrow> (\<And>x. stays I W (f x)) \<Longrightarrow> stays I W (m \<bind> f)"
  unfolding stays_def by (simp add: split_beta confined_carry)

lemma stays_obind [stays_intros]:
  fixes m :: "('z soc_scheme, 'a option) state"
  assumes m: "stays I W m" and f: "\<And>x. stays I W (f x)"
  shows "stays I W (obind m f)"
  unfolding stays_def
proof (intro allI impI)
  fix s assume s: "I s"
  obtain r t where run: "run_state m s = (r, t)" by fastforce
  show "W (final (obind m f) s) \<and> (result (obind m f) s \<noteq> None \<longrightarrow> I (final (obind m f) s))"
    using m [unfolded stays_def] f [unfolded stays_def] s run
    by (cases r) (force simp: run_obind)+
qed

lemma stays_confined: "confined still m \<Longrightarrow> stays I W m"
  by (simp add: stays_def confined_carry weaken)

lemma confined_shell: "quiet shell_call m \<Longrightarrow> confined still m"
  by (rule confined_mono [OF confined_quiet shell_still])

lemma stays_noidle: "stays I W (do { r \<leftarrow> cmd_noidle env argv; return (Some r) })"
  using emits_carry [OF emits_mono [OF emits_noidle shell_still] noidle_keeps_mode]
  by (simp add: stays_def split_beta weaken)

text \<open>What a manager keeps, any session keeps.\<close>

lemma stays_session:
  assumes mode: "quiet still (mm_current_mode mgr)" and switch: "\<And>m. stays I W (mm_switch_to mgr m)"
    and probe: "stays I W (mm_clock_probe mgr)"
  shows "stays I W (run_session env M mgr cs)"
proof -
  have out: "confined still (tell env c)" if "shell_call c" for c
    by (rule confined_shell) (rule quiet_tell [of shell_call, OF that])
  have sw: "stays I W (do_mode_switch env mgr m r g)" for m r g
    unfolding do_mode_switch_def
    by (intro stays_intros confined_shell [OF quiet_pins(1)] confined_quiet [OF mode] switch out; simp)
  have "stays I W (run_command env M mgr c)" for c
    by (cases c) (auto simp: sw cmd_ulp_def cmd_lp_def cmd_hp_def cmd_probe_def
        intro!: stays_intros probe confined_shell quiet_sleeps stays_noidle)
  then show ?thesis by (induction cs) (auto intro!: stays_intros)
qed

end

end
