(* ===== verification/Cm55_Boot.thy ===== *)
theory Cm55_Boot
  imports Pm_Cmds
begin

text \<open>
  The secure boot of \<open>apps/07a_pse84_m33s_m55_power_shell/cm33_s\<close>: \<open>pse84_boot_local.c\<close>, which
  releases the CM55 and returns, \<open>pm_early_boot.c\<close> and \<open>main.c\<close>. The address of the CM55 image
  comes from the devicetree and is a parameter. The rest of app 07a is byte-identical to app 06.
\<close>

definition CM55_BOOT_WAIT_TIME_USEC :: u32 where "CM55_BOOT_WAIT_TIME_USEC = 10"

definition STEP :: "soc_env \<Rightarrow> string \<Rightarrow> ('z, unit) soc_prog" where
  "STEP env msg = do {
     tell env (Out (printk (''[cm55-boot] '' @ msg) []));
     tell env (Cpu (k_msleep 10))
   }"

definition app_pse84_cm55_startup :: "soc_env \<Rightarrow> u32 \<Rightarrow> ('z, unit) soc_prog" where
  "app_pse84_cm55_startup env cm55_start_address = do {
     STEP env ''00 enter'';
     tell env (Pm Cy_System_EnablePD1);
     STEP env ''01 PD1 enabled'';
     tell env (Pm (Cy_SysClk_PeriGroupSlaveInit CY_MMIO_CM55_TCM_512K));
     STEP env ''02 CM55 TCM peri-group init'';
     tell env (Pm (Cy_SysClk_PeriGroupSlaveInit CY_MMIO_SMIF0));
     STEP env ''03 SMIF0 peri-group init'';
     tell env (Pm cy_mpc_init);
     STEP env ''04 MPC init'';
     tell env (Pm cy_pd_pdcm_clear_dependency_APPCPUSS_SYSCPU);
     STEP env ''05 PDCM APPCPUSS<-SYSCPU cleared'';
     tell env (Pm cy_pd_pdcm_clear_dependency_APPCPU_SYSCPU);
     STEP env ''06 PDCM APPCPU<-SYSCPU cleared'';
     tell env (Out (printk ''[cm55-boot] 07 releasing CM55 at 0x%08x'' [Num cm55_start_address]));
     tell env (Cpu (k_msleep 10));
     tell env (Pm (Cy_SysEnableCM55 cm55_start_address CM55_BOOT_WAIT_TIME_USEC));
     STEP env ''08 CM55 released'';
     tell env (Pm (Cy_SysPm_SetDeepSleepMode CY_SYSPM_MODE_DEEPSLEEP));
     STEP env ''09 SetDeepSleepMode DEEPSLEEP'';
     tell env (Pm (Cy_SysPm_SetSOCMEMDeepSleepMode CY_SYSPM_MODE_DEEPSLEEP));
     STEP env ''10 SetSOCMEMDeepSleepMode DEEPSLEEP'';
     key \<leftarrow> ask env (Cpu irq_lock);
     tell env (Pm cy_ppc0_init);
     tell env (Pm cy_ppc1_init);
     tell env (Cpu (irq_unlock key));
     STEP env ''11 PPC0+PPC1 init (under irq_lock)'';
     STEP env ''99 exit''
   }"

definition app07a_pm_early_mcwdt_reset :: "soc_env \<Rightarrow> masks \<Rightarrow> ('z, int) soc_prog" where
  "app07a_pm_early_mcwdt_reset env M = do {
     tell env (Pm Cy_MCWDT_Unlock);
     tell env (Pm (Cy_MCWDT_Disable (CY_MCWDT_CTRS M) 100));
     tell env (Pm (Cy_MCWDT_ClearInterrupt (CY_MCWDT_CTRS M)));
     tell env (Pm (Cy_MCWDT_SetInterruptMask 0));
     return 0
   }"

definition app07a_main :: "soc_env \<Rightarrow> 'z strategy \<Rightarrow> u32 \<Rightarrow> ('z, int) soc_prog" where
  "app07a_main env strat cm55_start_address = do {
     tell env (Out (printf ''CM33-S shell-power-mode on %s'' []));
     app_pse84_cm55_startup env cm55_start_address;
     tell env (Out (printf ''CM33-S: CM55 released (parking in deep sleep)'' []));
     rc \<leftarrow> gpio_indicators_init env;
     (if rc < 0 then tell env (Out (printf ''CM33-S: GPIO indicators init failed'' [])) else return ());
     pm_init env strat;
     m \<leftarrow> pm_current_mode;
     tell env (Out (printf ''CM33-S: initial power mode %s'' [Str (pm_mode_name strat m)]));
     return 0
   }"

section \<open>The order of the boot\<close>

text \<open>The calls that set up the application side, and the lock; the rest are markers and waits for the console.\<close>

definition app_pm :: "soc_call \<Rightarrow> bool" where
  "app_pm c \<longleftrightarrow> (case c of Pm p \<Rightarrow> True | Cpu x \<Rightarrow> x = irq_lock \<or> (\<exists>k. x = irq_unlock k) | _ \<Rightarrow> False)"

lemma app_pm_simps [simp]:
  "app_pm (Pm p)" "app_pm (Cpu irq_lock)" "app_pm (Cpu (irq_unlock k))"
  "\<not> app_pm (Cpu (k_msleep n))" "\<not> app_pm (Out x)"
  by (simp_all add: app_pm_def)

lemma runs_STEP: "runs (STEP env msg) (\<lambda>y h. \<exists>a b. h = [(Out (printk (''[cm55-boot] '' @ msg) []), a), (Cpu (k_msleep 10), b)])"
  unfolding STEP_def by (rule runs_conseq, (rule runs_intros)+) auto

text \<open>Nothing that waits for the tick happens while interrupts are locked.\<close>

fun tickless_locked :: "bool \<Rightarrow> soc_call list \<Rightarrow> bool" where
  "tickless_locked locked [] \<longleftrightarrow> True"
| "tickless_locked locked (c # cs) \<longleftrightarrow> (locked \<longrightarrow> (\<forall>n. c \<noteq> Cpu (k_msleep n))) \<and>
     tickless_locked ((locked \<or> c = Cpu irq_lock) \<and> \<not> (\<exists>k. c = Cpu (irq_unlock k))) cs"

lemma cm55_startup_runs:
  "runs (app_pse84_cm55_startup env addr) (\<lambda>y h. \<exists>key. (Cpu irq_lock, key) \<in> set h \<and>
     tickless_locked False (map fst h) \<and>
     filter app_pm (map fst h) =
       [Pm Cy_System_EnablePD1, Pm (Cy_SysClk_PeriGroupSlaveInit CY_MMIO_CM55_TCM_512K),
        Pm (Cy_SysClk_PeriGroupSlaveInit CY_MMIO_SMIF0), Pm cy_mpc_init,
        Pm cy_pd_pdcm_clear_dependency_APPCPUSS_SYSCPU, Pm cy_pd_pdcm_clear_dependency_APPCPU_SYSCPU,
        Pm (Cy_SysEnableCM55 addr 10), Pm (Cy_SysPm_SetDeepSleepMode CY_SYSPM_MODE_DEEPSLEEP),
        Pm (Cy_SysPm_SetSOCMEMDeepSleepMode CY_SYSPM_MODE_DEEPSLEEP),
        Cpu irq_lock, Pm cy_ppc0_init, Pm cy_ppc1_init, Cpu (irq_unlock key)])"
  unfolding app_pse84_cm55_startup_def CM55_BOOT_WAIT_TIME_USEC_def
  by (rule runs_conseq, (rule runs_intros runs_STEP)+) (elim exE conjE, hypsubst, simp)

section \<open>The shell of app 07a\<close>

lemma startup_no_pin: "quiet (\<lambda>c. \<not> sets_pin c) (app_pse84_cm55_startup env addr)"
  unfolding app_pse84_cm55_startup_def STEP_def by (intro quiet_intros) simp_all

context pm_strategy begin

lemma keeps_pm_init: "v_mode V = PM_MODE_HP \<Longrightarrow> keeps_view V (pm_init env strat)"
proof -
  assume V: "v_mode V = PM_MODE_HP"
  have "keeps_view V (modify (s_current_mode_update (\<lambda>_. PM_MODE_HP)))"
    using V by (auto simp: keeps_view_def at_prompt_def view_of_def)
  then show ?thesis
    unfolding pm_init_def
    by (intro keeps_view_intros) (assumption | rule keeps_view_quiet, (rule init_quiet | rule quiet_tell, simp))+
qed

lemma app07a_main_keeps: "v_mode V = PM_MODE_HP \<Longrightarrow> keeps_view V (app07a_main env strat addr)"
  unfolding app07a_main_def pm_current_mode_def
  by (intro keeps_view_intros keeps_pm_init)
    (assumption | (rule keeps_view_quiet, (intro quiet_intros startup_no_pin; simp)))+

text \<open>A session after the release of the CM55 is one of app 06.\<close>

lemma app07a_session_view:
  assumes boot: "at_prompt s0" "v_mode (view_of s0) = PM_MODE_HP"
    and run: "run_state (run_session env M (core_manager env fuel strat) cs) (final (app07a_main env strat addr) s0) =
      (Some rcs, t)"
  shows "length rcs = length cs \<and> at_prompt t \<and> view_of t = fold view_step (zip cs rcs) (view_of s0)"
proof -
  have "keeps_view (view_of s0) (app07a_main env strat addr)" by (rule app07a_main_keeps) (rule boot(2))
  then have "at_prompt (final (app07a_main env strat addr) s0)"
    "view_of (final (app07a_main env strat addr) s0) = view_of s0" using boot(1) unfolding keeps_view_def by blast+
  with core.session_view [OF _ run] show ?thesis by metis
qed

end

end
