(* ===== verification/App06.thy ===== *)
theory App06
  imports Images Cm55_Boot
begin

text \<open>
  The images of \<open>apps/06_pse84_m33_s_shell_ulp_lp_hp\<close> and of the secure core of
  \<open>apps/07a_pse84_m33s_m55_power_shell\<close> from reset: the \<open>SYS_INIT\<close> hooks in the order of their levels,
  \<open>main\<close>, and a shell session, with the strategy that the sources select. The lemmas carry the
  invariants of the parts (\<open>Pm_Hf0\<close>, \<open>Pm_Boot\<close>, \<open>Cm55_Boot\<close>, \<open>Pm_Cmds\<close>) over the whole run.
\<close>

section \<open>The images\<close>

text \<open>The hooks by level; the kernel runs the levels in this order, and then \<open>main\<close>.\<close>

datatype init_level = PRE_KERNEL_1 | PRE_KERNEL_2 | APPLICATION

fun app06_sys_init :: "soc_env \<Rightarrow> masks \<Rightarrow> init_level \<Rightarrow> ('z, int) soc_prog" where
  "app06_sys_init env M PRE_KERNEL_1 = pm_early_mcwdt_reset env M"
| "app06_sys_init env M PRE_KERNEL_2 = pm_deep_sleep_init env M"
| "app06_sys_init env M APPLICATION = pm_boot_optimize env M"

text \<open>App 07a has no hook at the application level.\<close>

fun app07a_sys_init :: "soc_env \<Rightarrow> masks \<Rightarrow> init_level \<Rightarrow> ('z, int) soc_prog" where
  "app07a_sys_init env M PRE_KERNEL_1 = app07a_pm_early_mcwdt_reset env M"
| "app07a_sys_init env M PRE_KERNEL_2 = pm_deep_sleep_init env M"
| "app07a_sys_init env M APPLICATION = return 0"

definition app06_strategy :: "soc_env \<Rightarrow> nat \<Rightarrow> u32 \<Rightarrow> 'z strategy" where
  "app06_strategy env fuel fail = hf0_strategy env fuel (plain_pdl env fail)"

text \<open>Hooks, \<open>main\<close> and session of an image, whose mode manager is that of \<open>Pm_Core\<close>.\<close>

definition shell_image ::
  "(init_level \<Rightarrow> ('z, int) soc_prog) \<Rightarrow> ('z, int) soc_prog \<Rightarrow> ('z, int list option) soc_prog \<Rightarrow>
   ('z, int list option) soc_prog" where
  "shell_image sys_init main session = do {
     for_each [PRE_KERNEL_1, PRE_KERNEL_2, APPLICATION] (\<lambda>l. do { sys_init l; return () });
     main;
     session
   }"

definition app06_image ::
  "soc_env \<Rightarrow> masks \<Rightarrow> nat \<Rightarrow> u32 \<Rightarrow> command list \<Rightarrow> ('z, int list option) soc_prog" where
  "app06_image env M fuel fail cmds =
     shell_image (app06_sys_init env M) (shell_main env (app06_strategy env fuel fail))
       (run_session env M (core_manager env fuel (app06_strategy env fuel fail)) cmds)"

definition app07a_image ::
  "soc_env \<Rightarrow> masks \<Rightarrow> nat \<Rightarrow> u32 \<Rightarrow> u32 \<Rightarrow> command list \<Rightarrow> ('z, int list option) soc_prog" where
  "app07a_image env M fuel fail addr cmds =
     shell_image (app07a_sys_init env M) (app07a_main env (app06_strategy env fuel fail) addr)
       (run_session env M (core_manager env fuel (app06_strategy env fuel fail)) cmds)"

section \<open>Calls that leave the demo its clocks and pins\<close>

text \<open>
  What no part of the image may do: gate the core clock or the console clock, move a divider other
  than the core's, touch the PLL both come from, reset the port of the trigger or of the LEDs, or
  write a register outside the list.
\<close>

definition demo_alive :: "soc_call \<Rightarrow> bool" where
  "demo_alive c \<longleftrightarrow>
     (case c of
        Clk k \<Rightarrow>
          (case k of
             Cy_SysClk_ClkHfDisable i \<Rightarrow> i \<noteq> 0 \<and> i \<noteq> 10
           | Cy_SysClk_ClkHfSetDivider i d \<Rightarrow> i = 0
           | Cy_SysClk_DpllLpDisable i \<Rightarrow> i \<noteq> 0
           | Cy_SysClk_PllDisable \<Rightarrow> False
           | Cy_SysClk_PllConfigure a b \<Rightarrow> False
           | Cy_SysClk_PllEnable t \<Rightarrow> False
           | _ \<Rightarrow> True)
      | Pm p \<Rightarrow> (case p of Cy_GPIO_Port_Deinit q \<Rightarrow> q \<noteq> KEEP_PORT_PM_BUSY \<and> q \<noteq> KEEP_PORT_LEDS | _ \<Rightarrow> True)
      | Wr r v \<Rightarrow> r \<in> {SCB2_TX_FIFO_WR, SMIF0_CORE_CTL, SMIF1_CORE_CTL, SRSS_PWR_CTL2, SRSS_CLK_IMO_CONFIG, SCB_SCR}
      | _ \<Rightarrow> True)"

text \<open>Both at once: alive, and neither the core divider nor the voltage moves.\<close>

definition steady :: "soc_call \<Rightarrow> bool" where
  "steady c \<longleftrightarrow> demo_alive c \<and> same_clocks c"

lemma benign_steady: "benign c \<Longrightarrow> steady c"
  by (cases c rule: benign.cases) (auto simp: steady_def demo_alive_def)

lemma same_clocks_calls [simp]:
  "same_clocks (Rd r)" "same_clocks (Wr r v)" "same_clocks (Cpu c)" "same_clocks (Out x)" "same_clocks (Uart u)"
  "same_clocks (Clk (Cy_SysClk_ClkHfDisable i))" "same_clocks (Clk (Cy_SysClk_DpllLpDisable i))"
  "same_clocks (Clk (Cy_SysClk_DpllHpDisable i))" "same_clocks (Clk Cy_SysClk_IhoDeepsleepDisable)"
  "same_clocks (Clk Cy_SysClk_ClkBakSetSource_PILO)" "same_clocks (Clk SystemCoreClockUpdate)"
  by (simp_all add: same_clocks_def)

definition enters :: "pm_call \<Rightarrow> bool" where
  "enters p \<longleftrightarrow> p \<in> {Cy_SysPm_SystemEnterHp, Cy_SysPm_SystemEnterLp, Cy_SysPm_SystemEnterUlp}"

lemma same_clocks_pm [simp]: "\<not> enters p \<Longrightarrow> same_clocks (Pm p)"
  by (cases p) (auto simp: same_clocks_def enters_def)

lemma enters_simps [simp]:
  "\<not> enters (Cy_SysEnableSOCMEM b)" "\<not> enters cy_pd_pdcm_clear_dependency_APPCPUSS_SYSCPU"
  "\<not> enters Cy_SysCM55SetDbgPort_DISABLE" "\<not> enters (cy_pd_ppu_set_power_mode_OFF q)"
  "\<not> enters (Cy_GPIO_Port_Deinit n)" "\<not> enters Cy_MCWDT_Unlock" "\<not> enters (Cy_MCWDT_Disable a t)"
  "\<not> enters (Cy_MCWDT_ClearInterrupt a)" "\<not> enters (Cy_MCWDT_SetInterruptMask a)" "\<not> enters Cy_SysPm_Init"
  "\<not> enters Cy_SysPm_CoreBuckDpslpSetVoltage_0_70V" "\<not> enters Cy_SysPm_CoreBuckDpslpSetMode_LP"
  "\<not> enters (Cy_SysPm_CoreBuckDpslpEnableOverride b)" "\<not> enters (Cy_SysPm_SetDeepSleepMode d)"
  "\<not> enters Cy_SysPm_CpuEnterDeepSleep"
  by (simp_all add: enters_def)

lemma quiet_rmw_steady:
  "demo_alive (Wr r 0) \<Longrightarrow> quiet steady (rmw env r f)"
  unfolding rmw_def by (intro quiet_intros) (simp_all add: steady_def demo_alive_def)

lemma quiet_deep_sleep_init: "quiet steady (pm_deep_sleep_init env M)"
  by (auto simp: pm_deep_sleep_init_def deep_sleep_bgref_lp_def deep_sleep_buck_config_def deep_sleep_stop_osc_def
        deep_sleep_backup_clock_def steady_def demo_alive_def intro!: quiet_intros quiet_rmw_steady)

lemma quiet_inits: "quiet steady (app06_sys_init env M l)"
proof (cases l)
  case PRE_KERNEL_1
  then show ?thesis
    by (auto simp: pm_early_mcwdt_reset_def steady_def demo_alive_def intro!: quiet_intros)
next
  case PRE_KERNEL_2
  then show ?thesis by (simp add: quiet_deep_sleep_init)
next
  case APPLICATION
  have hf: "quiet steady (trim_unused_hf_clocks env)"
    by (simp add: trim_unused_hf_clocks_def s_unused_hf_clocks_def)
      (intro quiet_intros; simp add: steady_def demo_alive_def)
  have ports: "quiet steady (trim_unused_gpio_ports env)"
    unfolding trim_unused_gpio_ports_def
  proof (rule quiet_for_each)
    fix p :: u32
    show "quiet steady (if p = KEEP_PORT_PM_BUSY \<or> p = KEEP_PORT_LEDS then return ()
        else tell env (Pm (Cy_GPIO_Port_Deinit p)))"
      by (auto simp: steady_def demo_alive_def intro!: quiet_intros)
  qed
  from APPLICATION show ?thesis
    by (auto simp: pm_boot_optimize_def trim_socmem_def trim_smif_def trim_app_domain_def trim_unused_plls_def
        steady_def demo_alive_def intro!: quiet_intros quiet_rmw_steady hf ports)
qed

lemma quiet_app07a_inits: "quiet steady (app07a_sys_init env M l)"
  by (cases l) (auto simp: app07a_pm_early_mcwdt_reset_def quiet_deep_sleep_init steady_def demo_alive_def
      intro!: quiet_intros)

lemma shell_call_steady: "shell_call c \<Longrightarrow> steady c"
  by (auto simp: shell_call_def steady_def demo_alive_def split: soc_call.splits)

lemma shell_call_alive: "shell_call c \<Longrightarrow> demo_alive c"
  using shell_call_steady by (simp add: steady_def)

section \<open>The invariant\<close>

text \<open>Clock, voltage and recorded mode agree, with every call so far within the ceiling.\<close>

definition in_step :: "'z soc_scheme \<Rightarrow> bool" where
  "in_step s \<longleftrightarrow> valid_mode (s_current_mode s) \<and> hf0_agrees (s_current_mode s) (calls s)"

text \<open>A program that hangs may leave clock and mode apart, but within the ceiling.\<close>

definition within_ceiling :: "'z soc_scheme \<Rightarrow> bool" where
  "within_ceiling s \<longleftrightarrow> valid_mode (s_current_mode s) \<and> always_in_envelope (calls s)"

interpretation hf0_image: image_invariant in_step within_ceiling same_clocks
  by unfold_locales
    (auto simp: in_step_def within_ceiling_def hf0_agrees_def [of _ "calls _"] agrees_same steady_def
      dest: shell_call_steady)

lemma stays_switch: "stays in_step within_ceiling (pm_switch_to env fuel (app06_strategy env fuel fail) m)"
  unfolding stays_def in_step_def within_ceiling_def app06_strategy_def
proof (intro allI impI)
  fix s
  let ?m = "pm_switch_to env fuel (hf0_strategy env fuel (plain_pdl env fail)) m"
  assume "valid_mode (s_current_mode s) \<and> hf0_agrees (s_current_mode s) (calls s)"
  then show "(valid_mode (s_current_mode (final ?m s)) \<and> always_in_envelope (calls (final ?m s))) \<and>
      (result ?m s \<noteq> None \<longrightarrow> valid_mode (s_current_mode (final ?m s)) \<and>
        hf0_agrees (s_current_mode (final ?m s)) (calls (final ?m s)))"
    using hf0r.switch_to_agrees [of s env fuel env fuel fail m "result ?m s" "final ?m s"] by auto
qed

lemma quiet_clocks_alive:
  assumes "quiet steady m"
  shows "quiet same_clocks m" and "quiet demo_alive m"
  using quiet_mono [OF assms] by (simp_all add: steady_def)

lemma quiet_steady_probe: "quiet steady (pm_clock_probe env (app06_strategy env fuel fail))"
  unfolding app06_strategy_def by (rule quiet_mono [OF quiet_clock_probe [OF hf0.probe_quiet] benign_steady])

text \<open>Mode, clock and voltage move together in every session.\<close>

lemma in_step_session:
  "stays in_step within_ceiling (run_session env M (core_manager env fuel (app06_strategy env fuel fail)) cs)"
  by (rule hf0_image.stays_session)
    (auto simp: core_manager_def pm_current_mode_def
      intro!: quiet_intros stays_switch hf0_image.stays_confined confined_intros
        confined_quiet [OF quiet_clocks_alive(1) [OF quiet_steady_probe]])

text \<open>And every command leaves the demo its clocks and pins.\<close>

lemma benign_alive: "benign c \<Longrightarrow> demo_alive c"
  using benign_steady by (simp add: steady_def)

lemma alive_transition: "confined demo_alive (hf0_transition env fuel (plain_pdl env fail) a b)"
proof -
  have enter: "confined demo_alive (pm_syspm_enter env fuel (plain_pdl env fail) m)" for m
  proof (rule confined_enter [OF benign_alive])
    show "confined demo_alive (Cy_SysPm_SystemEnter (plain_pdl env fail) k)" for k
      unfolding plain_pdl_def pdl.simps by (intro confined_intros) (cases k; simp add: demo_alive_def)
  qed simp
  have trans: "confined demo_alive (trans_lower env fuel (plain_pdl env fail) l d1 d2 m v msg)"
    "confined demo_alive (trans_raise env fuel (plain_pdl env fail) l d1 m v msg)" for l d1 d2 m v msg
    unfolding trans_lower_def trans_raise_def record_phases_def
    by (intro confined_intros enter; simp add: demo_alive_def)+
  show ?thesis
    by (auto simp: hf0_transition_def trans_hp_to_lp_def trans_hp_to_ulp_def trans_lp_to_ulp_def trans_ulp_to_lp_def
        trans_lp_to_hp_def trans_ulp_to_hp_def trans intro!: confined_intros split: pm_mode_t.split)
qed

lemma emits_alive: "quiet benign m \<Longrightarrow> emits demo_alive m"
  by (rule emits_mono [OF emits_quiet benign_alive])

lemma alive_switch: "emits demo_alive (pm_switch_to env fuel (app06_strategy env fuel fail) m)"
proof -
  have pulse: "emits demo_alive (gpio_indicators_transition_begin env)" "emits demo_alive (gpio_indicators_transition_end env)"
    by (rule emits_mono [OF emits_quiet [OF quiet_pins(2)]], simp add: shell_call_alive)
      (rule emits_mono [OF emits_quiet [OF quiet_pins(3)]], simp add: shell_call_alive)
  have finish: "emits demo_alive (pm_switch_done env fuel (app06_strategy env fuel fail) a b cyc)" for a b cyc
    unfolding pm_switch_done_def app06_strategy_def
    by (intro emits_intros emits_alive quiet_TRACE quiet_flush_benign quiet_reconfigure quiet_clock_probe
        hf0.print_quiet hf0.probe_quiet)
      (simp_all add: demo_alive_def)
  have move: "emits demo_alive (pm_strategy_transition (app06_strategy env fuel fail) a b)" for a b
    by (simp add: app06_strategy_def hf0_strategy_def emits_confined [OF alive_transition])
  show ?thesis
    unfolding pm_switch_to_def
    by (intro emits_intros pulse finish move emits_alive [OF quiet_TRACE]) (simp_all add: demo_alive_def)
qed

lemma alive_session: "emits demo_alive (run_session env M (core_manager env fuel (app06_strategy env fuel fail)) cs)"
  by (rule emits_session)
    (auto simp: core_manager_def pm_current_mode_def steady_def dest: shell_call_steady
      intro!: quiet_intros alive_switch emits_intros emits_quiet [OF quiet_clocks_alive(2) [OF quiet_steady_probe]])

section \<open>The whole run\<close>

text \<open>A \<open>main\<close> that only makes steady calls and leaves the mode at HP, as the hooks do.\<close>

lemma quiet_startup: "quiet steady (app_pse84_cm55_startup env addr)"
  unfolding app_pse84_cm55_startup_def STEP_def
  by (intro quiet_intros) (simp_all add: steady_def demo_alive_def enters_def)

lemma emits_init: "emits steady (pm_init env (app06_strategy env fuel fail))"
  unfolding pm_init_def app06_strategy_def hf0_strategy_def
  by (auto simp: steady_def demo_alive_def intro!: emits_intros)

lemma emits_mains:
  "emits steady (shell_main env (app06_strategy env fuel fail))"
  "emits steady (app07a_main env (app06_strategy env fuel fail) addr)"
  unfolding shell_main_def app07a_main_def pm_current_mode_def
  by (intro emits_intros emits_init emits_quiet [OF quiet_startup] emits_mono [OF emits_quiet [OF quiet_pins(4)] shell_call_steady];
    simp add: steady_def demo_alive_def)+

lemma init_mode: "s_current_mode (final (pm_init env (app06_strategy env fuel fail)) s) = PM_MODE_HP"
  by (simp add: pm_init_def app06_strategy_def hf0_strategy_def)

lemma main_modes:
  "s_current_mode (final (shell_main env (app06_strategy env fuel fail)) s) = PM_MODE_HP"
  "s_current_mode (final (app07a_main env (app06_strategy env fuel fail) addr) s) = PM_MODE_HP"
  by (simp_all add: shell_main_def app07a_main_def pm_current_mode_def split_beta init_mode)

lemma in_step_boot: "in_step soc_boot"
  by (simp add: in_step_def soc_boot_def hf0_agrees_def commanded_def always_in_envelope_def in_envelope_def)

text \<open>What is claimed of a run of an image, and when it holds.\<close>

definition run_safe :: "soc_env \<Rightarrow> nat \<Rightarrow> command list \<Rightarrow> int list option \<times> 'z soc_scheme \<Rightarrow> bool" where
  "run_safe env fuel cmds p \<longleftrightarrow>
     (let (r, t) = p in
      always_in_envelope (calls t) \<and> valid_mode (s_current_mode t) \<and> list_all (demo_alive \<circ> fst) (calls t) \<and>
      (case r of None \<Rightarrow> \<not> tx_drains env fuel
       | Some rcs \<Rightarrow> length rcs = length cmds \<and>
           commanded (calls t) = (hf0_divider (s_current_mode t), s_current_mode t)))"

lemma image_run_safe:
  fixes main :: "(unit, int) soc_prog"
  assumes hooks: "\<And>l. quiet steady (sys_init l)" and emits: "emits steady main"
    and mode: "\<And>s. s_current_mode (final main s) = PM_MODE_HP"
  shows "run_safe env fuel cmds (run_state (shell_image sys_init main
    (run_session env M (core_manager env fuel (app06_strategy env fuel fail)) cmds)) soc_boot)"
proof -
  let ?S = "app06_strategy env fuel fail :: unit strategy"
  let ?hooks = "for_each [PRE_KERNEL_1, PRE_KERNEL_2, APPLICATION] (\<lambda>l. do { sys_init l; return () })"
  let ?session = "run_session env M (core_manager env fuel ?S) cmds"
  have q: "quiet steady ?hooks" by (intro quiet_intros hooks)
  define s1 where "s1 = final ?hooks soc_boot"
  define s2 where "s2 = final main s1"
  obtain r t where rt: "run_state ?session s2 = (r, t)" by fastforce
  have run: "run_state (shell_image sys_init main ?session) soc_boot = (r, t)"
    using rt by (simp add: shell_image_def s1_def s2_def split_beta)
  have conf: "confined same_clocks ?hooks" by (rule confined_quiet [OF quiet_clocks_alive(1) [OF q]])
  then have hp: "s_current_mode s1 = PM_MODE_HP"
    by (simp add: s1_def confined_def) (simp add: soc_boot_def)
  have "in_step s1" unfolding s1_def by (rule hf0_image.confined_carry [OF conf in_step_boot])
  then have "in_step s2"
    unfolding s2_def
    by (intro hf0_image.emits_carry emits_mono [OF emits]) (simp_all add: mode hp steady_def)
  then have stay: "within_ceiling t \<and> (r \<noteq> None \<longrightarrow> in_step t)"
    using in_step_session [of env M fuel fail cmds, unfolded stays_def] rt by (metis fst_conv snd_conv)
  have "emits demo_alive (shell_image sys_init main ?session)"
    unfolding shell_image_def
    by (intro emits_intros emits_quiet [OF quiet_clocks_alive(2) [OF hooks]] alive_session emits_mono [OF emits])
      (simp add: steady_def)
  then have alive: "list_all (demo_alive \<circ> fst) (calls t)"
    unfolding emits_def using run by (auto simp: soc_boot_def dest: spec [of _ soc_boot])
  have hang: "\<not> tx_drains env fuel" if "r = None"
  proof
    assume d: "tx_drains env fuel"
    have "returns ?session"
      by (rule returns_session)
        (auto simp: core_manager_def app06_strategy_def
          intro!: returns_intros returns_switch_to [OF d order_refl returns_hf0 [OF d order_refl]])
    then show False using that rt by (metis fst_conv returns_def)
  qed
  show ?thesis
    unfolding run run_safe_def
    using stay alive hang session_length [of env M "core_manager env fuel ?S" cmds s2 _ t] rt
    by (auto simp: in_step_def within_ceiling_def hf0_agrees_def split: option.split)
qed

text \<open>
  Property C5. From reset the images of apps 06 and 07a never overclock the core and never take from
  the demo what it needs. Over the boot hooks, \<open>main\<close> (in app 07a with the release of the CM55) and any
  shell session, for any answers of the PDL, the drivers and the registers and even if a trace hangs:
  at every call the core clock is within the ceiling of the core voltage; the core and console clocks
  are never gated, the PLL they come from and the console divider never touched, the ports of the
  trigger and of the LEDs never reset, and no register outside the six of the list is written. The
  image hangs only if the console does not drain; otherwise every command returns, with divider and
  voltage those of the recorded mode at the prompt.
\<close>

theorem app06_image_safe:
  "run_safe env fuel cmds (run_state (app06_image env M fuel fail cmds) soc_boot) \<and>
   run_safe env fuel cmds (run_state (app07a_image env M fuel fail addr cmds) soc_boot)"
  unfolding app06_image_def app07a_image_def
  by (intro conjI image_run_safe quiet_inits quiet_app07a_inits emits_mains main_modes)

end
