(* ===== verification/Psa.thy ===== *)
theory Psa
  imports Script
begin

text \<open>
  The PSA client and service interface, as \<open>z_pm_client.c\<close> and \<open>z_pm_partition.c\<close> of apps 02
  and 07 use it. The secure partition manager is not part of the repository: it may refuse a call
  with any status, it delivers the message otherwise, and it may hand the service fewer bytes than
  asked for; all three are answers of the environment. Writing more than the client's buffer holds
  is a programmer error that ends in a panic (\<open>None\<close>). A partition is a function from messages
  to programs, and the locale states what its clients rely on.
\<close>

section \<open>Status codes and words\<close>

abbreviation (input) PSA_SUCCESS :: int where "PSA_SUCCESS \<equiv> 0"
abbreviation (input) PSA_ERROR_GENERIC_ERROR :: int where "PSA_ERROR_GENERIC_ERROR \<equiv> -132"
abbreviation (input) PSA_ERROR_NOT_SUPPORTED :: int where "PSA_ERROR_NOT_SUPPORTED \<equiv> -134"
abbreviation (input) PSA_ERROR_INVALID_ARGUMENT :: int where "PSA_ERROR_INVALID_ARGUMENT \<equiv> -135"
abbreviation (input) PSA_ERROR_BUFFER_TOO_SMALL :: int where "PSA_ERROR_BUFFER_TOO_SMALL \<equiv> -138"
abbreviation (input) PSA_ERROR_COMMUNICATION_FAILURE :: int where "PSA_ERROR_COMMUNICATION_FAILURE \<equiv> -145"

text \<open>A little-endian word in memory.\<close>

definition le32 :: "u32 \<Rightarrow> u8 list" where
  "le32 w = bytes_le 4 w"

definition word_at :: "u8 list \<Rightarrow> nat \<Rightarrow> u32" where
  "word_at bs i = word_le (take 4 (drop i bs))"

lemma length_le32 [simp]: "length (le32 w) = 4"
  by (simp add: le32_def)

lemma word_at_le32 [simp]: "word_at (le32 w @ bs) 0 = w"
  by (simp add: word_at_def le32_def word_le_bytes_le)

lemma word_at_le32_only [simp]: "word_at (le32 w) 0 = w"
  using word_at_le32 [of w "[]"] by simp

lemma word_at_skip: "word_at (le32 w @ bs) (4 + i) = word_at bs i"
  by (simp add: word_at_def)

text \<open>Several words one after the other.\<close>

definition words :: "u32 list \<Rightarrow> u8 list" where
  "words ws = concat (map le32 ws)"

lemma words_simps [simp]: "words [] = []" "words (w # ws) = le32 w @ words ws"
  by (simp_all add: words_def)

lemma length_words [simp]: "length (words ws) = 4 * length ws"
  by (induction ws) simp_all

lemma word_at_words: "i < length ws \<Longrightarrow> word_at (words ws) (4 * i) = ws ! i"
proof (induction ws arbitrary: i)
  case (Cons w ws)
  then show ?case by (cases i) (simp_all add: word_at_skip)
qed simp

section \<open>Messages\<close>

text \<open>The message with its first input vector; \<open>in_size[0]\<close> is the length of that vector.\<close>

record psa_msg =
  msg_type :: int
  out_size :: nat
  msg_in :: "u8 list"

definition in_size :: "psa_msg \<Rightarrow> nat" where
  "in_size msg = length (msg_in msg)"

type_synonym ('z, 'a) sfn = "('z, 'a option) soc_prog"
type_synonym 'z service = "psa_msg \<Rightarrow> ('z, int \<times> u8 list) sfn"

definition psa_read :: "soc_env \<Rightarrow> psa_msg \<Rightarrow> nat \<Rightarrow> ('z, nat \<times> u8 list) soc_prog" where
  "psa_read env msg n = do {
     k \<leftarrow> ask env (PsaRead n);
     return (unat k, take n (msg_in msg))
   }"

definition psa_write :: "psa_msg \<Rightarrow> u8 list \<Rightarrow> ('z, u8 list) sfn" where
  "psa_write msg data = return (if length data \<le> out_size msg then Some data else None)"

definition psa_call :: "soc_env \<Rightarrow> 'z service \<Rightarrow> int \<Rightarrow> u8 list \<Rightarrow> nat \<Rightarrow> ('z, int \<times> u8 list) sfn" where
  "psa_call env svc op inb outn = do {
     r \<leftarrow> ask env (Psa op (length inb) outn);
     if r \<noteq> 0 then return (Some (sint r, []))
     else svc \<lparr>msg_type = op, out_size = outn, msg_in = inb\<rparr>
   }"

text \<open>What a buffer of the client holds after the service wrote to it.\<close>

definition filled :: "u8 list \<Rightarrow> u8 list \<Rightarrow> u8 list" where
  "filled buf w = w @ drop (length w) buf"

lemma filled_simps [simp]: "filled buf [] = buf" "length buf = length w \<Longrightarrow> filled buf w = w"
  by (simp_all add: filled_def)

lemma length_filled: "length w \<le> length buf \<Longrightarrow> length (filled buf w) = length buf"
  by (simp add: filled_def)

section \<open>What clients rely on\<close>

text \<open>
  What a partition may reach: the clock tree, the power controls (but no wait), two registers and
  the message. It has no pins, no console, no CPU state and no kernel.
\<close>

definition waits :: "soc_call \<Rightarrow> bool" where
  "waits c \<longleftrightarrow> c = Pm Cy_SysPm_CpuEnterSleep \<or> c = Pm Cy_SysPm_CpuEnterDeepSleep \<or> c = Cpu WFI"

definition secure_call :: "soc_call \<Rightarrow> bool" where
  "secure_call c \<longleftrightarrow> \<not> waits c \<and>
     (case c of Clk k \<Rightarrow> True | Pm p \<Rightarrow> True | Rd r \<Rightarrow> True
      | Wr r v \<Rightarrow> r = SRSS_PWR_CTL2 \<or> r = SRSS_CLK_IMO_CONFIG | PsaRead n \<Rightarrow> True | _ \<Rightarrow> False)"

lemma secure_simps [simp]:
  "secure_call (Clk k)" "secure_call (Rd r)" "secure_call (PsaRead n)"
  "secure_call (Wr SRSS_PWR_CTL2 v)" "secure_call (Wr SRSS_CLK_IMO_CONFIG v)"
  "secure_call (Pm p) \<longleftrightarrow> p \<noteq> Cy_SysPm_CpuEnterSleep \<and> p \<noteq> Cy_SysPm_CpuEnterDeepSleep"
  "\<not> secure_call (Cpu x)" "\<not> secure_call (Gpio g)" "\<not> secure_call (Out y)"
  by (auto simp: secure_call_def waits_def)

text \<open>
  A service answers every message: it never panics, whatever the message, and writes no more than
  the client gave it room for. It leaves the variables of the program alone.
\<close>

locale psa_service =
  fixes svc :: "'z service"
  assumes answers: "runs (svc msg) (\<lambda>y h. \<exists>st w. y = Some (st, w) \<and> length w \<le> out_size msg)"
begin

lemma call_answers:
  "runs (psa_call env svc op inb n) (\<lambda>y h. \<exists>st w. y = Some (st, w) \<and> length w \<le> n)"
  unfolding psa_call_def
  by (rule runs_conseq, (rule runs_intros answers)+) (auto split: if_splits)

end

text \<open>A service that also keeps within its reach.\<close>

locale secure_service = psa_service svc for svc :: "'z service" +
  assumes within: "quiet secure_call (svc msg)"
begin

lemma call_within:
  "runs (psa_call env svc op inb n) (\<lambda>y h. \<exists>st w r k. y = Some (st, w) \<and> h = (Psa op (length inb) n, r) # k \<and>
     list_all (secure_call \<circ> fst) k)"
  unfolding runs_def
proof
  fix s :: "'z soc_scheme"
  let ?r = "env (calls s) (Psa op (length inb) n)"
  let ?u = "s\<lparr>calls := calls s @ [(Psa op (length inb) n, ?r)]\<rparr>"
  let ?msg = "\<lparr>msg_type = op, out_size = n, msg_in = inb\<rparr>"
  obtain k where k: "final (svc ?msg) ?u = ?u\<lparr>calls := calls ?u @ k\<rparr>" "list_all (secure_call \<circ> fst) k"
    using quietE [OF within] by blast
  obtain st w where "result (svc ?msg) ?u = Some (st, w)"
    using spec [OF answers [of ?msg, unfolded runs_def], of ?u] by blast
  with k show "\<exists>new. final (psa_call env svc op inb n) s = s\<lparr>calls := calls s @ new\<rparr> \<and>
      (\<exists>st w r k. result (psa_call env svc op inb n) s = Some (st, w) \<and>
        new = (Psa op (length inb) n, r) # k \<and> list_all (secure_call \<circ> fst) k)"
    by (cases "?r = 0") (auto simp: psa_call_def)
qed

end

end
