(* ===== verification/Zpm.thy ===== *)
theory Zpm
  imports Psa Pm_Core Pm_Boot
begin

text \<open>
  The secure partition \<open>z_pm\<close> and its client: \<open>tfm_partitions/z_pm/z_pm_partition.c\<close> and
  \<open>cm33_ns/src/z_pm_client.c\<close> of \<open>apps/07_pse84_tfm_m33_m55_power_shell\<close>, and the dispatcher of
  the partition of app 02, whose three operations are the same code. The partition is the boundary
  to the secure world, so its properties are about every message. Register masks are parameters.
\<close>

section \<open>Operations and modes\<close>

definition Z_PM_OP_PING :: int where "Z_PM_OP_PING = 1"
definition Z_PM_OP_LAYER_B_INIT :: int where "Z_PM_OP_LAYER_B_INIT = 2"
definition Z_PM_OP_SET_DEEP_SLEEP_MODE :: int where "Z_PM_OP_SET_DEEP_SLEEP_MODE = 3"
definition Z_PM_OP_SWITCH_ACTIVE_MODE :: int where "Z_PM_OP_SWITCH_ACTIVE_MODE = 4"
definition Z_PM_OP_CLOCK_PROBE :: int where "Z_PM_OP_CLOCK_PROBE = 5"
definition Z_PM_OP_DEEP_SLEEP_BIAS :: int where "Z_PM_OP_DEEP_SLEEP_BIAS = 6"
definition Z_PM_OP_BOOT_CLOCK_RETUNE :: int where "Z_PM_OP_BOOT_CLOCK_RETUNE = 7"

definition Z_PM_PING_COOKIE :: u32 where "Z_PM_PING_COOKIE = 0xABCD1234"

definition Z_PM_MODE_ULP :: u32 where "Z_PM_MODE_ULP = 0"
definition Z_PM_MODE_LP :: u32 where "Z_PM_MODE_LP = 1"
definition Z_PM_MODE_HP :: u32 where "Z_PM_MODE_HP = 2"

lemmas z_pm_ops = Z_PM_OP_PING_def Z_PM_OP_LAYER_B_INIT_def Z_PM_OP_SET_DEEP_SLEEP_MODE_def
  Z_PM_OP_SWITCH_ACTIVE_MODE_def Z_PM_OP_CLOCK_PROBE_def Z_PM_OP_DEEP_SLEEP_BIAS_def
  Z_PM_OP_BOOT_CLOCK_RETUNE_def

lemmas z_pm_modes = Z_PM_MODE_ULP_def Z_PM_MODE_LP_def Z_PM_MODE_HP_def

section \<open>The partition\<close>

definition reply :: "psa_msg \<Rightarrow> u8 list \<Rightarrow> ('z, int \<times> u8 list) sfn" where
  "reply msg data = obind (psa_write msg data) (\<lambda>w. return (Some (PSA_SUCCESS, w)))"

definition status :: "int \<Rightarrow> ('z, int \<times> u8 list) sfn" where
  "status st = return (Some (st, []))"

definition z_pm_op_ping :: "psa_msg \<Rightarrow> ('z, int \<times> u8 list) sfn" where
  "z_pm_op_ping msg =
     (if out_size msg < 4 then status PSA_ERROR_BUFFER_TOO_SMALL
      else reply msg (le32 Z_PM_PING_COOKIE))"

definition z_pm_op_layer_b_init :: "soc_env \<Rightarrow> masks \<Rightarrow> ('z, int \<times> u8 list) sfn" where
  "z_pm_op_layer_b_init env M = do {
     tell env (Clk Cy_SysClk_IhoDeepsleepDisable);
     rmw env SRSS_CLK_IMO_CONFIG (\<lambda>v. v AND NOT (SRSS_CLK_IMO_CONFIG_DPSLP_ENABLE_Msk M));
     status PSA_SUCCESS
   }"

text \<open>The enumeration \<open>cy_en_syspm_deep_sleep_mode_t\<close>, from 0 to \<open>CY_SYSPM_MODE_DEEPSLEEP_OFF\<close> = 2.\<close>

definition deep_sleep_mode_of :: "u32 \<Rightarrow> deep_sleep_mode" where
  "deep_sleep_mode_of n =
     (if n = 0 then CY_SYSPM_MODE_DEEPSLEEP else if n = 1 then CY_SYSPM_MODE_DEEPSLEEP_RAM
      else CY_SYSPM_MODE_DEEPSLEEP_OFF)"

definition z_pm_op_set_deep_sleep_mode ::
  "soc_env \<Rightarrow> masks \<Rightarrow> psa_msg \<Rightarrow> ('z, int \<times> u8 list) sfn" where
  "z_pm_op_set_deep_sleep_mode env M msg =
     (if in_size msg < 4 then status PSA_ERROR_INVALID_ARGUMENT
      else do {
        (k, bs) \<leftarrow> psa_read env msg 4;
        if k \<noteq> 4 then status PSA_ERROR_COMMUNICATION_FAILURE
        else if word_at bs 0 > 2 then status PSA_ERROR_INVALID_ARGUMENT
        else do {
          st \<leftarrow> ask env (Pm (Cy_SysPm_SetDeepSleepMode (deep_sleep_mode_of (word_at bs 0))));
          if st \<noteq> 0 then status PSA_ERROR_GENERIC_ERROR
          else do {
            rmw env SRSS_PWR_CTL2 (\<lambda>v. v OR SRSS_PWR_CTL2_BGREF_LPMODE_Msk M);
            tell env (Pm Cy_SysPm_CoreBuckDpslpSetVoltage_0_70V);
            tell env (Pm Cy_SysPm_CoreBuckDpslpSetMode_LP);
            tell env (Pm (Cy_SysPm_CoreBuckDpslpEnableOverride True));
            status PSA_SUCCESS
          }
        }
      })"

definition hf0_div_for_mode :: "u32 \<Rightarrow> nat" where
  "hf0_div_for_mode target =
     (if target = Z_PM_MODE_HP then 2 else if target = Z_PM_MODE_LP then 6
      else if target = Z_PM_MODE_ULP then 8 else 2)"

definition core_buck_profile_for_mode :: "u32 \<Rightarrow> pm_mode_t" where
  "core_buck_profile_for_mode target =
     (if target = Z_PM_MODE_HP then PM_MODE_HP else if target = Z_PM_MODE_LP then PM_MODE_LP
      else if target = Z_PM_MODE_ULP then PM_MODE_ULP else PM_MODE_HP)"

definition core_buck_only_enter :: "soc_env \<Rightarrow> u32 \<Rightarrow> u32 \<Rightarrow> ('z, u32) soc_prog" where
  "core_buck_only_enter env source target =
     (if source = Z_PM_MODE_LP \<and> target = Z_PM_MODE_ULP then do {
        st \<leftarrow> ask env (Pm (Cy_SysPm_SramLdoEnable True));
        if st \<noteq> 0 then return st
        else do {
          tell env (Pm (Cy_SysPm_CoreBuckSetProfile PM_MODE_ULP));
          ask env (Pm Cy_SysPm_CoreBuckStatus)
        }
      }
      else if source = Z_PM_MODE_ULP \<and> target = Z_PM_MODE_LP then do {
        tell env (Pm (Cy_SysPm_CoreBuckSetProfile PM_MODE_LP));
        st \<leftarrow> ask env (Pm Cy_SysPm_CoreBuckStatus);
        if st \<noteq> 0 then return st
        else ask env (Pm (Cy_SysPm_SramLdoEnable False))
      }
      else do {
        tell env (Pm (Cy_SysPm_CoreBuckSetProfile (core_buck_profile_for_mode target)));
        ask env (Pm Cy_SysPm_CoreBuckStatus)
      })"

definition trans_down :: "soc_env \<Rightarrow> u32 \<Rightarrow> u32 \<Rightarrow> ('z, int) soc_prog" where
  "trans_down env source target = do {
     tell env (Clk (Cy_SysClk_ClkHfSetDivider 0 (hf0_div_for_mode target)));
     st \<leftarrow> core_buck_only_enter env source target;
     if st \<noteq> 0 then do {
       tell env (Clk (Cy_SysClk_ClkHfSetDivider 0 (hf0_div_for_mode source)));
       return (-6)
     }
     else return 0
   }"

definition trans_up :: "soc_env \<Rightarrow> u32 \<Rightarrow> u32 \<Rightarrow> ('z, int) soc_prog" where
  "trans_up env source target = do {
     st \<leftarrow> core_buck_only_enter env source target;
     if st \<noteq> 0 then return (-6)
     else do {
       tell env (Clk (Cy_SysClk_ClkHfSetDivider 0 (hf0_div_for_mode target)));
       return 0
     }
   }"

definition z_pm_op_switch_active_mode :: "soc_env \<Rightarrow> psa_msg \<Rightarrow> ('z, int \<times> u8 list) sfn" where
  "z_pm_op_switch_active_mode env msg =
     (if in_size msg < 8 then status PSA_ERROR_INVALID_ARGUMENT
      else if out_size msg < 4 then status PSA_ERROR_BUFFER_TOO_SMALL
      else do {
        (k, bs) \<leftarrow> psa_read env msg 8;
        if k \<noteq> 8 then status PSA_ERROR_COMMUNICATION_FAILURE
        else if word_at bs 0 > Z_PM_MODE_HP \<or> word_at bs 4 > Z_PM_MODE_HP
        then status PSA_ERROR_INVALID_ARGUMENT
        else if word_at bs 0 = word_at bs 4 then reply msg (le32 0)
        else do {
          rc \<leftarrow> (if word_at bs 4 < word_at bs 0 then trans_down env (word_at bs 0) (word_at bs 4)
            else trans_up env (word_at bs 0) (word_at bs 4));
          reply msg (le32 (word_of_int rc))
        }
      })"

definition measure_hz :: "soc_env \<Rightarrow> meas_clk \<Rightarrow> ('z, u32) soc_prog" where
  "measure_hz env measured = do {
     st \<leftarrow> ask env (Clk (Cy_SysClk_StartClkMeasurementCounters PM_PROBE_REF_COUNT measured));
     if st \<noteq> 0 then return 0
     else do {
       safety \<leftarrow> measure_spin env PM_MEAS_SAFETY_ITERS;
       if safety = 0 then return 0
       else ask env (Clk Cy_SysClk_ClkMeasurementCountersGetFreq)
     }
   }"

definition z_pm_op_clock_probe :: "soc_env \<Rightarrow> psa_msg \<Rightarrow> ('z, int \<times> u8 list) sfn" where
  "z_pm_op_clock_probe env msg =
     (if out_size msg < 24 then status PSA_ERROR_BUFFER_TOO_SMALL
      else do {
        meas_path0 \<leftarrow> measure_hz env CY_SYSCLK_MEAS_CLK_PATH0;
        meas_hf0 \<leftarrow> measure_hz env CY_SYSCLK_MEAS_CLK_CLKHF0;
        meas_hf10 \<leftarrow> measure_hz env CY_SYSCLK_MEAS_CLK_CLKHF10;
        comp_path0 \<leftarrow> ask env (Clk (Cy_SysClk_ClkPathGetFrequency 0));
        comp_hf0 \<leftarrow> ask env (Clk (Cy_SysClk_ClkHfGetFrequency 0));
        comp_hf10 \<leftarrow> ask env (Clk (Cy_SysClk_ClkHfGetFrequency 10));
        reply msg (words [meas_path0, meas_hf0, meas_hf10, comp_path0, comp_hf0, comp_hf10])
      })"

definition z_pm_op_deep_sleep_bias :: "soc_env \<Rightarrow> masks \<Rightarrow> ('z, int \<times> u8 list) sfn" where
  "z_pm_op_deep_sleep_bias env M = do {
     tell env (Pm Cy_SysPm_Init);
     rmw env SRSS_PWR_CTL2 (\<lambda>v. v OR SRSS_PWR_CTL2_BGREF_LPMODE_Msk M);
     tell env (Pm Cy_SysPm_CoreBuckDpslpSetVoltage_0_70V);
     tell env (Pm Cy_SysPm_CoreBuckDpslpSetMode_LP);
     tell env (Pm (Cy_SysPm_CoreBuckDpslpEnableOverride True));
     tell env (Clk Cy_SysClk_IhoDeepsleepDisable);
     rmw env SRSS_CLK_IMO_CONFIG (\<lambda>v. v AND NOT (SRSS_CLK_IMO_CONFIG_DPSLP_ENABLE_Msk M));
     tell env (Clk Cy_SysClk_ClkBakSetSource_PILO);
     tell env (Pm (Cy_SysPm_SetDeepSleepMode CY_SYSPM_MODE_DEEPSLEEP));
     status PSA_SUCCESS
   }"

definition z_pm_op_boot_clock_retune :: "soc_env \<Rightarrow> ('z, int \<times> u8 list) sfn" where
  "z_pm_op_boot_clock_retune env = do {
     tell env (Clk Cy_SysClk_PllDisable);
     c \<leftarrow> ask env (Clk (Cy_SysClk_PllConfigure 50000000 200000000));
     if c \<noteq> 0 then status PSA_ERROR_GENERIC_ERROR
     else do {
       e \<leftarrow> ask env (Clk (Cy_SysClk_PllEnable 10000));
       if e \<noteq> 0 then status PSA_ERROR_GENERIC_ERROR
       else do {
         tell env (Clk (Cy_SysClk_ClkHfSetDivider 0 1));
         status PSA_SUCCESS
       }
     }
   }"

definition z_pm_service_sfn :: "soc_env \<Rightarrow> masks \<Rightarrow> 'z service" where
  "z_pm_service_sfn env M msg =
     (if msg_type msg = Z_PM_OP_PING then z_pm_op_ping msg
      else if msg_type msg = Z_PM_OP_LAYER_B_INIT then z_pm_op_layer_b_init env M
      else if msg_type msg = Z_PM_OP_SET_DEEP_SLEEP_MODE then z_pm_op_set_deep_sleep_mode env M msg
      else if msg_type msg = Z_PM_OP_SWITCH_ACTIVE_MODE then z_pm_op_switch_active_mode env msg
      else if msg_type msg = Z_PM_OP_CLOCK_PROBE then z_pm_op_clock_probe env msg
      else if msg_type msg = Z_PM_OP_DEEP_SLEEP_BIAS then z_pm_op_deep_sleep_bias env M
      else if msg_type msg = Z_PM_OP_BOOT_CLOCK_RETUNE then z_pm_op_boot_clock_retune env
      else status PSA_ERROR_NOT_SUPPORTED)"

text \<open>The dispatcher of the partition of app 02.\<close>

definition app02_z_pm_service_sfn :: "soc_env \<Rightarrow> masks \<Rightarrow> 'z service" where
  "app02_z_pm_service_sfn env M msg =
     (if msg_type msg = Z_PM_OP_PING then z_pm_op_ping msg
      else if msg_type msg = Z_PM_OP_LAYER_B_INIT then z_pm_op_layer_b_init env M
      else if msg_type msg = Z_PM_OP_SET_DEEP_SLEEP_MODE then z_pm_op_set_deep_sleep_mode env M msg
      else status PSA_ERROR_NOT_SUPPORTED)"

text \<open>The initialisation hook of both partitions: they keep no state.\<close>

definition z_pm_partition_init :: int where "z_pm_partition_init = PSA_SUCCESS"

text \<open>
  The partition's replacement of the C library's \<open>abs\<close>, which the vendor's PLL configuration
  calls: signed negation overflows on the smallest integer (\<open>None\<close>, undefined in C).
\<close>

definition abs_int :: "32 word \<Rightarrow> 32 word option" where
  "abs_int x =
     (if x <s 0 then if sint x = - (2 ^ 31) then None else Some (- x) else Some x)"

lemma abs_int_value: "abs_int x = (if sint x = - (2 ^ 31) then None else Some (word_of_int \<bar>sint x\<bar>))"
  by (auto simp: abs_int_def word_sless_alt)

section \<open>The client\<close>

text \<open>
  Output parameters are pointers: \<open>None\<close> is NULL, \<open>Some v\<close> a variable that holds \<open>v\<close>. The result
  is the status and the variable afterwards.
\<close>

definition z_pm_ping :: "soc_env \<Rightarrow> 'z service \<Rightarrow> u32 option \<Rightarrow> ('z, int \<times> u32 option) sfn" where
  "z_pm_ping env svc out_cookie =
     (case out_cookie of
        None \<Rightarrow> return (Some (PSA_ERROR_INVALID_ARGUMENT, None))
      | Some v \<Rightarrow> obind (psa_call env svc Z_PM_OP_PING [] 4) (\<lambda>(st, w).
          return (Some (st, Some (word_at (filled (le32 v) w) 0)))))"

definition z_pm_layer_b_init :: "soc_env \<Rightarrow> 'z service \<Rightarrow> ('z, int) sfn" where
  "z_pm_layer_b_init env svc = obind (psa_call env svc Z_PM_OP_LAYER_B_INIT [] 0) (\<lambda>(st, w). return (Some st))"

definition z_pm_set_deep_sleep_mode :: "soc_env \<Rightarrow> 'z service \<Rightarrow> u32 \<Rightarrow> ('z, int) sfn" where
  "z_pm_set_deep_sleep_mode env svc mode =
     obind (psa_call env svc Z_PM_OP_SET_DEEP_SLEEP_MODE (le32 mode) 0) (\<lambda>(st, w). return (Some st))"

definition z_pm_switch_active_mode ::
  "soc_env \<Rightarrow> 'z service \<Rightarrow> u32 \<Rightarrow> u32 \<Rightarrow> int option \<Rightarrow> ('z, int \<times> int option) sfn" where
  "z_pm_switch_active_mode env svc source target out_rc =
     (case out_rc of
        None \<Rightarrow> return (Some (PSA_ERROR_INVALID_ARGUMENT, None))
      | Some v \<Rightarrow> obind (psa_call env svc Z_PM_OP_SWITCH_ACTIVE_MODE (words [source, target]) 4) (\<lambda>(st, w).
          return (Some (st, Some (sint (word_at (filled (le32 0) w) 0))))))"

record z_pm_clock_probe_report =
  meas_path0 :: u32
  meas_hf0 :: u32
  meas_hf10 :: u32
  comp_path0 :: u32
  comp_hf0 :: u32
  comp_hf10 :: u32

definition report_words :: "z_pm_clock_probe_report \<Rightarrow> u32 list" where
  "report_words r = [meas_path0 r, meas_hf0 r, meas_hf10 r, comp_path0 r, comp_hf0 r, comp_hf10 r]"

definition report_at :: "u8 list \<Rightarrow> z_pm_clock_probe_report" where
  "report_at bs = \<lparr>meas_path0 = word_at bs 0, meas_hf0 = word_at bs 4, meas_hf10 = word_at bs 8,
     comp_path0 = word_at bs 12, comp_hf0 = word_at bs 16, comp_hf10 = word_at bs 20\<rparr>"

definition z_pm_clock_probe ::
  "soc_env \<Rightarrow> 'z service \<Rightarrow> z_pm_clock_probe_report option \<Rightarrow> ('z, int \<times> z_pm_clock_probe_report option) sfn"
  where
  "z_pm_clock_probe env svc report =
     (case report of
        None \<Rightarrow> return (Some (PSA_ERROR_INVALID_ARGUMENT, None))
      | Some r \<Rightarrow> obind (psa_call env svc Z_PM_OP_CLOCK_PROBE [] 24) (\<lambda>(st, w).
          return (Some (st, Some (report_at (filled (words (report_words r)) w))))))"

definition z_pm_deep_sleep_bias :: "soc_env \<Rightarrow> 'z service \<Rightarrow> ('z, int) sfn" where
  "z_pm_deep_sleep_bias env svc =
     obind (psa_call env svc Z_PM_OP_DEEP_SLEEP_BIAS [] 0) (\<lambda>(st, w). return (Some st))"

definition z_pm_boot_clock_retune :: "soc_env \<Rightarrow> 'z service \<Rightarrow> ('z, int) sfn" where
  "z_pm_boot_clock_retune env svc =
     obind (psa_call env svc Z_PM_OP_BOOT_CLOCK_RETUNE [] 0) (\<lambda>(st, w). return (Some st))"

section \<open>Every message is answered\<close>

text \<open>What an operation may answer and do: nothing but reading the message before it is accepted.\<close>

definition refusals :: "int set" where
  "refusals = {PSA_ERROR_INVALID_ARGUMENT, PSA_ERROR_BUFFER_TOO_SMALL, PSA_ERROR_NOT_SUPPORTED,
     PSA_ERROR_COMMUNICATION_FAILURE}"

definition answered :: "psa_msg \<Rightarrow> (int \<times> u8 list) option \<Rightarrow> (soc_call \<times> u32) list \<Rightarrow> bool" where
  "answered msg y h \<longleftrightarrow> (\<exists>st w. y = Some (st, w) \<and> length w \<le> out_size msg \<and>
     (if st \<in> refusals then w = [] \<and> (\<forall>c \<in> set (map fst h). \<exists>n. c = PsaRead n)
      else st = PSA_SUCCESS \<or> st = PSA_ERROR_GENERIC_ERROR \<and> w = []))"

lemma answered_Some: "answered msg (Some (st, w)) h \<longleftrightarrow> length w \<le> out_size msg \<and>
     (if st \<in> refusals then w = [] \<and> (\<forall>c \<in> set (map fst h). \<exists>n. c = PsaRead n)
      else st = PSA_SUCCESS \<or> st = PSA_ERROR_GENERIC_ERROR \<and> w = [])"
  by (auto simp: answered_def)

definition answers_all :: "psa_msg \<Rightarrow> ('z, int \<times> u8 list) sfn \<Rightarrow> bool" where
  "answers_all msg m \<longleftrightarrow> runs m (answered msg)"

lemma runs_reply [runs_intros]:
  "runs (reply msg data) (\<lambda>y h. h = [] \<and>
     y = (if length data \<le> out_size msg then Some (PSA_SUCCESS, data) else None))"
  unfolding reply_def psa_write_def
  by (rule runs_conseq, (rule runs_intros)+) (auto split: if_splits)

lemma runs_status [runs_intros]: "runs (status st) (\<lambda>y h. h = [] \<and> y = Some (st, []))"
  unfolding status_def by (rule runs_conseq, (rule runs_intros)+) auto

lemma runs_psa_read [runs_intros]:
  "runs (psa_read env msg n) (\<lambda>y h. \<exists>k. h = [(PsaRead n, k)] \<and> y = (unat k, take n (msg_in msg)))"
  unfolding psa_read_def by (rule runs_conseq, (rule runs_intros)+) auto

lemma runs_split: "(\<And>a b. runs (f a b) (R a b)) \<Longrightarrow> runs (case p of (a, b) \<Rightarrow> f a b) (\<lambda>y h. R (fst p) (snd p) y h)"
  by (simp add: split_beta)

text \<open>A quiet program makes some calls and touches no variable.\<close>

lemma runs_quiet: "quiet C m \<Longrightarrow> runs m (\<lambda>y h. list_all (C \<circ> fst) h)"
  unfolding runs_def quiet_def by blast

lemma quiet_hz: "quiet benign (measure_hz env m)"
  unfolding measure_hz_def by (intro quiet_intros quiet_measure_spin) simp_all

text \<open>An accepted message: hardware is touched, and the answer is not a refusal.\<close>

definition accepts :: "psa_msg \<Rightarrow> ('z, int \<times> u8 list) sfn \<Rightarrow> bool" where
  "accepts msg m \<longleftrightarrow> runs m (\<lambda>y h. \<exists>st w. y = Some (st, w) \<and> length w \<le> out_size msg \<and>
     (st = PSA_SUCCESS \<or> st = PSA_ERROR_GENERIC_ERROR \<and> w = []))"

definition steps :: "('z soc_scheme, 'a) state \<Rightarrow> bool" where
  "steps m \<longleftrightarrow> runs m (\<lambda>y h. True)"

named_theorems accepts_intros "programs that answer a message"

lemma steps_quiet: "quiet C m \<Longrightarrow> steps m"
  unfolding steps_def by (rule runs_conseq, erule runs_quiet) simp

lemma steps_bind [accepts_intros]: "steps m \<Longrightarrow> (\<And>x. steps (f x)) \<Longrightarrow> steps (m \<bind> f)"
  unfolding steps_def by (rule runs_conseq, rule runs_bind) simp_all
lemma steps_basic [accepts_intros]:
  "steps (return x)" "steps (ask env c)" "steps (tell env d)" "steps (rmw env r g)"
  unfolding steps_def by (rule runs_conseq, rule runs_intros, simp)+

lemma steps_if [accepts_intros]: "steps m \<Longrightarrow> steps n \<Longrightarrow> steps (if b then m else n)"
  by simp

lemma steps_hz [accepts_intros]: "steps (measure_hz env k)"
  by (rule steps_quiet [OF quiet_hz])

lemma accepts_bind [accepts_intros]:
  "steps m \<Longrightarrow> (\<And>x. accepts msg (f x)) \<Longrightarrow> accepts msg (m \<bind> f)"
  unfolding steps_def accepts_def by (rule runs_conseq, rule runs_bind) blast+

lemma accepts_if [accepts_intros]: "accepts msg m \<Longrightarrow> accepts msg n \<Longrightarrow> accepts msg (if b then m else n)"
  by simp

lemma accepts_reply [accepts_intros]: "length data \<le> out_size msg \<Longrightarrow> accepts msg (reply msg data)"
  unfolding accepts_def by (rule runs_conseq, rule runs_reply) simp

lemma accepts_status [accepts_intros]:
  "st = PSA_SUCCESS \<or> st = PSA_ERROR_GENERIC_ERROR \<Longrightarrow> accepts msg (status st)"
  unfolding accepts_def by (rule runs_conseq, rule runs_status) auto

lemma answers_accepts:
  assumes "accepts msg m"
  shows "answers_all msg m"
  unfolding answers_all_def
  by (rule runs_conseq [OF assms [unfolded accepts_def]]) (auto simp: answered_Some refusals_def)

lemma answers_refuse: "st \<in> refusals \<Longrightarrow> answers_all msg (status st)"
  unfolding answers_all_def by (rule runs_conseq, rule runs_status) (auto simp: answered_def)

lemma answers_if:
  "(b \<Longrightarrow> answers_all msg m) \<Longrightarrow> (\<not> b \<Longrightarrow> answers_all msg n) \<Longrightarrow> answers_all msg (if b then m else n)"
  by simp

lemma answers_read:
  assumes "\<And>k bs. answers_all msg (f k bs)"
  shows "answers_all msg (do { (k, bs) \<leftarrow> psa_read env msg n; f k bs })"
  unfolding answers_all_def split_beta
proof (rule runs_conseq)
  show "runs (psa_read env msg n \<bind> (\<lambda>p. f (fst p) (snd p)))
      (\<lambda>y h. \<exists>p a b. (\<exists>k. a = [(PsaRead n, k)] \<and> p = (unat k, take n (msg_in msg))) \<and>
        answered msg y b \<and> h = a @ b)"
    by (rule runs_bind [OF runs_psa_read assms [unfolded answers_all_def]])
next
  fix y h
  assume "\<exists>p a b. (\<exists>k. a = [(PsaRead n, k)] \<and> p = (unat k, take n (msg_in msg))) \<and>
      answered msg y b \<and> h = a @ b"
  then obtain k b where "h = (PsaRead n, k) # b" "answered msg y b" by auto
  moreover from this obtain st w where "y = Some (st, w)" by (auto simp: answered_def)
  ultimately show "answered msg y h" by (simp add: answered_Some split: if_splits)
qed

lemma refusal_codes [simp]:
  "PSA_ERROR_INVALID_ARGUMENT \<in> refusals" "PSA_ERROR_BUFFER_TOO_SMALL \<in> refusals"
  "PSA_ERROR_NOT_SUPPORTED \<in> refusals" "PSA_ERROR_COMMUNICATION_FAILURE \<in> refusals"
  by (simp_all add: refusals_def)

lemma ping_answers: "answers_all msg (z_pm_op_ping msg)"
  unfolding z_pm_op_ping_def
  by (intro answers_if answers_refuse answers_accepts accepts_intros) simp_all

lemma layer_b_answers: "answers_all msg (z_pm_op_layer_b_init env M)"
  unfolding z_pm_op_layer_b_init_def by (intro answers_accepts accepts_intros) simp_all

lemma deep_sleep_mode_answers: "answers_all msg (z_pm_op_set_deep_sleep_mode env M msg)"
  unfolding z_pm_op_set_deep_sleep_mode_def
  by (intro answers_if answers_refuse answers_read answers_accepts accepts_intros) simp_all

lemma steps_buck [accepts_intros]: "steps (core_buck_only_enter env a b)"
  unfolding core_buck_only_enter_def by (intro accepts_intros)

lemma steps_trans [accepts_intros]: "steps (trans_down env a b)" "steps (trans_up env a b)"
  unfolding trans_down_def trans_up_def by (intro accepts_intros)+

lemma switch_answers: "answers_all msg (z_pm_op_switch_active_mode env msg)"
  unfolding z_pm_op_switch_active_mode_def
  by (intro answers_if answers_refuse answers_read answers_accepts accepts_intros) simp_all

lemma probe_answers: "answers_all msg (z_pm_op_clock_probe env msg)"
  unfolding z_pm_op_clock_probe_def
  by (intro answers_if answers_refuse answers_accepts accepts_intros) simp_all

lemma bias_answers: "answers_all msg (z_pm_op_deep_sleep_bias env M)"
  unfolding z_pm_op_deep_sleep_bias_def by (intro answers_accepts accepts_intros) simp_all

lemma retune_answers: "answers_all msg (z_pm_op_boot_clock_retune env)"
  unfolding z_pm_op_boot_clock_retune_def by (intro answers_accepts accepts_intros) simp_all

lemma service_answers: "answers_all msg (z_pm_service_sfn env M msg)"
  unfolding z_pm_service_sfn_def
  by (intro answers_if answers_refuse ping_answers layer_b_answers deep_sleep_mode_answers
      switch_answers probe_answers bias_answers retune_answers) simp

lemma app02_service_answers: "answers_all msg (app02_z_pm_service_sfn env M msg)"
  unfolding app02_z_pm_service_sfn_def
  by (intro answers_if answers_refuse ping_answers layer_b_answers deep_sleep_mode_answers) simp

text \<open>It stays within the reach of a partition.\<close>

lemma quiet_sfn [quiet_intros]:
  "quiet C (status st)" "quiet C (reply msg data)"
  "(\<And>k. C (PsaRead k)) \<Longrightarrow> quiet C (psa_read env msg n)"
  unfolding status_def reply_def psa_write_def psa_read_def obind_def
  by (auto intro!: quiet_intros split: option.split)

lemma quiet_rmw [quiet_intros]: "C (Rd r) \<Longrightarrow> (\<And>v. C (Wr r v)) \<Longrightarrow> quiet C (rmw env r f)"
  unfolding rmw_def by (intro quiet_intros) simp_all

lemma quiet_split [quiet_intros]: "(\<And>a b. quiet C (f a b)) \<Longrightarrow> quiet C (case p of (a, b) \<Rightarrow> f a b)"
  by (simp add: split_beta)

lemma benign_clk: "quiet secure_call (measure_hz env m)"
proof -
  have "quiet secure_call (measure_spin env n)" for n
    by (induction n) (auto intro!: quiet_intros)
  then show ?thesis unfolding measure_hz_def by (intro quiet_intros) simp_all
qed

lemma quiet_trans [quiet_intros]:
  "quiet secure_call (trans_down env a b)" "quiet secure_call (trans_up env a b)"
  unfolding trans_down_def trans_up_def core_buck_only_enter_def by (intro quiet_intros; simp)+

lemma service_within: "quiet secure_call (z_pm_service_sfn env M msg)"
  unfolding z_pm_service_sfn_def z_pm_op_ping_def z_pm_op_layer_b_init_def z_pm_op_set_deep_sleep_mode_def
    z_pm_op_switch_active_mode_def z_pm_op_clock_probe_def z_pm_op_deep_sleep_bias_def z_pm_op_boot_clock_retune_def
  by (intro quiet_intros benign_clk) simp_all

lemma app02_service_within: "quiet secure_call (app02_z_pm_service_sfn env M msg)"
  unfolding app02_z_pm_service_sfn_def z_pm_op_ping_def z_pm_op_layer_b_init_def z_pm_op_set_deep_sleep_mode_def
  by (intro quiet_intros) simp_all

interpretation zpm07: secure_service "z_pm_service_sfn penv pM" for penv pM
proof
  show "runs (z_pm_service_sfn penv pM msg) (\<lambda>y h. \<exists>st w. y = Some (st, w) \<and> length w \<le> out_size msg)" for msg
    by (rule runs_conseq [OF service_answers [unfolded answers_all_def]]) (auto simp: answered_def)
qed (rule service_within)

interpretation zpm02: secure_service "app02_z_pm_service_sfn penv pM" for penv pM
proof
  show "runs (app02_z_pm_service_sfn penv pM msg) (\<lambda>y h. \<exists>st w. y = Some (st, w) \<and> length w \<le> out_size msg)" for msg
    by (rule runs_conseq [OF app02_service_answers [unfolded answers_all_def]]) (auto simp: answered_def)
qed (rule app02_service_within)

section \<open>The transport is transparent\<close>

lemma report_roundtrip [simp]: "report_at (words (report_words r)) = r"
proof -
  have "word_at (words ws) 4 = ws ! 1" "word_at (words ws) 8 = ws ! 2" "word_at (words ws) 12 = ws ! 3"
    "word_at (words ws) 16 = ws ! 4" "word_at (words ws) 20 = ws ! 5" "word_at (words ws) 0 = ws ! 0"
    if "length ws = 6" for ws
    using word_at_words [of 1 ws] word_at_words [of 2 ws] word_at_words [of 3 ws] word_at_words [of 4 ws]
      word_at_words [of 5 ws] word_at_words [of 0 ws] that by simp_all
  from this [of "report_words r"] show ?thesis
    by (simp add: report_at_def report_words_def del: words_simps)
qed

lemma filled_report [simp]:
  "filled (words (report_words r)) (words (report_words q)) = words (report_words q)"
  by (rule filled_simps(2)) (simp add: report_words_def)

lemma trans_codes:
  "run_state (trans_down env a b) s = (rc, t) \<Longrightarrow> rc = 0 \<or> rc = -6"
  "run_state (trans_up env a b) s = (rc, t) \<Longrightarrow> rc = 0 \<or> rc = -6"
  by (auto simp: trans_down_def trans_up_def split_beta split: if_splits)

lemma status_word: "rc = 0 \<or> rc = -6 \<Longrightarrow> sint (word_of_int rc :: u32) = rc"
  by auto

definition probe_direct :: "soc_env \<Rightarrow> ('z, z_pm_clock_probe_report) soc_prog" where
  "probe_direct env = do {
     a \<leftarrow> measure_hz env CY_SYSCLK_MEAS_CLK_PATH0;
     b \<leftarrow> measure_hz env CY_SYSCLK_MEAS_CLK_CLKHF0;
     c \<leftarrow> measure_hz env CY_SYSCLK_MEAS_CLK_CLKHF10;
     d \<leftarrow> ask env (Clk (Cy_SysClk_ClkPathGetFrequency 0));
     e \<leftarrow> ask env (Clk (Cy_SysClk_ClkHfGetFrequency 0));
     f \<leftarrow> ask env (Clk (Cy_SysClk_ClkHfGetFrequency 10));
     return \<lparr>meas_path0 = a, meas_hf0 = b, meas_hf10 = c, comp_path0 = d, comp_hf0 = e, comp_hf10 = f\<rparr>
   }"

definition switch_direct :: "soc_env \<Rightarrow> u32 \<Rightarrow> u32 \<Rightarrow> ('z, int) soc_prog" where
  "switch_direct env source target =
     (if source = target then return 0
      else if target < source then trans_down env source target else trans_up env source target)"

lemma probe_op:
  "out_size msg = 24 \<Longrightarrow> run_state (z_pm_op_clock_probe env msg) s =
     (case run_state (probe_direct env) s of (r, t) \<Rightarrow> (Some (0, words (report_words r)), t))"
  by (simp add: z_pm_op_clock_probe_def probe_direct_def reply_def psa_write_def run_obind split_beta
      report_words_def)

lemma switch_op:
  assumes "msg_in msg = words [a, b]" and "out_size msg = 4" and "a \<le> 2" and "b \<le> 2"
    and "unat (env (calls s) (PsaRead 8)) = 8"
  shows "run_state (z_pm_op_switch_active_mode env msg) s =
     (case run_state (switch_direct env a b) (s\<lparr>calls := calls s @ [(PsaRead 8, env (calls s) (PsaRead 8))]\<rparr>)
      of (rc, t) \<Rightarrow> (Some (0, le32 (word_of_int rc)), t))"
proof -
  have "\<not> 2 < a" "\<not> 2 < b" using assms(3,4) by auto
  then show ?thesis
    using assms(1,2,5) word_at_words [of 1 "[a, b]"]
    by (simp add: z_pm_op_switch_active_mode_def switch_direct_def reply_def psa_write_def psa_read_def
        in_size_def run_obind split_beta z_pm_modes)
qed

lemma probe_transparent:
  "let r = env (calls s) (Psa 5 0 24); u = s\<lparr>calls := calls s @ [(Psa 5 0 24, r)]\<rparr> in
    run_state (z_pm_clock_probe env (z_pm_service_sfn env M) (Some rep)) s =
      (if r \<noteq> 0 then (Some (sint r, Some rep), u)
       else case run_state (probe_direct env) u of (f, t) \<Rightarrow> (Some (PSA_SUCCESS, Some f), t))"
  by (simp add: z_pm_clock_probe_def psa_call_def z_pm_service_sfn_def z_pm_ops run_obind probe_op
      Let_def split_beta)

lemma switch_transparent:
  "let r = env (calls s) (Psa 4 8 4); u = s\<lparr>calls := calls s @ [(Psa 4 8 4, r)]\<rparr>;
        k = env (calls u) (PsaRead 8); v = u\<lparr>calls := calls u @ [(PsaRead 8, k)]\<rparr> in
    run_state (z_pm_switch_active_mode env (z_pm_service_sfn env M) source target (Some rc0)) s =
      (if r \<noteq> 0 then (Some (sint r, Some 0), u)
       else if unat k \<noteq> 8 then (Some (PSA_ERROR_COMMUNICATION_FAILURE, Some 0), v)
       else if source > 2 \<or> target > 2 then (Some (PSA_ERROR_INVALID_ARGUMENT, Some 0), v)
       else case run_state (switch_direct env source target) v of (rc, t) \<Rightarrow> (Some (PSA_SUCCESS, Some rc), t))"
proof -
  have codes: "sint (word_of_int rc :: u32) = rc"
    if "run_state (switch_direct env source target) v = (rc, t)" for rc t v
    using that trans_codes [of env source target v rc t]
    by (intro status_word) (auto simp: switch_direct_def split: if_splits)
  let ?m = "\<lparr>msg_type = 4, out_size = 4, msg_in = words [source, target]\<rparr>"
  let ?v = "s\<lparr>calls := calls s @ [(Psa 4 8 4, env (calls s) (Psa 4 8 4))]\<rparr>"
  have sw: "run_state (z_pm_op_switch_active_mode env ?m) ?v =
     (case run_state (switch_direct env source target)
        (?v\<lparr>calls := calls ?v @ [(PsaRead 8, env (calls ?v) (PsaRead 8))]\<rparr>)
      of (rc, t) \<Rightarrow> (Some (0, le32 (word_of_int rc)), t))"
    if "source \<le> 2" "target \<le> 2" "unat (env (calls ?v) (PsaRead 8)) = 8"
    by (rule switch_op) (use that in simp_all)
  have bad: "run_state (z_pm_op_switch_active_mode env ?m) ?v =
     (Some (if unat (env (calls ?v) (PsaRead 8)) \<noteq> 8 then PSA_ERROR_COMMUNICATION_FAILURE
        else PSA_ERROR_INVALID_ARGUMENT, []),
      ?v\<lparr>calls := calls ?v @ [(PsaRead 8, env (calls ?v) (PsaRead 8))]\<rparr>)"
    if "unat (env (calls ?v) (PsaRead 8)) \<noteq> 8 \<or> source > 2 \<or> target > 2"
    using that word_at_words [of 1 "[source, target]"]
    by (auto simp: z_pm_op_switch_active_mode_def status_def psa_read_def in_size_def z_pm_modes)
  show ?thesis
    using sw bad
    by (auto simp: z_pm_switch_active_mode_def psa_call_def z_pm_service_sfn_def z_pm_ops run_obind
      Let_def not_less codes split: prod.split)
qed

section \<open>The verdict on a message\<close>

text \<open>
  What the interface asks of a message: the bytes an operation reads, the room it needs for its
  answer, and the range of its arguments.
\<close>

definition needs_in :: "psa_msg \<Rightarrow> nat" where
  "needs_in msg = (if msg_type msg = Z_PM_OP_SET_DEEP_SLEEP_MODE then 4
     else if msg_type msg = Z_PM_OP_SWITCH_ACTIVE_MODE then 8 else 0)"

definition needs_out :: "psa_msg \<Rightarrow> nat" where
  "needs_out msg = (if msg_type msg = Z_PM_OP_PING \<or> msg_type msg = Z_PM_OP_SWITCH_ACTIVE_MODE then 4
     else if msg_type msg = Z_PM_OP_CLOCK_PROBE then 24 else 0)"

definition args_ok :: "psa_msg \<Rightarrow> bool" where
  "args_ok msg \<longleftrightarrow> list_all (\<lambda>i. word_at (msg_in msg) i \<le> 2)
     (if needs_in msg = 0 then [] else if needs_in msg = 4 then [0] else [0, 4])"

text \<open>The first call reads the whole argument.\<close>

definition read_whole :: "(soc_call \<times> u32) list \<Rightarrow> bool" where
  "read_whole h \<longleftrightarrow> (case h of (PsaRead n, k) # _ \<Rightarrow> unat k = n | _ \<Rightarrow> False)"

text \<open>The refusal a message earns, if any.\<close>

definition verdict :: "psa_msg \<Rightarrow> (soc_call \<times> u32) list \<Rightarrow> int option" where
  "verdict msg h =
     (if msg_type msg < 1 \<or> 7 < msg_type msg then Some PSA_ERROR_NOT_SUPPORTED
      else if in_size msg < needs_in msg then Some PSA_ERROR_INVALID_ARGUMENT
      else if out_size msg < needs_out msg then Some PSA_ERROR_BUFFER_TOO_SMALL
      else if needs_in msg \<noteq> 0 \<and> \<not> read_whole h then Some PSA_ERROR_COMMUNICATION_FAILURE
      else if \<not> args_ok msg then Some PSA_ERROR_INVALID_ARGUMENT
      else None)"

definition judged :: "psa_msg \<Rightarrow> (int \<times> u8 list) option \<Rightarrow> (soc_call \<times> u32) list \<Rightarrow> bool" where
  "judged msg y h \<longleftrightarrow> (\<exists>st w. y = Some (st, w) \<and>
     (case verdict msg h of
        Some e \<Rightarrow> st = e \<and> w = [] \<and> set (map fst h) \<subseteq> {PsaRead (needs_in msg)}
      | None \<Rightarrow> st = PSA_SUCCESS \<and> length w = needs_out msg \<or> st = PSA_ERROR_GENERIC_ERROR \<and> w = []))"

text \<open>What an accepted message leads to: hardware steps, then the answer of its size or an error.\<close>

definition served :: "nat \<Rightarrow> ('z, int \<times> u8 list) sfn \<Rightarrow> bool" where
  "served n m \<longleftrightarrow> runs m (\<lambda>y h. \<exists>st w. y = Some (st, w) \<and>
     (st = PSA_SUCCESS \<and> length w = n \<or> st = PSA_ERROR_GENERIC_ERROR \<and> w = []))"

named_theorems served_intros "programs that serve an accepted message"

lemma served_bind [served_intros]: "steps m \<Longrightarrow> (\<And>x. served n (f x)) \<Longrightarrow> served n (m \<bind> f)"
  unfolding steps_def served_def by (rule runs_conseq, rule runs_bind) blast+

lemma served_if [served_intros]: "served n m \<Longrightarrow> served n k \<Longrightarrow> served n (if b then m else k)"
  by simp

lemma served_reply [served_intros]:
  "length data = n \<Longrightarrow> n \<le> out_size msg \<Longrightarrow> served n (reply msg data)"
  unfolding served_def by (rule runs_conseq, rule runs_reply) simp

lemma served_status [served_intros]:
  "st = PSA_SUCCESS \<and> n = 0 \<or> st = PSA_ERROR_GENERIC_ERROR \<Longrightarrow> served n (status st)"
  unfolding served_def by (rule runs_conseq, rule runs_status) auto

text \<open>An operation without an argument, and one with an argument, meet their verdict.\<close>

lemma judged_served:
  assumes "served (needs_out msg) m" and "\<And>h. verdict msg h = None"
  shows "runs m (judged msg)"
  by (rule runs_conseq [OF assms(1) [unfolded served_def]]) (simp add: judged_def assms(2))

lemma judged_refused:
  assumes "\<And>h. verdict msg h = Some e"
  shows "runs (status e) (judged msg)"
  by (rule runs_conseq [OF runs_status]) (simp add: judged_def assms)

lemma judged_read:
  assumes n: "needs_in msg = n" "n \<noteq> 0" and size: "n \<le> in_size msg" "needs_out msg \<le> out_size msg"
    and type: "1 \<le> msg_type msg" "msg_type msg \<le> 7"
    and ok: "args_ok msg \<Longrightarrow> served (needs_out msg) (g (take n (msg_in msg)))"
    and bad: "\<not> args_ok msg \<Longrightarrow> g (take n (msg_in msg)) = status PSA_ERROR_INVALID_ARGUMENT"
  shows "runs (do {
    (k, bs) \<leftarrow> psa_read env msg n;
    if k \<noteq> n then status PSA_ERROR_COMMUNICATION_FAILURE else g bs }) (judged msg)" (is "runs ?m _")
  unfolding runs_def
proof
  fix s :: "'a soc_scheme"
  let ?r = "env (calls s) (PsaRead n)" and ?g = "g (take n (msg_in msg))"
  let ?u = "s\<lparr>calls := calls s @ [(PsaRead n, ?r)]\<rparr>"
  have v: "verdict msg ((PsaRead n, ?r) # k) =
      (if unat ?r \<noteq> n then Some PSA_ERROR_COMMUNICATION_FAILURE
       else if \<not> args_ok msg then Some PSA_ERROR_INVALID_ARGUMENT else None)" for k
    using n size type by (simp add: verdict_def read_whole_def not_less)
  show "\<exists>new. final ?m s = s\<lparr>calls := calls s @ new\<rparr> \<and> judged msg (result ?m s) new"
  proof (cases "unat ?r = n \<and> args_ok msg")
    case True
    obtain new st w where "final ?g ?u = ?u\<lparr>calls := calls ?u @ new\<rparr>" "result ?g ?u = Some (st, w)"
      "st = PSA_SUCCESS \<and> length w = needs_out msg \<or> st = PSA_ERROR_GENERIC_ERROR \<and> w = []"
      using ok True unfolding served_def runs_def by blast
    with True show ?thesis
      by (intro exI [of _ "(PsaRead n, ?r) # new"]) (simp add: psa_read_def judged_def v)
  next
    case False
    with n bad show ?thesis
      by (intro exI [of _ "[(PsaRead n, ?r)]"]) (auto simp: psa_read_def judged_def v status_def)
  qed
qed

lemma judged_if:
  "(b \<Longrightarrow> runs m (judged msg)) \<Longrightarrow> (\<not> b \<Longrightarrow> runs k (judged msg)) \<Longrightarrow> runs (if b then m else k) (judged msg)"
  by simp

lemma word_at_take [simp]: "word_at (take 4 bs) 0 = word_at bs 0" "word_at (take 8 bs) 0 = word_at bs 0"
  "word_at (take 8 bs) 4 = word_at bs 4"
  by (simp_all add: word_at_def drop_take)

lemmas verdict_simps = verdict_def needs_in_def needs_out_def args_ok_def z_pm_ops

lemma judged_ping: "msg_type msg = 1 \<Longrightarrow> runs (z_pm_op_ping msg) (judged msg)"
  unfolding z_pm_op_ping_def
  by (intro judged_if judged_refused judged_served served_intros) (auto simp: verdict_simps)

lemma judged_probe: "msg_type msg = 5 \<Longrightarrow> runs (z_pm_op_clock_probe env msg) (judged msg)"
  unfolding z_pm_op_clock_probe_def
  by (intro judged_if judged_refused judged_served served_intros accepts_intros) (auto simp: verdict_simps)

lemma judged_plain:
  "msg_type msg = 2 \<Longrightarrow> runs (z_pm_op_layer_b_init env M) (judged msg)"
  "msg_type msg = 6 \<Longrightarrow> runs (z_pm_op_deep_sleep_bias env M) (judged msg)"
  "msg_type msg = 7 \<Longrightarrow> runs (z_pm_op_boot_clock_retune env) (judged msg)"
  unfolding z_pm_op_layer_b_init_def z_pm_op_deep_sleep_bias_def z_pm_op_boot_clock_retune_def
  by (intro judged_served served_intros accepts_intros; simp add: verdict_simps)+

lemma judged_deep_sleep_mode: "msg_type msg = 3 \<Longrightarrow> runs (z_pm_op_set_deep_sleep_mode env M msg) (judged msg)"
  unfolding z_pm_op_set_deep_sleep_mode_def
  by (intro judged_if judged_refused judged_read)
    (auto simp: verdict_simps not_less not_le intro!: served_intros accepts_intros)

lemma judged_switch: "msg_type msg = 4 \<Longrightarrow> runs (z_pm_op_switch_active_mode env msg) (judged msg)"
  unfolding z_pm_op_switch_active_mode_def
  by (intro judged_if judged_refused judged_read)
    (auto simp: verdict_simps z_pm_modes not_less not_le intro!: served_intros accepts_intros)

lemma service_judged: "runs (z_pm_service_sfn env M msg) (judged msg)"
proof -
  consider "msg_type msg < 1 \<or> 7 < msg_type msg" | "msg_type msg \<in> {1..7}" by force
  then show ?thesis
  proof cases
    case 1
    then have eq: "z_pm_service_sfn env M msg = status PSA_ERROR_NOT_SUPPORTED"
      by (auto simp: z_pm_service_sfn_def z_pm_ops)
    show ?thesis unfolding eq by (rule judged_refused) (use 1 in \<open>auto simp: verdict_def\<close>)
  next
    case 2
    then have "msg_type msg \<in> {1, 2, 3, 4, 5, 6, 7}" by auto
    then show ?thesis
      by (auto simp: z_pm_service_sfn_def z_pm_ops judged_ping judged_probe judged_plain judged_deep_sleep_mode
          judged_switch)
  qed
qed

section \<open>Properties\<close>

text \<open>
  Property C7. The secure partition answers every message, and refuses exactly the bad ones. Whatever
  the operation, the sizes and the bytes of a call from the non-secure side, and whatever the PDL
  answers, it terminates without a panic, writes no more than the caller's buffer holds, touches no
  variable, and reaches only the clock tree, the power controls and two registers, never a wait. The
  status of a message is its verdict: an operation that is not one of the seven, an argument shorter
  than the operation reads, no room for its answer, a short read, and an argument outside its
  enumeration are each refused with the code for it, checked in this order; a refused message has
  touched nothing but the message itself and writes nothing. Every other message is served: with
  success and an answer of the operation's full size, or with a generic error and no answer.
\<close>

theorem z_pm_answers_every_message:
  "\<exists>st w h. run_state (z_pm_service_sfn env M msg) s = (Some (st, w), s\<lparr>calls := calls s @ h\<rparr>) \<and>
     length w \<le> out_size msg \<and> list_all (secure_call \<circ> fst) h \<and>
     (case verdict msg h of
        Some e \<Rightarrow> st = e \<and> w = [] \<and> set (map fst h) \<subseteq> {PsaRead (needs_in msg)}
      | None \<Rightarrow> st = PSA_SUCCESS \<and> length w = needs_out msg \<or> st = PSA_ERROR_GENERIC_ERROR \<and> w = [])"
proof -
  obtain h where f: "final (z_pm_service_sfn env M msg) s = s\<lparr>calls := calls s @ h\<rparr>"
    and j: "judged msg (result (z_pm_service_sfn env M msg) s) h"
    using service_judged [of env M msg] unfolding runs_def by blast
  then obtain st w where r: "result (z_pm_service_sfn env M msg) s = Some (st, w)" by (auto simp: judged_def)
  have "length w \<le> out_size msg"
    using spec [OF service_answers [of msg env M, unfolded answers_all_def runs_def], of s] r
    by (auto simp: answered_Some)
  moreover have "list_all (secure_call \<circ> fst) h"
    using quietE [OF service_within, of env M msg s] f by (metis append_same_eq io.ext_inject io.surjective io.update_convs(1) same_append_eq)
  ultimately show ?thesis using f r j
    by (intro exI [of _ st] exI [of _ w] exI [of _ h]) (simp add: prod_eq_iff judged_def)
qed

text \<open>
  Property C8. The transport is transparent. A clock probe or a mode switch asked for through the
  PSA client returns what running the operation in place would return, down to the six
  little-endian words of the report and the sign of the status, and the calls made are those of the
  operation after the request itself (and the read of the message). When the partition manager
  refuses, its status comes back, the report is left alone and no clock or voltage call is made;
  when it hands over too little of the message, or a mode is out of range, the switch is refused.
\<close>

theorem z_pm_transport_transparent:
  "(let r = env (calls s) (Psa 5 0 24); u = s\<lparr>calls := calls s @ [(Psa 5 0 24, r)]\<rparr> in
    run_state (z_pm_clock_probe env (z_pm_service_sfn env M) (Some rep)) s =
      (if r \<noteq> 0 then (Some (sint r, Some rep), u)
       else case run_state (probe_direct env) u of (f, t) \<Rightarrow> (Some (PSA_SUCCESS, Some f), t))) \<and>
   (let r = env (calls s) (Psa 4 8 4); u = s\<lparr>calls := calls s @ [(Psa 4 8 4, r)]\<rparr>;
        k = env (calls u) (PsaRead 8); v = u\<lparr>calls := calls u @ [(PsaRead 8, k)]\<rparr> in
    run_state (z_pm_switch_active_mode env (z_pm_service_sfn env M) source target (Some rc0)) s =
      (if r \<noteq> 0 then (Some (sint r, Some 0), u)
       else if unat k \<noteq> 8 then (Some (PSA_ERROR_COMMUNICATION_FAILURE, Some 0), v)
       else if source > 2 \<or> target > 2 then (Some (PSA_ERROR_INVALID_ARGUMENT, Some 0), v)
       else case run_state (switch_direct env source target) v of (rc, t) \<Rightarrow> (Some (PSA_SUCCESS, Some rc), t)))"
  by (rule conjI, rule probe_transparent, rule switch_transparent)

end
