(* ===== verification/Pm_Ns.thy ===== *)
theory Pm_Ns
  imports Zpm
begin

text \<open>
  The non-secure side of \<open>apps/07_pse84_tfm_m33_m55_power_shell\<close>: \<open>cm33_ns/src/power_manager.c\<close>,
  \<open>main.c\<close> and \<open>boot_mcwdt_reset.c\<close>. A switch writes the SRAM trims itself and asks the secure
  partition for the divider and the voltage. The properties are about both sides together.
\<close>

section \<open>The mode manager\<close>

fun ns_pm_mode_name :: "pm_mode_t \<Rightarrow> string" where
  "ns_pm_mode_name PM_MODE_ULP = ''ULP (unsupported on this build)''"
| "ns_pm_mode_name PM_MODE_LP = ''LP  ( 66 MHz target)''"
| "ns_pm_mode_name PM_MODE_HP = ''HP  (200 MHz target)''"
| "ns_pm_mode_name (PM_MODE_OTHER n) = ''?''"

fun pm_mode_short :: "pm_mode_t \<Rightarrow> string" where
  "pm_mode_short PM_MODE_ULP = ''ulp''"
| "pm_mode_short PM_MODE_LP = ''lp''"
| "pm_mode_short PM_MODE_HP = ''hp''"
| "pm_mode_short (PM_MODE_OTHER n) = ''?''"

definition ns_pm_current_mode :: "('z, pm_mode_t) soc_prog" where
  "ns_pm_current_mode = gets s_current_mode"

definition ns_pm_init :: "('z, unit) soc_prog" where
  "ns_pm_init = modify (s_current_mode_update (\<lambda>_. PM_MODE_HP))"

type_synonym trim_write = "nat \<times> u32"

definition trim_hp_to_lp_pre :: "trim_write list" where
  "trim_hp_to_lp_pre =
     [(0, 0x343), (1, 0x343), (2, 0x206), (3, 0x206), (4, 0x20F), (5, 0x20F),
      (6, 0x3F), (7, 0x3F), (8, 0xB), (2, 0x204), (3, 0x204), (4, 0x20C),
      (5, 0x20C), (6, 0x2D), (7, 0x2D), (4, 0x204), (5, 0x204), (0, 0x743),
      (1, 0x743), (2, 0x604), (3, 0x604), (6, 0x22D), (7, 0x22D)]"

definition trim_hp_to_lp_post :: "trim_write list" where
  "trim_hp_to_lp_post = [(4, 0x604), (5, 0x604)]"

definition trim_lp_to_hp_pre :: "trim_write list" where
  "trim_lp_to_hp_pre =
     [(2, 0x606), (3, 0x606), (4, 0x606), (5, 0x606), (6, 0x23F), (7, 0x23F),
      (4, 0x607), (5, 0x607), (4, 0x60F), (5, 0x60F), (4, 0x20F), (5, 0x20F)]"

definition trim_lp_to_hp_post :: "trim_write list" where
  "trim_lp_to_hp_post =
     [(0, 0x343), (1, 0x343), (2, 0x206), (3, 0x206), (6, 0x3F),
      (7, 0x3F), (8, 0xA), (0, 0x342), (1, 0x342), (2, 0x202),
      (3, 0x202), (4, 0x20B), (5, 0x20B), (6, 0x1B), (7, 0x1B)]"

definition apply_trim_seq :: "soc_env \<Rightarrow> trim_write list \<Rightarrow> ('z, unit) soc_prog" where
  "apply_trim_seq env seq = for_each seq (\<lambda>w. tell env (Wr (SRSS_TRIM_RAM_CTL (fst w)) (snd w)))"

definition pm_irq_disable :: "soc_env \<Rightarrow> ('z, u32) soc_prog" where
  "pm_irq_disable env = do {
     primask \<leftarrow> ask env (Cpu mrs_primask);
     tell env (Cpu cpsid_i);
     return primask
   }"

definition pm_irq_restore :: "soc_env \<Rightarrow> u32 \<Rightarrow> ('z, unit) soc_prog" where
  "pm_irq_restore env primask = tell env (Cpu (msr_primask primask))"

definition step_transition ::
  "soc_env \<Rightarrow> 'z service \<Rightarrow> pm_mode_t \<Rightarrow> pm_mode_t \<Rightarrow> trim_write list \<Rightarrow> trim_write list \<Rightarrow> ('z, int) sfn"
  where
  "step_transition env svc source target pre post = do {
     key \<leftarrow> pm_irq_disable env;
     apply_trim_seq env pre;
     obind (z_pm_switch_active_mode env svc (mode_code source) (mode_code target) (Some 0)) (\<lambda>(psa_rc, s_rc). do {
       (if psa_rc = PSA_SUCCESS \<and> s_rc = Some 0 then apply_trim_seq env post else return ());
       pm_irq_restore env key;
       return (Some (if psa_rc = PSA_SUCCESS \<and> s_rc = Some 0 then 0 else - EIO))
     })
   }"

definition step_hp_to_lp :: "soc_env \<Rightarrow> 'z service \<Rightarrow> ('z, int) sfn" where
  "step_hp_to_lp env svc =
     step_transition env svc PM_MODE_HP PM_MODE_LP trim_hp_to_lp_pre trim_hp_to_lp_post"

definition step_lp_to_hp :: "soc_env \<Rightarrow> 'z service \<Rightarrow> ('z, int) sfn" where
  "step_lp_to_hp env svc =
     step_transition env svc PM_MODE_LP PM_MODE_HP trim_lp_to_hp_pre trim_lp_to_hp_post"

definition ns_pm_switch_to :: "soc_env \<Rightarrow> 'z service \<Rightarrow> pm_mode_t \<Rightarrow> ('z, int) sfn" where
  "ns_pm_switch_to env svc target =
     (if target \<noteq> PM_MODE_HP \<and> target \<noteq> PM_MODE_LP then
        (if target = PM_MODE_ULP then do {
           tell env (Out (printk ''[pm] ULP is not supported on this build. See INVESTIGATION_pse84_ulp.md.'' []));
           return (Some (- ENOTSUP))
         }
         else return (Some (- EINVAL)))
      else do {
        source \<leftarrow> gets s_current_mode;
        if target = source then return (Some 0)
        else do {
          t_start \<leftarrow> ask env (Cpu k_cycle_get_32);
          gpio_indicators_transition_begin env;
          obind (if source = PM_MODE_HP \<and> target = PM_MODE_LP then step_hp_to_lp env svc
                 else if source = PM_MODE_LP \<and> target = PM_MODE_HP then step_lp_to_hp env svc
                 else return (Some (- EINVAL)))
            (\<lambda>rc. do {
               gpio_indicators_transition_end env;
               t_end \<leftarrow> ask env (Cpu k_cycle_get_32);
               if rc \<noteq> 0 then do {
                 tell env (Out (printk ''[pm] switch %s -> %s failed (%d)''
                   [Str (pm_mode_short source), Str (pm_mode_short target), SInt rc]));
                 return (Some rc)
               }
               else do {
                 modify (s_current_mode_update (\<lambda>_. target));
                 tell env (Out (printk ''[pm] transition %s -> %s : %u LPTIMER cycles (@32768 Hz)''
                   [Str (pm_mode_short source), Str (pm_mode_short target), Num (t_end - t_start)]));
                 return (Some 0)
               }
             })
        }
      })"

definition probe_args :: "u32 \<Rightarrow> u32 \<Rightarrow> parg list" where
  "probe_args meas_hz comp_hz =
     [Num (meas_hz div 1000000), Num (meas_hz div 1000 mod 1000), Num meas_hz,
      Num (comp_hz div 1000000), Num (comp_hz div 1000 mod 1000), Num comp_hz]"

definition ns_pm_clock_probe :: "soc_env \<Rightarrow> 'z service \<Rightarrow> z_pm_clock_probe_report \<Rightarrow> ('z, unit) sfn" where
  "ns_pm_clock_probe env svc stack =
     obind (z_pm_clock_probe env svc (Some stack)) (\<lambda>(psa_rc, report).
       case report of None \<Rightarrow> return (Some ())
       | Some r \<Rightarrow>
         if psa_rc \<noteq> PSA_SUCCESS then do {
           tell env (Out (printk ''[clk] psa_call failed: status=%d'' [SInt psa_rc]));
           return (Some ())
         }
         else do {
           tell env (Out (printk ''[clk] DPLL_LP0  meas=%3u.%03u MHz (%9u Hz)  comp=%3u.%03u MHz (%9u Hz)''
             (probe_args (meas_path0 r) (comp_path0 r))));
           tell env (Out (printk ''[clk] CLK_HF0   meas=%3u.%03u MHz (%9u Hz)  comp=%3u.%03u MHz (%9u Hz)''
             (probe_args (meas_hf0 r) (comp_hf0 r))));
           tell env (Out (printk ''[clk] CLK_HF10  meas=%3u.%03u MHz (%9u Hz)  comp=%3u.%03u MHz (%9u Hz)''
             (probe_args (meas_hf10 r) (comp_hf10 r))));
           return (Some ())
         })"

section \<open>Start-up\<close>

definition boot_mcwdt_reset :: "soc_env \<Rightarrow> masks \<Rightarrow> ('z, int) soc_prog" where
  "boot_mcwdt_reset env M = do {
     tell env (Pm Cy_MCWDT_Unlock);
     tell env (Pm (Cy_MCWDT_Disable (CY_MCWDT_CTRS M) 100));
     tell env (Pm (Cy_MCWDT_ClearInterrupt (CY_MCWDT_CTRS M)));
     tell env (Pm (Cy_MCWDT_SetInterruptMask 0));
     return 0
   }"

definition reconfigure_console_uart :: "soc_env \<Rightarrow> ('z, unit) soc_prog" where
  "reconfigure_console_uart env = do {
     r \<leftarrow> ask env (Uart device_is_ready_console);
     if r = 0 then return ()
     else do {
       g \<leftarrow> ask env (Uart uart_config_get);
       if g \<noteq> 0 then return () else tell env (Uart uart_configure)
     }
   }"

text \<open>
  The retune of the boot clock is compiled out, and with it the only call of
  \<open>reconfigure_console_uart\<close>: what is left of that is a cast to \<open>void\<close>, which calls nothing.
\<close>

definition ns_main :: "soc_env \<Rightarrow> 'z service \<Rightarrow> ('z, int) sfn" where
  "ns_main env svc = do {
     tell env (Out (printf ''CM33-NS power-shell on %s'' []));
     g \<leftarrow> gpio_indicators_init env;
     (if g < 0 then tell env (Out (printf ''gpio_indicators_init failed -- LEDs / pm_busy pin will be dark'' []))
      else return ());
     obind (z_pm_ping env svc (Some 0)) (\<lambda>(st, cookie). do {
       tell env (Out (if st = PSA_SUCCESS \<and> cookie = Some Z_PM_PING_COOKIE
         then printf ''z_pm ping ok: cookie=0x%08x'' [Num (the cookie)]
         else printf ''z_pm ping FAIL: status=%d cookie=0x%08x'' [SInt st, Num (the cookie)]));
       tell env (Out (printf ''z_pm boot_clock_retune SKIPPED (hangs S side; run `probe` to see boot clock tree, then adjust hf0_div_for_mode)'' []));
       obind (z_pm_deep_sleep_bias env svc) (\<lambda>st. do {
         tell env (Out (if st = PSA_SUCCESS
           then printf ''z_pm deep_sleep_bias ok (BGREF LP / CoreBuck DS / IHO/IMO DS-off / DEEPSLEEP mode)'' []
           else printf ''z_pm deep_sleep_bias FAIL: %d (deep_sleep floor will be sub-optimal)'' [SInt st]));
         ns_pm_init;
         m \<leftarrow> ns_pm_current_mode;
         tell env (Out (printf ''initial power mode: %s'' [Str (ns_pm_mode_name m)]));
         return (Some 0)
       })
     })
   }"

section \<open>The calls of a switch\<close>

text \<open>What the secure side does for a switch between HP (2) and LP (1), and whether it succeeded.\<close>

definition down_part :: "bool \<Rightarrow> (soc_call \<times> u32) list \<Rightarrow> bool" where
  "down_part ok h \<longleftrightarrow> (\<exists>a b v c. (ok \<longleftrightarrow> v = 0) \<and> h = [(Clk (Cy_SysClk_ClkHfSetDivider 0 6), a),
     (Pm (Cy_SysPm_CoreBuckSetProfile PM_MODE_LP), b), (Pm Cy_SysPm_CoreBuckStatus, v)] @
     (if ok then [] else [(Clk (Cy_SysClk_ClkHfSetDivider 0 2), c)]))"

definition up_part :: "bool \<Rightarrow> (soc_call \<times> u32) list \<Rightarrow> bool" where
  "up_part ok h \<longleftrightarrow> (\<exists>b v c. (ok \<longleftrightarrow> v = 0) \<and> h = [(Pm (Cy_SysPm_CoreBuckSetProfile PM_MODE_HP), b),
     (Pm Cy_SysPm_CoreBuckStatus, v)] @ (if ok then [(Clk (Cy_SysClk_ClkHfSetDivider 0 2), c)] else []))"

text \<open>With the request: refused by the partition manager, cut short, or carried out.\<close>

definition asked ::
  "(bool \<Rightarrow> (soc_call \<times> u32) list \<Rightarrow> bool) \<Rightarrow> bool \<Rightarrow> (soc_call \<times> u32) list \<Rightarrow> bool" where
  "asked part ok h \<longleftrightarrow>
     (\<exists>r. \<not> ok \<and> h = [(Psa 4 8 4, r)]) \<or>
     (\<exists>r k. \<not> ok \<and> h = [(Psa 4 8 4, r), (PsaRead 8, k)]) \<or>
     (\<exists>r k w. part ok w \<and> h = (Psa 4 8 4, r) # (PsaRead 8, k) # w)"

lemma switch_direct_runs:
  "runs (switch_direct env 2 1) (\<lambda>y h. \<exists>ok. y = (if ok then 0 else -6) \<and> down_part ok h)"
  "runs (switch_direct env 1 2) (\<lambda>y h. \<exists>ok. y = (if ok then 0 else -6) \<and> up_part ok h)"
proof -
  have "runs (trans_down env 2 1) (\<lambda>y h. \<exists>ok. y = (if ok then 0 else -6) \<and> down_part ok h)"
    unfolding trans_down_def core_buck_only_enter_def hf0_div_for_mode_def core_buck_profile_for_mode_def
    by (simp add: z_pm_modes, rule runs_conseq, (rule runs_intros)+)
      (auto simp: down_part_def split: if_splits)
  moreover have "runs (trans_up env 1 2) (\<lambda>y h. \<exists>ok. y = (if ok then 0 else -6) \<and> up_part ok h)"
    unfolding trans_up_def core_buck_only_enter_def hf0_div_for_mode_def core_buck_profile_for_mode_def
    by (simp add: z_pm_modes, rule runs_conseq, (rule runs_intros)+)
      (auto simp: up_part_def split: if_splits)
  ultimately show "runs (switch_direct env 2 1) (\<lambda>y h. \<exists>ok. y = (if ok then 0 else -6) \<and> down_part ok h)"
    "runs (switch_direct env 1 2) (\<lambda>y h. \<exists>ok. y = (if ok then 0 else -6) \<and> up_part ok h)"
    by (simp_all add: switch_direct_def)
qed

lemma sint_zero: "sint (w :: u32) = 0 \<longleftrightarrow> w = 0"
  by (rule signed_eq_0_iff)

lemma asked_runs:
  assumes "runs (switch_direct env a b :: ('z, int) soc_prog) (\<lambda>y h. \<exists>ok. y = (if ok then 0 else -6) \<and> part ok h)"
    and "a \<le> 2" and "b \<le> 2"
  shows "runs (z_pm_switch_active_mode env (z_pm_service_sfn env M) a b (Some 0) :: ('z, int \<times> int option) sfn)
     (\<lambda>y h. \<exists>st rc. y = Some (st, Some rc) \<and> asked part (st = 0 \<and> rc = 0) h)"
  unfolding runs_def
proof
  fix s :: "'z soc_scheme"
  let ?m = "z_pm_switch_active_mode env (z_pm_service_sfn env M) a b (Some 0) :: ('z, int \<times> int option) sfn"
  let ?r = "env (calls s) (Psa 4 8 4)"
  let ?u = "s\<lparr>calls := calls s @ [(Psa 4 8 4, ?r)]\<rparr>"
  let ?k = "env (calls ?u) (PsaRead 8)"
  let ?v = "?u\<lparr>calls := calls ?u @ [(PsaRead 8, ?k)]\<rparr>"
  note run = switch_transparent [of env s M a b 0, unfolded Let_def]
  show "\<exists>new. final ?m s = s\<lparr>calls := calls s @ new\<rparr> \<and>
      (\<exists>st rc. result ?m s = Some (st, Some rc) \<and> asked part (st = 0 \<and> rc = 0) new)"
  proof (cases "?r \<noteq> 0 \<or> unat ?k \<noteq> 8")
    case True
    then show ?thesis using run by (auto simp: asked_def sint_zero)
  next
    case False
    obtain w ok where w: "final (switch_direct env a b) ?v = ?v\<lparr>calls := calls ?v @ w\<rparr>"
      "result (switch_direct env a b) ?v = (if ok then 0 else -6)" "part ok w"
      using spec [OF assms(1) [unfolded runs_def], of ?v] by blast
    have "run_state ?m s = (Some (0, Some (if ok then 0 else -6)),
        s\<lparr>calls := calls s @ (Psa 4 8 4, ?r) # (PsaRead 8, ?k) # w\<rparr>)"
      using run False assms(2,3) w(1,2) by (simp add: split_beta not_less)
    with w(3) show ?thesis by (auto simp: asked_def)
  qed
qed

definition trim_call :: "trim_write \<Rightarrow> soc_call" where
  "trim_call w = Wr (SRSS_TRIM_RAM_CTL (fst w)) (snd w)"

definition step_seen ::
  "(bool \<Rightarrow> (soc_call \<times> u32) list \<Rightarrow> bool) \<Rightarrow> trim_write list \<Rightarrow> trim_write list \<Rightarrow> bool \<Rightarrow>
   (soc_call \<times> u32) list \<Rightarrow> bool" where
  "step_seen part pre post ok h \<longleftrightarrow> (\<exists>key a b p w q.
     h = (Cpu mrs_primask, key) # (Cpu cpsid_i, a) # p @ w @ q @ [(Cpu (msr_primask key), b)] \<and>
     map fst p = map trim_call pre \<and> asked part ok w \<and> map fst q = (if ok then map trim_call post else []))"

definition step_done ::
  "(bool \<Rightarrow> (soc_call \<times> u32) list \<Rightarrow> bool) \<Rightarrow> trim_write list \<Rightarrow> trim_write list \<Rightarrow> int option \<Rightarrow>
   (soc_call \<times> u32) list \<Rightarrow> bool" where
  "step_done part pre post y h \<longleftrightarrow> (\<exists>ok. y = Some (if ok then 0 else - EIO) \<and> step_seen part pre post ok h)"

lemma step_doneI:
  "asked part ok w \<Longrightarrow> y = Some (if ok then 0 else - EIO) \<Longrightarrow> map fst p = map trim_call pre \<Longrightarrow>
   map fst q = (if ok then map trim_call post else []) \<Longrightarrow>
   step_done part pre post y
     ((Cpu mrs_primask, key) # (Cpu cpsid_i, a) # p @ w @ q @ [(Cpu (msr_primask key), b)])"
  unfolding step_done_def step_seen_def by blast

lemma runs_trims: "runs (apply_trim_seq env seq) (\<lambda>y h. map fst h = map trim_call seq)"
  unfolding apply_trim_seq_def trim_call_def by (rule runs_for_tell)

definition after_step :: "soc_env \<Rightarrow> u32 \<Rightarrow> trim_write list \<Rightarrow> int \<times> int option \<Rightarrow> ('z, int) sfn" where
  "after_step env key post = (\<lambda>(psa_rc, s_rc). do {
       (if psa_rc = PSA_SUCCESS \<and> s_rc = Some 0 then apply_trim_seq env post else return ());
       pm_irq_restore env key;
       return (Some (if psa_rc = PSA_SUCCESS \<and> s_rc = Some 0 then 0 else - EIO))
     })"

lemma after_runs:
  "runs (after_step env key post p) (\<lambda>y h. \<exists>q b. y = Some (if fst p = 0 \<and> snd p = Some 0 then 0 else - EIO) \<and>
     h = q @ [(Cpu (msr_primask key), b)] \<and>
     map fst q = (if fst p = 0 \<and> snd p = Some 0 then map trim_call post else []))"
  unfolding after_step_def pm_irq_restore_def split_beta
  by (rule runs_conseq, (rule runs_intros runs_trims)+) (auto split: if_splits)

lemma step_runs:
  assumes sw: "runs (z_pm_switch_active_mode env svc (mode_code a) (mode_code b) (Some 0))
     (\<lambda>y h. \<exists>st rc. y = Some (st, Some rc) \<and> asked part (st = 0 \<and> rc = 0) h)"
  shows "runs (step_transition env svc a b pre post) (step_done part pre post)"
proof -
  have "step_transition env svc a b pre post = do {
     key \<leftarrow> pm_irq_disable env;
     apply_trim_seq env pre;
     obind (z_pm_switch_active_mode env svc (mode_code a) (mode_code b) (Some 0)) (after_step env key post) }"
    by (simp add: step_transition_def after_step_def)
  moreover have "runs (do {
     key \<leftarrow> pm_irq_disable env;
     apply_trim_seq env pre;
     obind (z_pm_switch_active_mode env svc (mode_code a) (mode_code b) (Some 0)) (after_step env key post) }) (step_done part pre post)"
    unfolding pm_irq_disable_def
  proof (rule runs_conseq, (rule runs_intros runs_trims after_runs sw)+, goal_cases)
    case (1 y h)
    then show ?case by (clarsimp split del: if_split) (rule step_doneI, (assumption | rule refl)+)
  qed
  ultimately show ?thesis by simp
qed

lemma steps_done:
  "runs (step_hp_to_lp env (z_pm_service_sfn env M)) (step_done down_part trim_hp_to_lp_pre trim_hp_to_lp_post)"
  "runs (step_lp_to_hp env (z_pm_service_sfn env M)) (step_done up_part trim_lp_to_hp_pre trim_lp_to_hp_post)"
  unfolding step_hp_to_lp_def step_lp_to_hp_def
  by (rule step_runs, unfold mode_code.simps, rule asked_runs [OF switch_direct_runs(1)], simp_all)
    (rule step_runs, unfold mode_code.simps, rule asked_runs [OF switch_direct_runs(2)], simp_all)

definition from_mode_seen :: "pm_mode_t \<Rightarrow> bool \<Rightarrow> (soc_call \<times> u32) list \<Rightarrow> bool" where
  "from_mode_seen a ok w \<longleftrightarrow>
     (if a = PM_MODE_HP then step_seen down_part trim_hp_to_lp_pre trim_hp_to_lp_post ok w
      else step_seen up_part trim_lp_to_hp_pre trim_lp_to_hp_post ok w)"

definition ns_seen :: "pm_mode_t \<Rightarrow> bool \<Rightarrow> (soc_call \<times> u32) list \<Rightarrow> bool" where
  "ns_seen a ok h \<longleftrightarrow> (\<exists>x0 x1 w x2 x3 out x4. from_mode_seen a ok w \<and>
     h = (Cpu k_cycle_get_32, x0) # (Gpio (gpio_pin_set_dt pm_busy 1), x1) # w @
       [(Gpio (gpio_pin_set_dt pm_busy 0), x2), (Cpu k_cycle_get_32, x3), (Out out, x4)])"

definition hp_lp :: "pm_mode_t \<Rightarrow> pm_mode_t \<Rightarrow> bool" where
  "hp_lp a b \<longleftrightarrow> a = PM_MODE_HP \<and> b = PM_MODE_LP \<or> a = PM_MODE_LP \<and> b = PM_MODE_HP"

definition ns_finish :: "soc_env \<Rightarrow> pm_mode_t \<Rightarrow> pm_mode_t \<Rightarrow> u32 \<Rightarrow> int \<Rightarrow> ('z, int) sfn" where
  "ns_finish env source target t_start rc = do {
     gpio_indicators_transition_end env;
     t_end \<leftarrow> ask env (Cpu k_cycle_get_32);
     if rc \<noteq> 0 then do {
       tell env (Out (printk ''[pm] switch %s -> %s failed (%d)''
         [Str (pm_mode_short source), Str (pm_mode_short target), SInt rc]));
       return (Some rc)
     }
     else do {
       modify (s_current_mode_update (\<lambda>_. target));
       tell env (Out (printk ''[pm] transition %s -> %s : %u LPTIMER cycles (@32768 Hz)''
         [Str (pm_mode_short source), Str (pm_mode_short target), Num (t_end - t_start)]));
       return (Some 0)
     }
   }"

lemma ns_finish_run:
  "\<exists>x2 x3 out x4. run_state (ns_finish env a b t0 (if ok then 0 else - EIO)) u =
     (Some (if ok then 0 else - EIO), u\<lparr>s_current_mode := if ok then b else s_current_mode u,
        calls := calls u @ [(Gpio (gpio_pin_set_dt pm_busy 0), x2), (Cpu k_cycle_get_32, x3), (Out out, x4)]\<rparr>)"
  by (cases ok) (auto simp: ns_finish_def gpio_indicators_transition_end_def)

lemma ns_switch_to_eq:
  assumes "hp_lp (s_current_mode s) b"
  shows "run_state (ns_pm_switch_to env svc b) s = run_state (do {
      t_start \<leftarrow> ask env (Cpu k_cycle_get_32);
      gpio_indicators_transition_begin env;
      obind (if s_current_mode s = PM_MODE_HP then step_hp_to_lp env svc else step_lp_to_hp env svc)
        (ns_finish env (s_current_mode s) b t_start) }) s"
  using assms by (auto simp: hp_lp_def ns_pm_switch_to_def ns_finish_def [abs_def])

lemma ns_switch_run:
  assumes "hp_lp (s_current_mode s) b"
  obtains ok h where "run_state (ns_pm_switch_to env (z_pm_service_sfn env M) b) s =
      (Some (if ok then 0 else - EIO), s\<lparr>s_current_mode := if ok then b else s_current_mode s, calls := calls s @ h\<rparr>)"
    and "ns_seen (s_current_mode s) ok h"
proof -
  let ?S = "z_pm_service_sfn env M"
  let ?a = "s_current_mode s"
  let ?st = "if ?a = PM_MODE_HP then step_hp_to_lp env ?S else step_lp_to_hp env ?S"
  obtain x0 x1 where x: "x0 = env (calls s) (Cpu k_cycle_get_32)"
    "x1 = env (calls s @ [(Cpu k_cycle_get_32, x0)]) (Gpio (gpio_pin_set_dt pm_busy 1))" by simp
  let ?s1 = "s\<lparr>calls := calls s @ [(Cpu k_cycle_get_32, x0), (Gpio (gpio_pin_set_dt pm_busy 1), x1)]\<rparr>"
  have "\<exists>w ok. final ?st ?s1 = ?s1\<lparr>calls := calls ?s1 @ w\<rparr> \<and>
      result ?st ?s1 = Some (if ok then 0 else - EIO) \<and> from_mode_seen ?a ok w"
    using spec [OF steps_done(1) [of env M, unfolded runs_def step_done_def], of ?s1]
      spec [OF steps_done(2) [of env M, unfolded runs_def step_done_def], of ?s1]
    by (cases "?a = PM_MODE_HP") (auto simp: from_mode_seen_def)
  then obtain w ok where w: "run_state ?st ?s1 = (Some (if ok then 0 else - EIO), ?s1\<lparr>calls := calls ?s1 @ w\<rparr>)"
    "from_mode_seen ?a ok w" by (auto simp: prod_eq_iff)
  let ?s2 = "?s1\<lparr>calls := calls ?s1 @ w\<rparr>"
  obtain x2 x3 out x4 where f: "run_state (ns_finish env ?a b x0 (if ok then 0 else - EIO)) ?s2 =
     (Some (if ok then 0 else - EIO), ?s2\<lparr>s_current_mode := if ok then b else s_current_mode ?s2,
        calls := calls ?s2 @ [(Gpio (gpio_pin_set_dt pm_busy 0), x2), (Cpu k_cycle_get_32, x3), (Out out, x4)]\<rparr>)"
    using ns_finish_run by blast
  let ?h = "(Cpu k_cycle_get_32, x0) # (Gpio (gpio_pin_set_dt pm_busy 1), x1) # w @
       [(Gpio (gpio_pin_set_dt pm_busy 0), x2), (Cpu k_cycle_get_32, x3), (Out out, x4)]"
  have "run_state (ns_pm_switch_to env ?S b) s = run_state (obind ?st (ns_finish env ?a b x0)) ?s1"
    by (subst ns_switch_to_eq [OF assms]) (simp add: gpio_indicators_transition_begin_def x)
  also have "\<dots> = run_state (ns_finish env ?a b x0 (if ok then 0 else - EIO)) ?s2"
    by (subst run_obind, subst w(1)) simp
  finally have "run_state (ns_pm_switch_to env ?S b) s =
      (Some (if ok then 0 else - EIO), s\<lparr>s_current_mode := if ok then b else ?a, calls := calls s @ ?h\<rparr>)"
    unfolding f by simp
  moreover have "ns_seen ?a ok ?h" using w(2) unfolding ns_seen_def by blast
  ultimately show thesis by (rule that)
qed

section \<open>Reading the hardware off the calls\<close>

text \<open>
  The commanded divider of CLK_HF0 and buck profile. The board boots with divider 2 and the HP
  profile, and the PLL stays at 400 MHz.
\<close>

definition core_step :: "soc_call \<Rightarrow> nat \<times> pm_mode_t \<Rightarrow> nat \<times> pm_mode_t" where
  "core_step c st =
     (case c of Clk k \<Rightarrow> (case k of Cy_SysClk_ClkHfSetDivider n d \<Rightarrow> if n = 0 then (d, snd st) else st | _ \<Rightarrow> st)
      | Pm p \<Rightarrow> (case p of Cy_SysPm_CoreBuckSetProfile m \<Rightarrow> (fst st, m) | _ \<Rightarrow> st)
      | _ \<Rightarrow> st)"

definition core_boot :: "nat \<times> pm_mode_t" where "core_boot = (2, PM_MODE_HP)"

definition core_after :: "nat \<times> pm_mode_t \<Rightarrow> (soc_call \<times> u32) list \<Rightarrow> nat \<times> pm_mode_t" where
  "core_after st h = fold core_step (map fst h) st"

definition core_ok :: "nat \<times> pm_mode_t \<Rightarrow> bool" where
  "core_ok st \<longleftrightarrow> 400 \<le> ceiling_mhz (snd st) * fst st"

fun core_always :: "nat \<times> pm_mode_t \<Rightarrow> soc_call list \<Rightarrow> bool" where
  "core_always st [] \<longleftrightarrow> core_ok st"
| "core_always st (c # cs) \<longleftrightarrow> core_ok st \<and> core_always (core_step c st) cs"

definition buck_ok :: "(soc_call \<times> u32) list \<Rightarrow> bool" where
  "buck_ok h \<longleftrightarrow> list_all (\<lambda>e. fst e = Pm Cy_SysPm_CoreBuckStatus \<longrightarrow> snd e = 0) h"

definition core_of :: "pm_mode_t \<Rightarrow> nat \<times> pm_mode_t" where
  "core_of m = (if m = PM_MODE_HP then 2 else 6, m)"

lemma core_after_append [simp]: "core_after st (h @ k) = core_after (core_after st h) k"
  by (simp add: core_after_def)

lemma core_after_Cons [simp]: "core_after st (e # h) = core_after (core_step (fst e) st) h"
  by (simp add: core_after_def)

lemma core_after_Nil [simp]: "core_after st [] = st"
  by (simp add: core_after_def)

lemma core_always_append:
  "core_always st (cs @ ds) \<longleftrightarrow> core_always st cs \<and> core_always (fold core_step cs st) ds"
  by (induction st cs rule: core_always.induct) (auto, (metis core_always.elims(2))+)

lemma core_step_other [simp]:
  "core_step (Cpu x) st = st" "core_step (Gpio g) st = st" "core_step (Out y) st = st"
  "core_step (Psa i m n) st = st" "core_step (PsaRead n) st = st" "core_step (trim_call w) st = st"
  "core_step (Pm Cy_SysPm_CoreBuckStatus) st = st"
  "core_step (Pm (Cy_SysPm_CoreBuckSetProfile p)) st = (fst st, p)"
  "core_step (Clk (Cy_SysClk_ClkHfSetDivider 0 d)) st = (d, snd st)"
  by (simp_all add: core_step_def trim_call_def)

lemma core_trims [simp]: "core_always st (map trim_call ws) \<longleftrightarrow> core_ok st" "fold core_step (map trim_call ws) st = st"
  by (induction ws) simp_all

lemma buck_ok_simps [simp]:
  "buck_ok []" "buck_ok (h @ k) \<longleftrightarrow> buck_ok h \<and> buck_ok k"
  "buck_ok ((c, r) # h) \<longleftrightarrow> (c = Pm Cy_SysPm_CoreBuckStatus \<longrightarrow> r = 0) \<and> buck_ok h"
  by (simp_all add: buck_ok_def)

lemma core_ok_simps [simp]:
  "core_ok (2, PM_MODE_HP)" "core_ok (6, PM_MODE_HP)" "core_ok (6, PM_MODE_LP)"
  by (simp_all add: core_ok_def)

lemma asked_core:
  "asked down_part ok h \<Longrightarrow> buck_ok h \<Longrightarrow> core_always (2, PM_MODE_HP) (map fst h) \<and>
     fold core_step (map fst h) (2, PM_MODE_HP) = core_of (if ok then PM_MODE_LP else PM_MODE_HP)"
  "asked up_part ok h \<Longrightarrow> buck_ok h \<Longrightarrow> core_always (6, PM_MODE_LP) (map fst h) \<and>
     fold core_step (map fst h) (6, PM_MODE_LP) = core_of (if ok then PM_MODE_HP else PM_MODE_LP)"
  by (auto simp: asked_def down_part_def up_part_def core_of_def)

lemma step_core:
  assumes "from_mode_seen a ok h" and "buck_ok h" and "hp_lp a b"
  shows "core_always (core_of a) (map fst h) \<and> fold core_step (map fst h) (core_of a) = core_of (if ok then b else a)"
proof -
  have post: "core_always st (if ok then map trim_call ws else []) \<longleftrightarrow> core_ok st"
    "fold core_step (if ok then map trim_call ws else []) st = st" for ws st
    by simp_all
  have "core_ok (core_of PM_MODE_HP)" "core_ok (core_of PM_MODE_LP)" by (simp_all add: core_of_def)
  with assms show ?thesis
    using asked_core
    by (auto simp: from_mode_seen_def step_seen_def hp_lp_def core_always_append post core_of_def split: if_splits)
qed

lemma switch_core:
  assumes "ns_seen a ok h" and "buck_ok h" and "hp_lp a b"
  shows "core_always (core_of a) (map fst h) \<and> core_after (core_of a) h = core_of (if ok then b else a)"
proof -
  obtain x0 x1 w x2 x3 out x4 where w: "from_mode_seen a ok w" and
    h: "h = (Cpu k_cycle_get_32, x0) # (Gpio (gpio_pin_set_dt pm_busy 1), x1) # w @
       [(Gpio (gpio_pin_set_dt pm_busy 0), x2), (Cpu k_cycle_get_32, x3), (Out out, x4)]"
    using assms(1) unfolding ns_seen_def by blast
  have "buck_ok w" using assms(2) by (simp add: h)
  moreover have "core_ok (core_of a)" "core_ok (core_of b)" using assms(3) by (auto simp: core_of_def hp_lp_def)
  ultimately show ?thesis
    using step_core [OF w _ assms(3)] by (simp add: h core_always_append core_after_def)
qed

section \<open>Sequences of switches\<close>

primrec ns_switches :: "soc_env \<Rightarrow> 'z service \<Rightarrow> pm_mode_t list \<Rightarrow> ('z, int list) sfn" where
  "ns_switches env svc [] = return (Some [])"
| "ns_switches env svc (m # ms) =
     obind (ns_pm_switch_to env svc m) (\<lambda>rc.
     obind (ns_switches env svc ms) (\<lambda>rcs. return (Some (rc # rcs))))"

definition ns_agrees :: "'z soc_scheme \<Rightarrow> bool" where
  "ns_agrees s \<longleftrightarrow> (s_current_mode s = PM_MODE_HP \<or> s_current_mode s = PM_MODE_LP) \<and>
     (buck_ok (calls s) \<longrightarrow> core_always core_boot (map fst (calls s)) \<and>
        core_after core_boot (calls s) = core_of (s_current_mode s))"

lemma ns_refused:
  assumes "\<not> hp_lp (s_current_mode s) m" and "s_current_mode s = PM_MODE_HP \<or> s_current_mode s = PM_MODE_LP"
  shows "\<exists>h. run_state (ns_pm_switch_to env svc m) s =
     (Some (if m = s_current_mode s then 0 else if m = PM_MODE_ULP then - ENOTSUP else - EINVAL), s\<lparr>calls := calls s @ h\<rparr>) \<and>
     (\<forall>e \<in> set h. \<exists>x. fst e = Out x)"
proof (cases "m = PM_MODE_ULP")
  case True
  with assms show ?thesis by (auto simp: ns_pm_switch_to_def)
next
  case False
  with assms show ?thesis by (intro exI [of _ "[]"]) (cases m, auto simp: ns_pm_switch_to_def hp_lp_def)
qed

lemma core_outs:
  "\<forall>e \<in> set h. \<exists>x. fst e = Out x \<Longrightarrow> core_after st h = st \<and> core_always st (map fst h) = core_ok st"
  by (induction h) (auto simp: core_after_def)

lemma ns_switch_agrees:
  assumes ag: "ns_agrees s" and run: "run_state (ns_pm_switch_to env (z_pm_service_sfn env M) m) s = (r, t)"
  shows "r \<noteq> None \<and> ns_agrees t"
proof (cases "hp_lp (s_current_mode s) m")
  case True
  obtain ok h where t: "r = Some (if ok then 0 else - EIO)"
    "t = s\<lparr>s_current_mode := if ok then m else s_current_mode s, calls := calls s @ h\<rparr>"
    and h: "ns_seen (s_current_mode s) ok h"
    using ns_switch_run [OF True, of env M] run by (metis prod.inject)
  show ?thesis
    using switch_core [OF h _ True] ag True
    by (auto simp: ns_agrees_def t core_always_append core_after_def hp_lp_def)
next
  case False
  obtain rc h where t: "r = Some rc" "t = s\<lparr>calls := calls s @ h\<rparr>" "\<forall>e \<in> set h. \<exists>x. fst e = Out x"
    using ns_refused [OF False, of env "z_pm_service_sfn env M"] ag run unfolding ns_agrees_def by auto
  have "core_ok (core_of (s_current_mode s))" using ag by (auto simp: ns_agrees_def core_of_def)
  with t ag core_outs [OF t(3)] show ?thesis
    by (auto simp: ns_agrees_def core_always_append core_after_def)
qed

lemma ns_switches_agree:
  "ns_agrees s \<Longrightarrow> run_state (ns_switches env (z_pm_service_sfn env M) ms) s = (r, t) \<Longrightarrow>
   (\<exists>rcs. r = Some rcs \<and> length rcs = length ms) \<and> ns_agrees t"
proof (induction ms arbitrary: s r t)
  case (Cons m ms)
  obtain q u where u: "run_state (ns_pm_switch_to env (z_pm_service_sfn env M) m) s = (q, u)" by fastforce
  obtain rc where q: "q = Some rc" "ns_agrees u" using ns_switch_agrees [OF Cons.prems(1) u] by auto
  obtain r1 t1 where 1: "run_state (ns_switches env (z_pm_service_sfn env M) ms) u = (r1, t1)" by fastforce
  from Cons.IH [OF q(2) 1] obtain rcs where "r1 = Some rcs" "length rcs = length ms" "ns_agrees t1" by auto
  with Cons.prems(2) u q 1 show ?case by (auto simp: run_obind)
qed auto

section \<open>The SRAM trims and the interrupt mask\<close>

definition trim_values :: "soc_call list \<Rightarrow> nat \<rightharpoonup> u32" where
  "trim_values cs = fold (\<lambda>c m. case c of Wr r v \<Rightarrow> (case r of SRSS_TRIM_RAM_CTL i \<Rightarrow> m(i \<mapsto> v) | _ \<Rightarrow> m) | _ \<Rightarrow> m)
     cs Map.empty"

text \<open>The trim of each mode: the values the HP and LP columns of the tables end with.\<close>

definition trims_of :: "pm_mode_t \<Rightarrow> nat \<rightharpoonup> u32" where
  "trims_of m = map_of (zip [0..<9]
     (if m = PM_MODE_HP then [0x342, 0x342, 0x202, 0x202, 0x20B, 0x20B, 0x1B, 0x1B, 0xA]
      else [0x743, 0x743, 0x604, 0x604, 0x604, 0x604, 0x22D, 0x22D, 0xB]))"

text \<open>Calls that must not be interrupted, and the walk that checks PRIMASK around them.\<close>

definition critical :: "soc_call \<Rightarrow> bool" where
  "critical c \<longleftrightarrow> (case c of Clk k \<Rightarrow> True | Pm p \<Rightarrow> True | Wr r v \<Rightarrow> True | Psa i m n \<Rightarrow> True | PsaRead n \<Rightarrow> True | _ \<Rightarrow> False)"

fun guarded :: "bool \<Rightarrow> soc_call list \<Rightarrow> bool" where
  "guarded masked [] \<longleftrightarrow> True"
| "guarded masked (c # cs) \<longleftrightarrow> (masked \<or> \<not> critical c) \<and>
     guarded (if c = Cpu cpsid_i then True else if critical c then masked else
       (case c of Cpu k \<Rightarrow> (case k of msr_primask v \<Rightarrow> False | _ \<Rightarrow> masked) | _ \<Rightarrow> masked)) cs"

lemma critical_simps [simp]:
  "critical (Clk k)" "critical (Pm p)" "critical (Wr r v)" "critical (Psa i m n)" "critical (PsaRead n)"
  "\<not> critical (Cpu x)" "\<not> critical (Gpio g)" "\<not> critical (Out y)" "critical (trim_call w)"
  by (simp_all add: critical_def trim_call_def)

lemma guarded_critical: "list_all critical cs \<Longrightarrow> guarded True (cs @ ds) \<longleftrightarrow> guarded True ds"
  by (induction cs) auto

lemma step_critical:
  "asked down_part ok h \<Longrightarrow> list_all critical (map fst h)" "asked up_part ok h \<Longrightarrow> list_all critical (map fst h)"
  by (auto simp: asked_def down_part_def up_part_def)

lemma trims_critical: "list_all critical (map trim_call ws)"
  by (simp add: list_all_iff)

definition trim_step :: "soc_call \<Rightarrow> (nat \<rightharpoonup> u32) \<Rightarrow> (nat \<rightharpoonup> u32)" where
  "trim_step c m = (case c of Wr r v \<Rightarrow> (case r of SRSS_TRIM_RAM_CTL i \<Rightarrow> m(i \<mapsto> v) | _ \<Rightarrow> m) | _ \<Rightarrow> m)"

lemma trim_values_fold: "trim_values cs = fold trim_step cs Map.empty"
  by (simp add: trim_values_def trim_step_def [abs_def])

lemma trim_step_simps [simp]:
  "trim_step (trim_call w) m = m(fst w \<mapsto> snd w)" "trim_step (Cpu x) m = m" "trim_step (Gpio g) m = m"
  "trim_step (Out y) m = m" "trim_step (Psa i j n) m = m" "trim_step (PsaRead n) m = m"
  "trim_step (Clk k) m = m" "trim_step (Pm p) m = m"
  by (simp_all add: trim_step_def trim_call_def)

lemma asked_trims:
  "asked down_part ok h \<Longrightarrow> fold trim_step (map fst h) m = m" "asked up_part ok h \<Longrightarrow> fold trim_step (map fst h) m = m"
  by (auto simp: asked_def down_part_def up_part_def)

lemma fold_trims: "fold trim_step (map trim_call ws) m = fold (\<lambda>w m. m(fst w \<mapsto> snd w)) ws m"
  by (induction ws arbitrary: m) simp_all

lemma tables_set_trims:
  "fold (\<lambda>w m. m(fst w \<mapsto> snd w)) (trim_hp_to_lp_pre @ trim_hp_to_lp_post) Map.empty = trims_of PM_MODE_LP"
  "fold (\<lambda>w m. m(fst w \<mapsto> snd w)) (trim_lp_to_hp_pre @ trim_lp_to_hp_post) Map.empty = trims_of PM_MODE_HP"
  by (rule ext, simp add: trim_hp_to_lp_pre_def trim_hp_to_lp_post_def trim_lp_to_hp_pre_def
    trim_lp_to_hp_post_def trims_of_def upt_rec)+

lemma ns_seen_parts:
  assumes "ns_seen a ok h" and "hp_lp a b"
  shows "\<exists>key. guarded False (map fst h) \<and>
     filter (\<lambda>e. fst e = Cpu mrs_primask) h = [(Cpu mrs_primask, key)] \<and>
     filter (\<lambda>c. \<exists>k. c = Cpu (msr_primask k)) (map fst h) = [Cpu (msr_primask key)] \<and>
     (ok \<longrightarrow> trim_values (map fst h) = trims_of b)"
proof -
  define part where "part = (if a = PM_MODE_HP then down_part else up_part)"
  define pre where "pre = (if a = PM_MODE_HP then trim_hp_to_lp_pre else trim_lp_to_hp_pre)"
  define post where "post = (if a = PM_MODE_HP then trim_hp_to_lp_post else trim_lp_to_hp_post)"
  have fm: "from_mode_seen a ok w = step_seen part pre post ok w" for w
    by (simp add: from_mode_seen_def part_def pre_def post_def)
  obtain x0 x1 w x2 x3 out x4 where "step_seen part pre post ok w" and
    h: "h = (Cpu k_cycle_get_32, x0) # (Gpio (gpio_pin_set_dt pm_busy 1), x1) # w @
       [(Gpio (gpio_pin_set_dt pm_busy 0), x2), (Cpu k_cycle_get_32, x3), (Out out, x4)]"
    using assms(1) unfolding ns_seen_def fm by blast
  then obtain key y z p v q where
    w: "w = (Cpu mrs_primask, key) # (Cpu cpsid_i, y) # p @ v @ q @ [(Cpu (msr_primask key), z)]"
    and p: "map fst p = map trim_call pre" and v: "asked part ok v"
    and q: "map fst q = (if ok then map trim_call post else [])"
    unfolding step_seen_def by blast
  have c: "list_all critical (map fst p)" "list_all critical (map fst v)" "list_all critical (map fst q)"
    using v step_critical trims_critical unfolding part_def p q by (auto split: if_splits)
  then have no: "filter (\<lambda>e. fst e = Cpu mrs_primask) k = []" "filter (\<lambda>c. \<exists>k. c = Cpu (msr_primask k)) (map fst k) = []"
    if "k \<in> {p, v, q}" for k :: "(soc_call \<times> u32) list"
    using that by (auto simp: filter_empty_conv list_all_iff)
  have "guarded False (map fst h)"
    unfolding h w by (simp add: guarded_critical c)
  moreover have "filter (\<lambda>e. fst e = Cpu mrs_primask) h = [(Cpu mrs_primask, key)]"
    "filter (\<lambda>c. \<exists>k. c = Cpu (msr_primask k)) (map fst h) = [Cpu (msr_primask key)]"
    unfolding h w using no by simp_all
  moreover have "trim_values (map fst h) = trims_of b" if ok
  proof -
    have "fold trim_step (map fst v) m = m" for m
      using v asked_trims unfolding part_def by (auto split: if_splits)
    then have "trim_values (map fst h) = fold (\<lambda>w m. m(fst w \<mapsto> snd w)) (pre @ post) Map.empty"
      unfolding h w by (simp add: trim_values_fold p q that fold_trims)
    with assms(2) show ?thesis
      by (auto simp: tables_set_trims [unfolded fold_append o_def] hp_lp_def pre_def post_def)
  qed
  ultimately show ?thesis by blast
qed

section \<open>Properties\<close>

text \<open>
  Over any sequence of requested modes, ULP and undefined ones included, every switch returns a code
  and clock, profile and mode stay together; \<open>App07\<close> carries this over the whole image.
\<close>

theorem ns_clock_within_ceiling:
  "let (r, t) = run_state (ns_switches env (z_pm_service_sfn env M) ms) soc_boot in
   (\<exists>rcs. r = Some rcs \<and> length rcs = length ms) \<and>
   s_current_mode t \<in> {PM_MODE_HP, PM_MODE_LP} \<and>
   (if buck_ok (calls t)
    then core_always core_boot (map fst (calls t)) \<and> core_after core_boot (calls t) = core_of (s_current_mode t)
    else True)"
proof -
  obtain r t where rt: "run_state (ns_switches env (z_pm_service_sfn env M) ms) soc_boot = (r, t)" by fastforce
  have "ns_agrees soc_boot"
    by (simp add: ns_agrees_def soc_boot_def core_boot_def core_of_def)
  from ns_switches_agree [OF this rt] show ?thesis
    unfolding rt by (auto simp: ns_agrees_def)
qed

text \<open>
  Property C4. A switch between HP and LP is not interrupted and leaves the SRAM trims of its
  target. PRIMASK is read, set before the first trim write, and restored to what was read after the
  last; every register write, every request to the secure side and every call that side makes lies
  in between, on success and on failure. The switch returns 0 or \<open>-EIO\<close>, the mode changes exactly
  with 0, and then the nine trim registers hold the values of the target whatever they held before.
\<close>

theorem ns_switch_masked_and_trimmed:
  assumes "hp_lp (s_current_mode s) target"
  shows "\<exists>rc h key. run_state (ns_pm_switch_to env (z_pm_service_sfn env M) target) s =
      (Some rc, s\<lparr>s_current_mode := if rc = 0 then target else s_current_mode s, calls := calls s @ h\<rparr>) \<and>
    (rc = 0 \<or> rc = - EIO) \<and> guarded False (map fst h) \<and>
    filter (\<lambda>e. fst e = Cpu mrs_primask) h = [(Cpu mrs_primask, key)] \<and>
    filter (\<lambda>c. \<exists>k. c = Cpu (msr_primask k)) (map fst h) = [Cpu (msr_primask key)] \<and>
    (if rc = 0 then trim_values (map fst h) = trims_of target else True)"
proof -
  obtain ok h where run: "run_state (ns_pm_switch_to env (z_pm_service_sfn env M) target) s =
      (Some (if ok then 0 else - EIO),
       s\<lparr>s_current_mode := if ok then target else s_current_mode s, calls := calls s @ h\<rparr>)"
    and seen: "ns_seen (s_current_mode s) ok h"
    using ns_switch_run [OF assms] by blast
  from ns_seen_parts [OF seen assms] obtain key where "guarded False (map fst h)"
    "filter (\<lambda>e. fst e = Cpu mrs_primask) h = [(Cpu mrs_primask, key)]"
    "filter (\<lambda>c. \<exists>k. c = Cpu (msr_primask k)) (map fst h) = [Cpu (msr_primask key)]"
    "ok \<longrightarrow> trim_values (map fst h) = trims_of target" by blast
  with run show ?thesis
    by (intro exI [of _ "if ok then 0 else - EIO"] exI [of _ h] exI [of _ key]) simp
qed

theorem ns_switch_masked_and_trimmed_witness:
  "\<exists>rc h. run_state (ns_pm_switch_to (\<lambda>h c. if c = PsaRead 8 then 8 else 0)
       (z_pm_service_sfn (\<lambda>h c. if c = PsaRead 8 then 8 else 0) demo_masks) PM_MODE_LP) soc_boot =
      (Some rc, soc_boot\<lparr>s_current_mode := if rc = 0 then PM_MODE_LP else PM_MODE_HP, calls := h\<rparr>) \<and>
    guarded False (map fst h)"
proof -
  have boot: "s_current_mode soc_boot = PM_MODE_HP" "calls soc_boot = []" by (simp_all add: soc_boot_def)
  have "hp_lp (s_current_mode soc_boot) PM_MODE_LP" by (simp add: boot hp_lp_def)
  from ns_switch_masked_and_trimmed [OF this, of "\<lambda>h c. if c = PsaRead 8 then 8 else 0" demo_masks]
  show ?thesis by (auto simp only: boot append_Nil)
qed

text \<open>
  Property C9. What a failed switch to LP leaves behind. When the core buck does not report the LP
  profile, the divider is put back to 2, so the core runs at 200 MHz, but the LP profile stays
  commanded, whose ceiling is 80 MHz; the SRAM keeps the trims written before the request, which are
  neither those of HP nor those of LP; and the mode stays HP.
\<close>

theorem ns_failed_lp_leaves_lp_profile:
  "\<exists>rc h. run_state (ns_pm_switch_to env (z_pm_service_sfn env M) PM_MODE_LP) (s\<lparr>s_current_mode := PM_MODE_HP\<rparr>) =
      (Some rc, s\<lparr>s_current_mode := if rc = 0 then PM_MODE_LP else PM_MODE_HP, calls := calls s @ h\<rparr>) \<and>
    (if buck_ok h then True
     else rc = - EIO \<and> core_after (2, PM_MODE_HP) h = (2, PM_MODE_LP) \<and> \<not> core_ok (2, PM_MODE_LP) \<and>
       trim_values (map fst h) 4 = Some 0x204 \<and> trim_values (map fst h) 0 = Some 0x743)"
proof -
  let ?s = "s\<lparr>s_current_mode := PM_MODE_HP\<rparr>"
  have hl: "hp_lp (s_current_mode ?s) PM_MODE_LP" by (simp add: hp_lp_def)
  obtain ok h where run: "run_state (ns_pm_switch_to env (z_pm_service_sfn env M) PM_MODE_LP) ?s =
      (Some (if ok then 0 else - EIO),
       ?s\<lparr>s_current_mode := if ok then PM_MODE_LP else s_current_mode ?s, calls := calls ?s @ h\<rparr>)"
    and seen: "ns_seen (s_current_mode ?s) ok h"
    using ns_switch_run [OF hl] by blast
  have "\<not> ok \<and> core_after (2, PM_MODE_HP) h = (2, PM_MODE_LP) \<and>
      trim_values (map fst h) = fold (\<lambda>w m. m(fst w \<mapsto> snd w)) trim_hp_to_lp_pre Map.empty" if bad: "\<not> buck_ok h"
  proof -
    obtain x0 x1 w x2 x3 out x4 where "step_seen down_part trim_hp_to_lp_pre trim_hp_to_lp_post ok w" and
      h: "h = (Cpu k_cycle_get_32, x0) # (Gpio (gpio_pin_set_dt pm_busy 1), x1) # w @
         [(Gpio (gpio_pin_set_dt pm_busy 0), x2), (Cpu k_cycle_get_32, x3), (Out out, x4)]"
      using seen unfolding ns_seen_def from_mode_seen_def by auto
    then obtain key y z p v q where
      w: "w = (Cpu mrs_primask, key) # (Cpu cpsid_i, y) # p @ v @ q @ [(Cpu (msr_primask key), z)]"
      and p: "map fst p = map trim_call trim_hp_to_lp_pre" and v: "asked down_part ok v"
      and q: "map fst q = (if ok then map trim_call trim_hp_to_lp_post else [])"
      unfolding step_seen_def by blast
    have trims: "buck_ok k" if "map fst k = map trim_call ws" for k ws
      using that by (induction ws arbitrary: k) (auto simp: trim_call_def)
    have "buck_ok p" "buck_ok q" using trims [OF p] trims [of q trim_hp_to_lp_post] q by (auto split: if_splits)
    then have "\<not> buck_ok v" using bad unfolding h w by simp
    then have "\<not> ok \<and> fold core_step (map fst v) (2, PM_MODE_HP) = (2, PM_MODE_LP)"
      using v by (auto simp: asked_def down_part_def split: if_splits)
    then show ?thesis
      using asked_trims(1) [OF v] unfolding h w
      by (simp add: core_after_def p q trim_values_fold fold_trims)
  qed
  with run show ?thesis
    by (intro exI [of _ "if ok then 0 else - EIO"] exI [of _ h])
      (simp add: core_ok_def trim_hp_to_lp_pre_def)
qed

end
