(* ===== verification/Ns_Shell.thy ===== *)
theory Ns_Shell
  imports Pm_Ns Pm_Cmds
begin

text \<open>
  The shell of \<open>apps/07_pse84_tfm_m33_m55_power_shell\<close>: the commands of \<open>Pm_Cmds\<close> (\<open>cm33_ns/src\<close> has the
  same \<open>shell_cmds.c\<close>, \<open>cmd_sleep.c\<close>, \<open>cmd_noidle.c\<close> and the same \<open>deep_sleep\<close> command) on the
  non-secure mode manager of \<open>Pm_Ns\<close>, which calls the secure partition.
\<close>

section \<open>The manager\<close>

definition ns_manager :: "soc_env \<Rightarrow> 'z service \<Rightarrow> z_pm_clock_probe_report \<Rightarrow> 'z mode_manager" where
  "ns_manager env svc stack =
     \<lparr>mm_current_mode = ns_pm_current_mode, mm_mode_name = ns_pm_mode_name,
      mm_switch_to = ns_pm_switch_to env svc, mm_clock_probe = ns_pm_clock_probe env svc stack\<rparr>"

section \<open>Start-up and probes keep the view\<close>

lemma keeps_view_init [keeps_view_intros]: "v_mode V = PM_MODE_HP \<Longrightarrow> keeps_view V ns_pm_init"
  by (auto simp: keeps_view_def ns_pm_init_def at_prompt_def view_of_def)

lemma secure_no_pin: "secure_call c \<Longrightarrow> \<not> sets_pin c"
  by (cases c rule: sets_pin.cases) auto

lemma returns_split [returns_intros]: "(\<And>a b. returns (f a b)) \<Longrightarrow> returns (case p of (a, b) \<Rightarrow> f a b)"
  by (simp add: split_beta)

context secure_service begin

lemma quiet_psa_call: "quiet (\<lambda>c. \<not> sets_pin c) (psa_call env svc op inb n)"
  unfolding psa_call_def
  by (intro quiet_intros, simp) (rule quiet_mono [OF within], erule secure_no_pin)

lemma returns_psa_call: "returns (psa_call env svc op inb n)"
proof -
  have "result (psa_call env svc op inb n) s \<noteq> None" for s
    using spec [OF call_answers [of env op inb n, unfolded runs_def], of s] by auto
  then show ?thesis by (simp add: returns_def)
qed

lemma probe_keeps: "quiet (\<lambda>c. \<not> sets_pin c) (ns_pm_clock_probe env svc stack)"
  unfolding ns_pm_clock_probe_def z_pm_clock_probe_def
  by (auto intro!: quiet_intros quiet_psa_call split: option.split)

lemma probe_returns: "returns (ns_pm_clock_probe env svc stack)"
  unfolding ns_pm_clock_probe_def z_pm_clock_probe_def
  by (auto intro!: returns_intros returns_psa_call split: option.split)

lemma quiet_client:
  "quiet (\<lambda>c. \<not> sets_pin c) (z_pm_ping env svc (Some 0))"
  "quiet (\<lambda>c. \<not> sets_pin c) (z_pm_deep_sleep_bias env svc)"
  unfolding z_pm_ping_def z_pm_deep_sleep_bias_def option.case
  by (intro quiet_intros quiet_psa_call)+

lemma main_keeps: "v_mode V = PM_MODE_HP \<Longrightarrow> keeps_view V (ns_main env svc)"
  unfolding ns_main_def ns_pm_current_mode_def
  by (intro keeps_view_intros) (assumption | (rule keeps_view_quiet, (intro quiet_intros quiet_client; simp)))+

lemma main_returns: "returns (ns_main env svc)"
  unfolding ns_main_def z_pm_ping_def z_pm_deep_sleep_bias_def
  by (auto intro!: returns_intros returns_psa_call)

end

section \<open>The contract\<close>

text \<open>The levels of the pins after a switch: pm-busy is low again, the LEDs are as they were.\<close>

lemma asked_no_pin:
  "asked down_part ok h \<Longrightarrow> list_all ((\<lambda>c. \<not> sets_pin c) \<circ> fst) h"
  "asked up_part ok h \<Longrightarrow> list_all ((\<lambda>c. \<not> sets_pin c) \<circ> fst) h"
  by (auto simp: asked_def down_part_def up_part_def)

lemma trims_no_pin:
  assumes "map fst h = map trim_call ws"
  shows "list_all ((\<lambda>c. \<not> sets_pin c) \<circ> fst) h"
proof -
  have "list_all (\<lambda>c. \<not> sets_pin c) (map fst h)"
    unfolding assms by (simp add: list_all_iff trim_call_def)
  then show ?thesis by (simp add: list.pred_map)
qed

lemma step_no_pin:
  assumes "from_mode_seen a ok w"
  shows "list_all ((\<lambda>c. \<not> sets_pin c) \<circ> fst) w"
proof -
  obtain part pre post where part: "part = down_part \<or> part = up_part" and "step_seen part pre post ok w"
    using assms by (auto simp: from_mode_seen_def split: if_splits)
  then obtain key x y p v q where w: "w = (Cpu mrs_primask, key) # (Cpu cpsid_i, x) # p @ v @ q @ [(Cpu (msr_primask key), y)]"
    and p: "map fst p = map trim_call pre" and v: "asked part ok v"
    and q: "map fst q = (if ok then map trim_call post else [])"
    unfolding step_seen_def by blast
  have "list_all ((\<lambda>c. \<not> sets_pin c) \<circ> fst) q"
    using q trims_no_pin [of q post] by (cases ok) auto
  with trims_no_pin [OF p] part v asked_no_pin show ?thesis by (auto simp: w)
qed

lemma seen_level:
  assumes "ns_seen a ok h"
  shows "pin_level p (k @ h) = (if p = pm_busy then 0 else pin_level p k)"
proof -
  obtain x0 x1 w x2 x3 out x4 where w: "from_mode_seen a ok w" and
    h: "h = (Cpu k_cycle_get_32, x0) # (Gpio (gpio_pin_set_dt pm_busy 1), x1) # w @
       [(Gpio (gpio_pin_set_dt pm_busy 0), x2), (Cpu k_cycle_get_32, x3), (Out out, x4)]"
    using assms unfolding ns_seen_def by blast
  have "fold (level_step p) w v = v" if "p \<noteq> pm_busy" for v
    using step_no_pin [OF w]
    by (induction w arbitrary: v) (auto simp: level_step_def split: soc_call.splits gpio_call.splits)
  then show ?thesis by (simp add: h pin_level_fold)
qed

lemma refused_eq:
  assumes "\<not> hp_lp (s_current_mode s) m" and "m = PM_MODE_HP \<or> m = PM_MODE_LP" and "m \<noteq> s_current_mode s"
  shows "run_state (ns_pm_switch_to env svc m) s = run_state (do {
      t_start \<leftarrow> ask env (Cpu k_cycle_get_32);
      gpio_indicators_transition_begin env;
      ns_finish env (s_current_mode s) m t_start (- EINVAL) }) s"
  using assms by (auto simp: hp_lp_def ns_pm_switch_to_def ns_finish_def [abs_def] run_obind)

lemma refused_level:
  assumes "\<not> hp_lp (s_current_mode s) m" and "valid_mode m"
    and run: "run_state (ns_pm_switch_to env svc m) s = (Some rc, t)"
  shows "\<exists>h. t = s\<lparr>calls := calls s @ h\<rparr> \<and> (rc = 0 \<longrightarrow> m = s_current_mode s) \<and>
     (\<forall>p. pin_level p (calls t) = (if p = pm_busy \<and> h \<noteq> [] \<and> m \<noteq> PM_MODE_ULP then 0 else pin_level p (calls s)))"
proof -
  consider (same) "m = s_current_mode s" "m \<noteq> PM_MODE_ULP" | (ulp) "m = PM_MODE_ULP"
    | (bad) "m = PM_MODE_HP \<or> m = PM_MODE_LP" "m \<noteq> s_current_mode s"
    using assms(2) by (cases m) auto
  then show ?thesis
  proof cases
    case same
    then have "run_state (ns_pm_switch_to env svc m) s = (Some 0, s)"
      using assms(2) by (cases "s_current_mode s") (simp_all add: ns_pm_switch_to_def)
    with run have "t = s\<lparr>calls := calls s @ []\<rparr>" by simp
    with same show ?thesis by (intro exI [of _ "[]"]) simp
  next
    case ulp
    then show ?thesis using run by (auto simp: ns_pm_switch_to_def pin_level_fold)
  next
    case bad
    from run have "run_state (do {
      t_start \<leftarrow> ask env (Cpu k_cycle_get_32);
      gpio_indicators_transition_begin env;
      ns_finish env (s_current_mode s) m t_start (- EINVAL) }) s = (Some rc, t)"
      unfolding refused_eq [OF assms(1) bad] .
    with bad show ?thesis
      by (auto simp: ns_finish_def gpio_indicators_transition_begin_def gpio_indicators_transition_end_def pin_level_fold)
  qed
qed

lemma ns_switch_view:
  assumes p: "at_prompt s" and m: "valid_mode m"
    and run: "run_state (ns_pm_switch_to env (z_pm_service_sfn env M) m) s = (Some rc, t)"
  shows "at_prompt t \<and> view_of t = (view_of s)\<lparr>v_mode := (if rc = 0 then m else v_mode (view_of s))\<rparr>"
proof (cases "hp_lp (s_current_mode s) m")
  case True
  obtain ok h where r: "run_state (ns_pm_switch_to env (z_pm_service_sfn env M) m) s =
      (Some (if ok then 0 else - EIO), s\<lparr>s_current_mode := if ok then m else s_current_mode s, calls := calls s @ h\<rparr>)"
    and h: "ns_seen (s_current_mode s) ok h"
    by (rule ns_switch_run [OF True])
  have "rc = (if ok then 0 else - EIO)"
    "t = s\<lparr>s_current_mode := if ok then m else s_current_mode s, calls := calls s @ h\<rparr>"
    using run [unfolded r] by simp_all
  with p m show ?thesis by (simp add: at_prompt_def view_of_def seen_level [OF h])
next
  case False
  obtain h where "t = s\<lparr>calls := calls s @ h\<rparr>" "rc = 0 \<longrightarrow> m = s_current_mode s"
    "\<And>p. pin_level p (calls t) = (if p = pm_busy \<and> h \<noteq> [] \<and> m \<noteq> PM_MODE_ULP then 0 else pin_level p (calls s))"
    using refused_level [OF False m run] by blast
  with p show ?thesis by (simp add: at_prompt_def view_of_def)
qed

interpretation ns: mode_switching "ns_manager nenv (z_pm_service_sfn nenv nM) nstack" for nenv nM nstack
proof
  fix s m rc t
  assume "at_prompt s" "valid_mode m"
    "run_state (mm_switch_to (ns_manager nenv (z_pm_service_sfn nenv nM) nstack) m) s = (Some rc, t)"
  then show "at_prompt t \<and> view_of t = (view_of s)\<lparr>v_mode := (if rc = 0 then m else v_mode (view_of s))\<rparr>"
    by (intro ns_switch_view) (simp_all add: ns_manager_def)
next
  fix s r t
  assume "at_prompt s"
    "run_state (mm_clock_probe (ns_manager nenv (z_pm_service_sfn nenv nM) nstack)) s = (r, t)"
  then have "at_prompt s" "t = final (ns_pm_clock_probe nenv (z_pm_service_sfn nenv nM) nstack) s"
    by (simp_all add: ns_manager_def)
  then show "at_prompt t \<and> view_of t = view_of s"
    using keeps_view_quiet [OF zpm07.probe_keeps] unfolding keeps_view_def by blast
qed (simp add: ns_manager_def ns_pm_current_mode_def)

section \<open>From boot\<close>

definition ns_shell ::
  "soc_env \<Rightarrow> masks \<Rightarrow> z_pm_clock_probe_report \<Rightarrow> command list \<Rightarrow> ('z, int list) sfn" where
  "ns_shell env M stack cmds =
     obind (ns_main env (z_pm_service_sfn env M)) (\<lambda>_.
       run_session env M (ns_manager env (z_pm_service_sfn env M) stack) cmds)"

lemma returns_ns_switch: "returns (ns_pm_switch_to env (z_pm_service_sfn env M) m)"
proof -
  have step: "returns (step_transition env (z_pm_service_sfn env M) a b pre post)" for a b pre post
    unfolding step_transition_def z_pm_switch_active_mode_def
    by (auto intro!: returns_intros zpm07.returns_psa_call split: option.split)
  show ?thesis
    unfolding ns_pm_switch_to_def step_hp_to_lp_def step_lp_to_hp_def by (intro returns_intros step)
qed

lemma returns_ns_session: "returns (run_session env M (ns_manager env (z_pm_service_sfn env M) stack) cmds)"
  by (rule returns_session) (simp_all add: ns_manager_def returns_ns_switch zpm07.probe_returns)

lemma ulp_code:
  assumes "run_state (run_command env M (ns_manager env svc stack) Ulp) s = (Some rc, t)"
  shows "rc = - ENOTSUP"
  using assms
  by (auto simp: cmd_ulp_def do_mode_switch_def ns_manager_def ns_pm_switch_to_def run_obind
      gpio_indicators_set_mode_leds_def)

definition ulp_refused :: "command \<times> int \<Rightarrow> bool" where
  "ulp_refused p \<longleftrightarrow> (if fst p = Ulp then snd p = - ENOTSUP else True)"

lemma session_ulp:
  "run_state (run_session env M (ns_manager env svc stack) cs) s = (Some rcs, t) \<Longrightarrow>
   list_all ulp_refused (zip cs rcs)"
proof (induction cs arbitrary: s rcs)
  case (Cons c cs)
  from Cons.prems obtain rc u rs where
    c: "run_state (run_command env M (ns_manager env svc stack) c) s = (Some rc, u)" and
    cs: "run_state (run_session env M (ns_manager env svc stack) cs) u = (Some rs, t)" and rcs: "rcs = rc # rs"
    by (auto simp: run_obind split: prod.splits option.splits)
  have "ulp_refused (c, rc)"
    using ulp_code [of env M svc stack s rc u] c by (cases c) (simp_all add: ulp_refused_def del: run_command.simps)
  with Cons.IH [OF cs] rcs show ?case by simp
qed simp

lemma view_hp_lp:
  "list_all ulp_refused ps \<Longrightarrow> v_mode v \<in> {PM_MODE_HP, PM_MODE_LP} \<Longrightarrow>
   v_mode (fold view_step ps v) \<in> {PM_MODE_HP, PM_MODE_LP}"
proof (induction ps arbitrary: v)
  case (Cons p ps)
  obtain c rc where p: "p = (c, rc)" by fastforce
  have "v_mode (view_step p v) \<in> {PM_MODE_HP, PM_MODE_LP}"
    using Cons.prems p by (cases c) (auto simp: ulp_refused_def view_switch_def)
  with Cons show ?case by simp
qed simp

section \<open>Properties\<close>

text \<open>
  Property C13. The same shell on the other manager. From the boot of app 07's non-secure image,
  for any commands and whatever the partition manager, the PDL and the drivers answer, start-up and
  every command return, and afterwards mode, LEDs and idle override are those of the abstract session
  of the codes returned. Every \<open>ulp\<close> is refused with \<open>-ENOTSUP\<close> (though it lights the LED of ULP), so
  the mode is always HP or LP; and between commands pm-busy is low.
\<close>

theorem ns_session_refines_view:
  "\<exists>rcs t. run_state (ns_shell env M stack cmds) soc_boot = (Some rcs, t) \<and>
    length rcs = length cmds \<and> list_all ulp_refused (zip cmds rcs) \<and>
    s_current_mode t \<in> {PM_MODE_HP, PM_MODE_LP} \<and> pin_level pm_busy (calls t) = 0 \<and>
    view_of t = fold view_step (zip cmds rcs) \<lparr>v_mode = PM_MODE_HP, v_leds = (0, 0), v_noidle = False\<rparr>"
proof -
  let ?S = "z_pm_service_sfn env M" and ?V = "\<lparr>v_mode = PM_MODE_HP, v_leds = (0, 0), v_noidle = False\<rparr>"
  let ?mgr = "ns_manager env ?S stack"
  have start: "at_prompt soc_boot \<and> view_of soc_boot = ?V"
    by (simp add: at_prompt_def view_of_def soc_boot_def pin_level_def)
  have "keeps_view ?V (ns_main env ?S)" by (rule zpm07.main_keeps) simp
  with start have main: "at_prompt (final (ns_main env ?S) soc_boot)" "view_of (final (ns_main env ?S) soc_boot) = ?V"
    unfolding keeps_view_def by blast+
  obtain y u where y: "run_state (ns_main env ?S) soc_boot = (Some y, u)"
    using zpm07.main_returns [of env env M] unfolding returns_def by (metis not_None_eq prod.collapse)
  with main have boot: "at_prompt u" "view_of u = ?V" by simp_all
  obtain rcs t where run: "run_state (run_session env M ?mgr cmds) u = (Some rcs, t)"
    using returns_ns_session [of env M stack cmds] unfolding returns_def by (metis not_None_eq prod.collapse)
  note view = ns.session_view [OF boot(1) run]
  have "v_mode (view_of t) \<in> {PM_MODE_HP, PM_MODE_LP}"
    using view_hp_lp [OF session_ulp [OF run], of ?V] view boot(2) by simp
  then have "s_current_mode t \<in> {PM_MODE_HP, PM_MODE_LP}" by (simp add: view_of_def)
  moreover have "run_state (ns_shell env M stack cmds) soc_boot = (Some rcs, t)"
    by (simp add: ns_shell_def run_obind y run)
  moreover have "length rcs = length cmds" "pin_level pm_busy (calls t) = 0"
    "view_of t = fold view_step (zip cmds rcs) ?V"
    using view by (simp_all add: boot(2) at_prompt_def)
  ultimately show ?thesis
    by (intro exI [of _ rcs] exI [of _ t] conjI session_ulp [OF run])
qed

end
