(* ===== verification/App07.thy ===== *)
theory App07
  imports Images Ns_Shell
begin

text \<open>
  The non-secure image of \<open>apps/07_pse84_tfm_m33_m55_power_shell\<close> from reset, with the secure partition
  it calls: the \<open>SYS_INIT\<close> hook of \<open>boot_mcwdt_reset.c\<close>, \<open>main\<close> and a shell session. The invariant of
  \<open>Pm_Ns\<close> is carried over the whole run by \<open>Images\<close>.
\<close>

section \<open>The image\<close>

definition app07_image ::
  "soc_env \<Rightarrow> masks \<Rightarrow> z_pm_clock_probe_report \<Rightarrow> command list \<Rightarrow> ('z, int list) sfn" where
  "app07_image env M stack cmds = do { boot_mcwdt_reset env M; ns_shell env M stack cmds }"

section \<open>What the image may do\<close>

text \<open>
  The list of what may be touched; nothing else is. Clocks: the divider of the core clock, to 2 or 6,
  the two settings for deep sleep, and measuring or computing a frequency. Supplies: the core buck
  with the HP or the LP profile, its status, and its deep-sleep setting; the deep-sleep mode, the wait,
  and the watchdog at boot. Registers: the SRAM trims, the two that select the deep-sleep bias and the
  one that ends a deep sleep. Besides these there are messages, pins, console output and CPU calls.
\<close>

definition ns_alive :: "soc_call \<Rightarrow> bool" where
  "ns_alive c \<longleftrightarrow>
     (case c of
        Clk k \<Rightarrow>
          (case k of
             Cy_SysClk_ClkHfSetDivider i d \<Rightarrow> i = 0 \<and> (d = 2 \<or> d = 6)
           | Cy_SysClk_IhoDeepsleepDisable \<Rightarrow> True
           | Cy_SysClk_ClkBakSetSource_PILO \<Rightarrow> True
           | Cy_SysClk_StartClkMeasurementCounters n m \<Rightarrow> True
           | Cy_SysClk_ClkMeasurementCountersDone \<Rightarrow> True
           | Cy_SysClk_ClkMeasurementCountersGetFreq \<Rightarrow> True
           | Cy_SysClk_ClkPathGetFrequency n \<Rightarrow> True
           | Cy_SysClk_ClkHfGetFrequency n \<Rightarrow> True
           | _ \<Rightarrow> False)
      | Pm p \<Rightarrow>
          (case p of
             Cy_SysPm_CoreBuckSetProfile m \<Rightarrow> m = PM_MODE_HP \<or> m = PM_MODE_LP
           | Cy_SysPm_CoreBuckStatus \<Rightarrow> True
           | Cy_SysPm_CoreBuckDpslpSetVoltage_0_70V \<Rightarrow> True
           | Cy_SysPm_CoreBuckDpslpSetMode_LP \<Rightarrow> True
           | Cy_SysPm_CoreBuckDpslpEnableOverride b \<Rightarrow> b
           | Cy_SysPm_Init \<Rightarrow> True
           | Cy_SysPm_SetDeepSleepMode d \<Rightarrow> d = CY_SYSPM_MODE_DEEPSLEEP
           | Cy_SysPm_CpuEnterDeepSleep \<Rightarrow> True
           | Cy_MCWDT_Unlock \<Rightarrow> True
           | Cy_MCWDT_Disable a t \<Rightarrow> True
           | Cy_MCWDT_ClearInterrupt a \<Rightarrow> True
           | Cy_MCWDT_SetInterruptMask a \<Rightarrow> a = 0
           | _ \<Rightarrow> False)
      | Wr r v \<Rightarrow> (\<exists>i. r = SRSS_TRIM_RAM_CTL i \<and> i < 9) \<or> r \<in> {SRSS_PWR_CTL2, SRSS_CLK_IMO_CONFIG, SCB_SCR}
      | Uart u \<Rightarrow> False
      | _ \<Rightarrow> True)"

text \<open>The calls that leave divider, profile and buck status alone.\<close>

definition core_still :: "soc_call \<Rightarrow> bool" where
  "core_still c \<longleftrightarrow> (\<forall>st. core_step c st = st) \<and> c \<noteq> Pm Cy_SysPm_CoreBuckStatus"

text \<open>Both at once.\<close>

definition ns_steady :: "soc_call \<Rightarrow> bool" where
  "ns_steady c \<longleftrightarrow> ns_alive c \<and> core_still c"

lemma core_still_calls [simp]:
  "core_still (Rd r)" "core_still (Wr r v)" "core_still (Cpu k)" "core_still (Out x)" "core_still (Uart u)"
  "core_still (Gpio g)" "core_still (Psa i m n)" "core_still (PsaRead n)"
  by (simp_all add: core_still_def core_step_def)

lemma shell_call_ns_steady: "shell_call c \<Longrightarrow> ns_steady c"
  by (auto simp: shell_call_def ns_steady_def ns_alive_def core_still_def core_step_def split: soc_call.splits)

lemma ns_alive_calls [simp]:
  "ns_alive (Rd r)" "ns_alive (Cpu k)" "ns_alive (Out x)" "ns_alive (Gpio g)"
  "ns_alive (Psa i m n)" "ns_alive (PsaRead n)" "ns_alive (trim_call w) \<longleftrightarrow> fst w < 9"
  by (simp_all add: ns_alive_def trim_call_def)

section \<open>A switch\<close>

lemma asked_alive:
  "asked down_part ok h \<Longrightarrow> list_all (ns_alive \<circ> fst) h" "asked up_part ok h \<Longrightarrow> list_all (ns_alive \<circ> fst) h"
  by (auto simp: asked_def down_part_def up_part_def ns_alive_def)

text \<open>The tables name the nine trim registers.\<close>

definition trims_in_range :: "trim_write list \<Rightarrow> bool" where
  "trims_in_range ws \<longleftrightarrow> list_all (\<lambda>w. fst w < 9) ws"

lemma tables_in_range:
  "trims_in_range trim_hp_to_lp_pre" "trims_in_range trim_hp_to_lp_post"
  "trims_in_range trim_lp_to_hp_pre" "trims_in_range trim_lp_to_hp_post"
  by (simp_all add: trims_in_range_def trim_hp_to_lp_pre_def trim_hp_to_lp_post_def
      trim_lp_to_hp_pre_def trim_lp_to_hp_post_def)

lemma trims_alive:
  assumes "map fst h = map trim_call ws" and "trims_in_range ws"
  shows "list_all (ns_alive \<circ> fst) h"
proof -
  have "list_all ns_alive (map fst h)"
    unfolding assms(1) using assms(2) by (auto simp: list_all_iff trims_in_range_def)
  then show ?thesis by (simp add: list.pred_map)
qed

lemma step_alive:
  assumes part: "\<And>w. asked part ok w \<Longrightarrow> list_all (ns_alive \<circ> fst) w"
    and tables: "trims_in_range pre" "trims_in_range post" and "step_seen part pre post ok h"
  shows "list_all (ns_alive \<circ> fst) h"
proof -
  obtain key a b p w q where h: "h = (Cpu mrs_primask, key) # (Cpu cpsid_i, a) # p @ w @ q @ [(Cpu (msr_primask key), b)]"
    and p: "map fst p = map trim_call pre" and w: "asked part ok w"
    and q: "map fst q = (if ok then map trim_call post else [])"
    using assms(4) unfolding step_seen_def by blast
  have "list_all (ns_alive \<circ> fst) q" using q trims_alive [OF _ tables(2), of q] by (cases ok) auto
  with trims_alive [OF p tables(1)] part [OF w] show ?thesis by (simp add: h)
qed

lemma seen_alive: "ns_seen a ok h \<Longrightarrow> list_all (ns_alive \<circ> fst) h"
  unfolding ns_seen_def from_mode_seen_def
  by (auto split: if_splits dest: step_alive [OF asked_alive(1) tables_in_range(1,2), rotated]
      step_alive [OF asked_alive(2) tables_in_range(3,4), rotated])

section \<open>The invariant\<close>

definition ns_safe :: "'z soc_scheme \<Rightarrow> bool" where
  "ns_safe s \<longleftrightarrow> ns_agrees s \<and> list_all (ns_alive \<circ> fst) (calls s)"

lemma core_stillD: "core_still c \<Longrightarrow> core_step c st = st" "core_still c \<Longrightarrow> c \<noteq> Pm Cy_SysPm_CoreBuckStatus"
  unfolding core_still_def by blast+

lemma core_still_history:
  assumes "list_all (core_still \<circ> fst) h"
  shows "core_after st h = st" and "core_always st (map fst h) = core_ok st" and "buck_ok h"
  using assms by (induction h) (auto simp: core_stillD)

interpretation ns_image: image_invariant ns_safe ns_safe ns_steady
proof
  fix s t :: "'z soc_scheme" and new
  assume s: "ns_safe s" and t: "calls t = calls s @ new" "s_current_mode t = s_current_mode s"
    and "list_all (ns_steady \<circ> fst) new"
  then have new: "list_all (core_still \<circ> fst) new" "list_all (ns_alive \<circ> fst) new"
    by (simp_all add: ns_steady_def list_all_iff)
  have "core_ok (core_of (s_current_mode s))" using s by (auto simp: ns_safe_def ns_agrees_def core_of_def)
  with s t new show "ns_safe t"
    by (auto simp: ns_safe_def ns_agrees_def core_still_history [OF new(1)] core_always_append core_after_def [symmetric])
qed (auto intro: shell_call_ns_steady)

lemma ns_switch_safe:
  assumes s: "ns_safe s" and run: "run_state (ns_pm_switch_to env (z_pm_service_sfn env M) m) s = (r, t)"
  shows "ns_safe t"
proof -
  have mode: "s_current_mode s = PM_MODE_HP \<or> s_current_mode s = PM_MODE_LP"
    using s by (simp add: ns_safe_def ns_agrees_def)
  obtain h where "calls t = calls s @ h" "list_all (ns_alive \<circ> fst) h"
  proof (cases "hp_lp (s_current_mode s) m")
    case True
    then show thesis using ns_switch_run [OF True, of env M] run that seen_alive by fastforce
  next
    case False
    obtain h where h: "calls t = calls s @ h" and out: "\<forall>e \<in> set h. \<exists>x. fst e = Out x"
      using ns_refused [OF False mode, of env "z_pm_service_sfn env M"] run by auto
    have "list_all (ns_alive \<circ> fst) h" using out by (auto simp: list_all_iff)
    with h show thesis by (rule that)
  qed
  with s ns_switch_agrees [OF _ run] show ?thesis by (simp add: ns_safe_def)
qed

section \<open>Probe and start-up\<close>

text \<open>The requests besides the switch: the service takes the branch of its operation.\<close>

lemma quiet_request:
  fixes svc :: "'z service"
  assumes "quiet ns_steady (svc \<lparr>msg_type = op, out_size = n, msg_in = inb\<rparr>)"
  shows "quiet ns_steady (psa_call env svc op inb n)"
  unfolding psa_call_def
  by (rule quiet_bind, rule quiet_ask, simp add: ns_steady_def) (rule quiet_if [OF quiet_return assms])

lemma quiet_ns_hz: "quiet ns_steady (measure_hz env m)"
proof -
  have "quiet ns_steady (measure_spin env n)" for n
    by (induction n)
      (auto simp: ns_steady_def ns_alive_def core_still_def core_step_def intro!: quiet_intros)
  then show ?thesis unfolding measure_hz_def
    by (intro quiet_intros) (simp_all add: ns_steady_def ns_alive_def core_still_def core_step_def)
qed

lemma quiet_rmw_ns: "r \<in> {SRSS_PWR_CTL2, SRSS_CLK_IMO_CONFIG} \<Longrightarrow> quiet ns_steady (rmw env r f)"
  by (intro quiet_intros) (auto simp: ns_steady_def ns_alive_def)

lemma quiet_ops:
  "quiet ns_steady (z_pm_op_ping msg)" "quiet ns_steady (z_pm_op_clock_probe env msg)"
  "quiet ns_steady (z_pm_op_deep_sleep_bias env M)"
  unfolding z_pm_op_ping_def z_pm_op_clock_probe_def z_pm_op_deep_sleep_bias_def status_def reply_def psa_write_def
  by (auto simp: ns_steady_def ns_alive_def core_still_def core_step_def
      intro!: quiet_intros quiet_rmw_ns quiet_ns_hz)

lemma quiet_requests:
  "quiet ns_steady (psa_call env (z_pm_service_sfn env M) Z_PM_OP_PING inb n)"
  "quiet ns_steady (psa_call env (z_pm_service_sfn env M) Z_PM_OP_CLOCK_PROBE inb n)"
  "quiet ns_steady (psa_call env (z_pm_service_sfn env M) Z_PM_OP_DEEP_SLEEP_BIAS inb n)"
  by (rule quiet_request; simp add: z_pm_service_sfn_def quiet_ops; simp add: z_pm_ops quiet_ops)+

lemma quiet_ns_probe: "quiet ns_steady (ns_pm_clock_probe env (z_pm_service_sfn env M) stack)"
  unfolding ns_pm_clock_probe_def z_pm_clock_probe_def
  by (auto simp: ns_steady_def intro!: quiet_intros quiet_requests split: option.split)

lemma emits_ns_main: "emits ns_steady (ns_main env (z_pm_service_sfn env M))"
  unfolding ns_main_def ns_pm_init_def ns_pm_current_mode_def z_pm_ping_def z_pm_deep_sleep_bias_def option.case
  by (auto simp: ns_steady_def intro!: emits_intros emits_quiet [OF quiet_requests(1)] emits_quiet [OF quiet_requests(3)]
      emits_mono [OF emits_quiet [OF quiet_pins(4)]] dest: shell_call_ns_steady)

lemma quiet_mcwdt: "quiet ns_steady (boot_mcwdt_reset env M)"
  unfolding boot_mcwdt_reset_def
  by (intro quiet_intros) (simp_all add: ns_steady_def ns_alive_def core_still_def core_step_def)

section \<open>The whole run\<close>

lemma safe_session: "stays ns_safe ns_safe (run_session env M (ns_manager env (z_pm_service_sfn env M) stack) cs)"
proof (rule ns_image.stays_session)
  show "quiet ns_steady (mm_current_mode (ns_manager env (z_pm_service_sfn env M) stack))"
    by (simp add: ns_manager_def ns_pm_current_mode_def quiet_gets)
  show "stays ns_safe ns_safe (mm_switch_to (ns_manager env (z_pm_service_sfn env M) stack) m)" for m
    unfolding stays_def ns_manager_def mode_manager.simps using ns_switch_safe by (metis prod.collapse)
  show "stays ns_safe ns_safe (mm_clock_probe (ns_manager env (z_pm_service_sfn env M) stack))"
    by (simp add: ns_manager_def ns_image.stays_confined confined_quiet quiet_ns_probe)
qed

lemma ns_main_mode:
  assumes "s_current_mode s = PM_MODE_HP" and "at_prompt s"
  shows "s_current_mode (final (ns_main env (z_pm_service_sfn env M)) s) = PM_MODE_HP"
proof -
  have "keeps_view (view_of s) (ns_main env (z_pm_service_sfn env M))"
    by (rule zpm07.main_keeps) (simp add: view_of_def assms(1))
  then have "view_of (final (ns_main env (z_pm_service_sfn env M)) s) = view_of s"
    unfolding keeps_view_def using assms(2) by blast
  then show ?thesis by (simp add: view_of_def assms(1))
qed

text \<open>
  Property C3. From reset the non-secure image of app 07 and the partition it calls keep the core
  clock within its ceiling. Over the boot hook, \<open>main\<close> and any shell session, whatever the partition
  manager, the PDL and the drivers answer (refusals and short reads leave clock and voltage alone),
  every command returns and the mode is HP or LP. Every call is on the list \<open>ns_alive\<close>: no clock is
  set but the divider of the core clock (to 2 or 6), the IHO's stop in deep sleep and the source of
  the backup clock; no supply but the core buck (with the HP or LP profile, and its deep-sleep
  setting), so no LDO, domain or SRAM supply; no register is written but the nine SRAM trims and the
  three listed. As long as the core buck reports success, 400 MHz over the commanded divider is within
  the ceiling of the commanded profile at every call, and at the prompt divider and profile are those
  of the recorded mode.
\<close>

theorem app07_image_safe:
  "let (r, t) = run_state (app07_image env M stack cmds) soc_boot in
   (\<exists>rcs. r = Some rcs \<and> length rcs = length cmds) \<and>
   s_current_mode t \<in> {PM_MODE_HP, PM_MODE_LP} \<and> list_all (ns_alive \<circ> fst) (calls t) \<and>
   (if buck_ok (calls t)
    then core_always core_boot (map fst (calls t)) \<and> core_after core_boot (calls t) = core_of (s_current_mode t)
    else True)"
proof -
  let ?S = "z_pm_service_sfn env M" and ?mgr = "ns_manager env (z_pm_service_sfn env M) stack"
  define s1 where "s1 = final (boot_mcwdt_reset env M) soc_boot"
  have conf: "confined ns_steady (boot_mcwdt_reset env M)" by (rule confined_quiet [OF quiet_mcwdt])
  have "ns_safe soc_boot" by (simp add: ns_safe_def ns_agrees_def soc_boot_def core_boot_def core_of_def)
  then have s1: "ns_safe s1" unfolding s1_def by (rule ns_image.confined_carry [OF conf])
  have hp: "s_current_mode s1 = PM_MODE_HP" "at_prompt s1"
    by (simp_all add: s1_def boot_mcwdt_reset_def soc_boot_def at_prompt_def pin_level_def)
  obtain y u where main: "run_state (ns_main env ?S) s1 = (Some y, u)"
    using zpm07.main_returns [of env env M] unfolding returns_def by (metis not_None_eq prod.collapse)
  have "ns_safe (final (ns_main env ?S) s1)"
    by (rule ns_image.emits_carry [OF emits_ns_main _ s1]) (simp add: hp ns_main_mode)
  then have u: "ns_safe u" by (simp add: main)
  obtain rcs t where run: "run_state (run_session env M ?mgr cmds) u = (Some rcs, t)"
    using returns_ns_session [of env M stack cmds] unfolding returns_def by (metis not_None_eq prod.collapse)
  have "ns_safe t" using safe_session [of env M stack cmds, unfolded stays_def] u run by (metis snd_conv)
  moreover have "run_state (app07_image env M stack cmds) soc_boot = (Some rcs, t)"
    using main run by (simp add: app07_image_def ns_shell_def s1_def [symmetric] split_beta run_obind)
  ultimately show ?thesis
    using session_length [OF run] by (auto simp: ns_safe_def ns_agrees_def)
qed

end
