(* ===== verification/Zpm_Types.thy ===== *)
theory Zpm_Types
  imports Zpm
begin

text \<open>
  The message formats of the secure partition, as a type discipline: the requests the client can
  make, which of them are well typed, and that the two partitions accept exactly those.
\<close>

section \<open>Requests\<close>

datatype request =
  Ping | Layer_b_init | Set_deep_sleep_mode u32 | Switch_active_mode u32 u32 | Clock_probe
| Deep_sleep_bias | Boot_clock_retune

text \<open>A request made through the client; output parameters point to zeroed variables.\<close>

fun send_request :: "soc_env \<Rightarrow> 'z service \<Rightarrow> request \<Rightarrow> ('z, int) sfn" where
  "send_request env svc Ping = obind (z_pm_ping env svc (Some 0)) (\<lambda>p. return (Some (fst p)))"
| "send_request env svc Layer_b_init = z_pm_layer_b_init env svc"
| "send_request env svc (Set_deep_sleep_mode m) = z_pm_set_deep_sleep_mode env svc m"
| "send_request env svc (Switch_active_mode a b) =
     obind (z_pm_switch_active_mode env svc a b (Some 0)) (\<lambda>p. return (Some (fst p)))"
| "send_request env svc Clock_probe =
     obind (z_pm_clock_probe env svc (Some \<lparr>meas_path0 = 0, meas_hf0 = 0, meas_hf10 = 0,
       comp_path0 = 0, comp_hf0 = 0, comp_hf10 = 0\<rparr>)) (\<lambda>p. return (Some (fst p)))"
| "send_request env svc Deep_sleep_bias = z_pm_deep_sleep_bias env svc"
| "send_request env svc Boot_clock_retune = z_pm_boot_clock_retune env svc"

text \<open>The arguments are of their enumerations.\<close>

fun well_typed :: "request \<Rightarrow> bool" where
  "well_typed (Set_deep_sleep_mode m) \<longleftrightarrow> m \<le> 2"
| "well_typed (Switch_active_mode a b) \<longleftrightarrow> a \<le> 2 \<and> b \<le> 2"
| "well_typed _ \<longleftrightarrow> True"

text \<open>The interface of app 02 has the first three requests.\<close>

fun in_app02 :: "request \<Rightarrow> bool" where
  "in_app02 Ping \<longleftrightarrow> True" | "in_app02 Layer_b_init \<longleftrightarrow> True"
| "in_app02 (Set_deep_sleep_mode m) \<longleftrightarrow> True" | "in_app02 _ \<longleftrightarrow> False"

section \<open>Delivery\<close>

text \<open>The framework passed the call on, and every read of the message was complete.\<close>

definition delivered :: "(soc_call \<times> u32) list \<Rightarrow> bool" where
  "delivered h \<longleftrightarrow> list_all (\<lambda>e. case fst e of Psa i m n \<Rightarrow> snd e = 0 | PsaRead n \<Rightarrow> unat (snd e) = n | _ \<Rightarrow> True) h"

lemma delivered_simps [simp]:
  "delivered []" "delivered ((PsaRead n, k) # h) \<longleftrightarrow> unat k = n \<and> delivered h"
  "delivered ((Psa i m n, r) # h) \<longleftrightarrow> r = 0 \<and> delivered h"
  "delivered (h @ h2) \<longleftrightarrow> delivered h \<and> delivered h2"
  by (simp_all add: delivered_def)

text \<open>Nothing but the message was touched.\<close>

definition only_message :: "(soc_call \<times> u32) list \<Rightarrow> bool" where
  "only_message h \<longleftrightarrow> list_all (\<lambda>e. case fst e of Psa i m n \<Rightarrow> True | PsaRead n \<Rightarrow> True | _ \<Rightarrow> False) h"

lemma only_message_simps [simp]:
  "only_message []" "only_message ((PsaRead n, k) # h) \<longleftrightarrow> only_message h"
  "only_message ((Psa i m n, r) # h) \<longleftrightarrow> only_message h"
  by (simp_all add: only_message_def)

definition typed :: "bool \<Rightarrow> int \<Rightarrow> (soc_call \<times> u32) list \<Rightarrow> bool" where
  "typed ok st h \<longleftrightarrow> (if delivered h then (if ok then st \<notin> refusals else st \<in> refusals \<and> only_message h) else True)"

definition checks :: "bool \<Rightarrow> ('z, int \<times> u8 list) sfn \<Rightarrow> bool" where
  "checks ok m \<longleftrightarrow> runs m (\<lambda>y h. \<exists>st w. y = Some (st, w) \<and> typed ok st h)"

named_theorems checks_intros "what the operations do with their messages"

lemma checks_accepts [checks_intros]: "accepts msg m \<Longrightarrow> checks True m"
  unfolding accepts_def checks_def typed_def refusals_def
  by (erule runs_conseq) (auto split: if_splits)

lemma checks_refuse: "st \<in> refusals \<Longrightarrow> checks False (status st)"
  unfolding checks_def by (rule runs_conseq, rule runs_status) (auto simp: typed_def)

lemma checks_read:
  assumes "checks ok (g (take n (msg_in msg)))"
  shows "checks ok (do {
    (k, bs) \<leftarrow> psa_read env msg n;
    if k \<noteq> n then status PSA_ERROR_COMMUNICATION_FAILURE else g bs })" (is "checks ok ?m")
  unfolding checks_def runs_def
proof
  fix s :: "'a soc_scheme"
  let ?r = "env (calls s) (PsaRead n)"
  let ?u = "s\<lparr>calls := calls s @ [(PsaRead n, ?r)]\<rparr>"
  show "\<exists>new. final ?m s = s\<lparr>calls := calls s @ new\<rparr> \<and> (\<exists>st w. result ?m s = Some (st, w) \<and> typed ok st new)"
  proof (cases "unat ?r = n")
    case True
    obtain new st w where "final (g (take n (msg_in msg))) ?u = ?u\<lparr>calls := calls ?u @ new\<rparr>"
      "result (g (take n (msg_in msg))) ?u = Some (st, w)" "typed ok st new"
      using assms unfolding checks_def runs_def by blast
    then show ?thesis using True
      by (intro exI [of _ "(PsaRead n, ?r) # new"]) (simp add: psa_read_def typed_def)
  next
    case False
    then show ?thesis
      by (intro exI [of _ "[(PsaRead n, ?r)]"]) (simp add: psa_read_def status_def typed_def)
  qed
qed

lemma checks_if:
  "(b \<Longrightarrow> checks ok m) \<Longrightarrow> (\<not> b \<Longrightarrow> checks ok n) \<Longrightarrow> checks ok (if b then m else n)"
  by simp

section \<open>The operations\<close>

lemma checks_call:
  assumes "checks ok (svc \<lparr>msg_type = op, out_size = n, msg_in = inb\<rparr>)"
  shows "checks ok (psa_call env svc op inb n)"
  unfolding checks_def runs_def
proof
  fix s :: "'a soc_scheme"
  let ?c = "Psa op (length inb) n"
  let ?r = "env (calls s) ?c" and ?m = "svc \<lparr>msg_type = op, out_size = n, msg_in = inb\<rparr>"
  let ?u = "s\<lparr>calls := calls s @ [(?c, ?r)]\<rparr>"
  obtain new st w where m: "final ?m ?u = ?u\<lparr>calls := calls ?u @ new\<rparr>"
    "result ?m ?u = Some (st, w)" "typed ok st new"
    using assms unfolding checks_def runs_def by blast
  show "\<exists>new. final (psa_call env svc op inb n) s = s\<lparr>calls := calls s @ new\<rparr> \<and>
      (\<exists>st w. result (psa_call env svc op inb n) s = Some (st, w) \<and> typed ok st new)"
  proof (cases "?r = 0")
    case True
    with m show ?thesis
      by (intro exI [of _ "(?c, ?r) # new"]) (simp add: psa_call_def typed_def)
  next
    case False
    then show ?thesis
      by (intro exI [of _ "[(?c, ?r)]"]) (simp add: psa_call_def typed_def)
  qed
qed

lemma checks_ping: "checks True (z_pm_op_ping \<lparr>msg_type = t, out_size = 4, msg_in = i\<rparr>)"
  unfolding z_pm_op_ping_def
  by (simp, rule checks_accepts [of "\<lparr>msg_type = t, out_size = 4, msg_in = i\<rparr>"], intro accepts_intros) simp

lemma checks_layer_b: "checks True (z_pm_op_layer_b_init env M)"
  unfolding z_pm_op_layer_b_init_def by (intro checks_accepts accepts_intros) simp

lemma checks_bias: "checks True (z_pm_op_deep_sleep_bias env M)"
  unfolding z_pm_op_deep_sleep_bias_def by (intro checks_accepts accepts_intros) simp

lemma checks_retune: "checks True (z_pm_op_boot_clock_retune env)"
  unfolding z_pm_op_boot_clock_retune_def by (intro checks_accepts accepts_intros) simp_all

lemma checks_probe: "checks True (z_pm_op_clock_probe env \<lparr>msg_type = t, out_size = 24, msg_in = i\<rparr>)"
  unfolding z_pm_op_clock_probe_def
  by (simp, rule checks_accepts [of "\<lparr>msg_type = t, out_size = 24, msg_in = i\<rparr>"], intro accepts_intros) simp

lemma checks_deep_sleep_mode:
  "checks (m \<le> 2) (z_pm_op_set_deep_sleep_mode env M \<lparr>msg_type = t, out_size = n, msg_in = le32 m\<rparr>)"
  unfolding z_pm_op_set_deep_sleep_mode_def in_size_def
  by (simp del: run_state_if, rule checks_read, cases "m \<le> 2")
    (simp_all add: not_le [symmetric] checks_refuse, intro checks_accepts accepts_intros, simp_all)

lemma checks_switch:
  "checks (a \<le> 2 \<and> b \<le> 2) (z_pm_op_switch_active_mode env \<lparr>msg_type = t, out_size = 4, msg_in = words [a, b]\<rparr>)"
proof -
  let ?msg = "\<lparr>msg_type = t, out_size = 4, msg_in = words [a, b]\<rparr>"
  have b: "word_at (words [a, b]) 4 = b" using word_at_words [of 1 "[a, b]"] by simp
  have ok: "checks True (if a = b then reply ?msg (le32 0) else do {
       rc \<leftarrow> (if b < a then trans_down env a b else trans_up env a b); reply ?msg (le32 (word_of_int rc)) })"
    by (rule checks_accepts [of ?msg], intro accepts_intros) simp_all
  have a: "word_at (words [a, b]) 0 = a" by simp
  have tk: "take 8 (words [a, b]) = words [a, b]" by simp
  have size: "in_size ?msg = 8" by (simp add: in_size_def)
  show ?thesis
  proof (cases "a \<le> 2 \<and> b \<le> 2")
    case True
    then have no: "(2 < a \<or> 2 < b) = False" by (simp add: not_less)
    show ?thesis
      unfolding z_pm_op_switch_active_mode_def size z_pm_modes
      by (simp add: True del: words_simps, intro checks_read) (use ok no in \<open>simp only: tk a b psa_msg.simps if_False\<close>)
  next
    case False
    then have bad: "(a \<le> 2 \<and> b \<le> 2) = False" "2 < a \<or> 2 < b" by (auto simp: not_le)
    then show ?thesis
      unfolding bad(1)
      unfolding z_pm_op_switch_active_mode_def size z_pm_modes
      by (simp del: words_simps, intro checks_read) (simp add: a b checks_refuse del: words_simps)
  qed
qed

section \<open>The requests\<close>

lemma checks_service:
  "checks True (z_pm_service_sfn env M \<lparr>msg_type = 1, out_size = 4, msg_in = i\<rparr>)"
  "checks True (z_pm_service_sfn env M \<lparr>msg_type = 2, out_size = n, msg_in = i\<rparr>)"
  "checks (m \<le> 2) (z_pm_service_sfn env M \<lparr>msg_type = 3, out_size = n, msg_in = le32 m\<rparr>)"
  "checks (a \<le> 2 \<and> b \<le> 2) (z_pm_service_sfn env M \<lparr>msg_type = 4, out_size = 4, msg_in = words [a, b]\<rparr>)"
  "checks True (z_pm_service_sfn env M \<lparr>msg_type = 5, out_size = 24, msg_in = i\<rparr>)"
  "checks True (z_pm_service_sfn env M \<lparr>msg_type = 6, out_size = n, msg_in = i\<rparr>)"
  "checks True (z_pm_service_sfn env M \<lparr>msg_type = 7, out_size = n, msg_in = i\<rparr>)"
  unfolding z_pm_service_sfn_def z_pm_ops
  by (simp_all add: checks_ping checks_layer_b checks_deep_sleep_mode checks_switch checks_probe
      checks_bias checks_retune del: words_simps)

lemma checks_service02:
  "checks True (app02_z_pm_service_sfn env M \<lparr>msg_type = 1, out_size = 4, msg_in = i\<rparr>)"
  "checks True (app02_z_pm_service_sfn env M \<lparr>msg_type = 2, out_size = n, msg_in = i\<rparr>)"
  "checks (m \<le> 2) (app02_z_pm_service_sfn env M \<lparr>msg_type = 3, out_size = n, msg_in = le32 m\<rparr>)"
  "3 < t \<Longrightarrow> checks False (app02_z_pm_service_sfn env M \<lparr>msg_type = t, out_size = n, msg_in = i\<rparr>)"
  unfolding app02_z_pm_service_sfn_def z_pm_ops
  by (simp_all add: checks_ping checks_layer_b checks_deep_sleep_mode checks_refuse)

text \<open>A client function returns the status of its call.\<close>

lemma status_of:
  assumes "checks ok m"
    and eq: "\<And>s. run_state n s = (case run_state m s of (None, t) \<Rightarrow> (None, t) | (Some p, t) \<Rightarrow> (Some (fst p), t))"
  shows "runs n (\<lambda>y h. \<exists>st. y = Some st \<and> typed ok st h)"
  unfolding runs_def
proof
  fix s
  obtain new st w where "final m s = s\<lparr>calls := calls s @ new\<rparr>" "result m s = Some (st, w)" "typed ok st new"
    using assms(1) unfolding checks_def runs_def by blast
  then show "\<exists>new. final n s = s\<lparr>calls := calls s @ new\<rparr> \<and> (\<exists>st. result n s = Some st \<and> typed ok st new)"
    by (cases "run_state m s") (auto simp: eq)
qed

text \<open>Which message each request becomes, and when that message is accepted.\<close>

fun message :: "request \<Rightarrow> psa_msg" where
  "message Ping = \<lparr>msg_type = 1, out_size = 4, msg_in = []\<rparr>"
| "message Layer_b_init = \<lparr>msg_type = 2, out_size = 0, msg_in = []\<rparr>"
| "message (Set_deep_sleep_mode m) = \<lparr>msg_type = 3, out_size = 0, msg_in = le32 m\<rparr>"
| "message (Switch_active_mode a b) = \<lparr>msg_type = 4, out_size = 4, msg_in = words [a, b]\<rparr>"
| "message Clock_probe = \<lparr>msg_type = 5, out_size = 24, msg_in = []\<rparr>"
| "message Deep_sleep_bias = \<lparr>msg_type = 6, out_size = 0, msg_in = []\<rparr>"
| "message Boot_clock_retune = \<lparr>msg_type = 7, out_size = 0, msg_in = []\<rparr>"

lemma send_message:
  "run_state (send_request env svc req) s =
     (case run_state (psa_call env svc (msg_type (message req)) (msg_in (message req)) (out_size (message req))) s of
        (None, t) \<Rightarrow> (None, t) | (Some p, t) \<Rightarrow> (Some (fst p), t))"
  by (cases req)
    (auto simp: z_pm_ping_def z_pm_layer_b_init_def z_pm_set_deep_sleep_mode_def z_pm_switch_active_mode_def
      z_pm_clock_probe_def z_pm_deep_sleep_bias_def z_pm_boot_clock_retune_def z_pm_ops run_obind
      simp del: words_simps split: prod.split option.split)

lemma send_checked:
  assumes "checks ok (svc (message req))"
  shows "runs (send_request env svc req) (\<lambda>y h. \<exists>st. y = Some st \<and> typed ok st h)"
proof -
  have eq: "\<lparr>msg_type = msg_type (message req), out_size = out_size (message req), msg_in = msg_in (message req)\<rparr> = message req"
    by simp
  have "checks ok (psa_call env svc (msg_type (message req)) (msg_in (message req)) (out_size (message req)))"
    by (rule checks_call) (simp only: eq assms)
  then show ?thesis by (rule status_of) (rule send_message)
qed

lemma checks_message:
  "checks (well_typed req) (z_pm_service_sfn env M (message req))"
  "checks (well_typed req \<and> in_app02 req) (app02_z_pm_service_sfn env M (message req))"
  by (cases req; simp add: checks_service checks_service02 del: words_simps)+

section \<open>Properties\<close>

text \<open>
  Property C14. The partitions and their client agree on the message formats. When the framework
  passes a request on and delivers its argument whole, the partition of app 07 refuses it exactly if
  an argument is outside its enumeration, and a refused request has touched nothing but the message;
  the partition of app 02 refuses in addition the four requests it does not have. So no size the
  client sends is ever wrong.
\<close>

theorem requests_well_typed:
  "(\<exists>st h. run_state (send_request env (z_pm_service_sfn env M) req) s = (Some st, s\<lparr>calls := calls s @ h\<rparr>) \<and>
     (if delivered h then (st \<in> refusals) = (\<not> well_typed req) \<and> (if well_typed req then True else only_message h)
      else True)) \<and>
   (\<exists>st h. run_state (send_request env (app02_z_pm_service_sfn env M) req) s = (Some st, s\<lparr>calls := calls s @ h\<rparr>) \<and>
     (if delivered h then (st \<in> refusals) = (\<not> (well_typed req \<and> in_app02 req)) \<and>
        (if well_typed req \<and> in_app02 req then True else only_message h)
      else True))"
proof -
  have "\<exists>st h. run_state m s = (Some st, s\<lparr>calls := calls s @ h\<rparr>) \<and>
     (if delivered h then (st \<in> refusals) = (\<not> ok) \<and> (if ok then True else only_message h) else True)"
    if run: "runs m (\<lambda>y h. \<exists>st. y = Some st \<and> typed ok st h)" for m :: "('a, int) sfn" and ok
  proof -
    obtain h st where "final m s = s\<lparr>calls := calls s @ h\<rparr>" "result m s = Some st" "typed ok st h"
      using run unfolding runs_def by blast
    then show ?thesis
      by (intro exI [of _ st] exI [of _ h]) (auto simp: prod_eq_iff typed_def split: if_splits)
  qed
  note outcome = this
  show ?thesis
    by (rule conjI; rule outcome, rule send_checked, rule checks_message)
qed

end
