(* ===== verification/Pm_Idle.thy ===== *)
theory Pm_Idle
  imports Zpm
begin

text \<open>
  The idle hooks of \<open>apps/02_pse84_tfm_m33_m55_pm/cm33_ns\<close>: \<open>power.c\<close>, \<open>indicator.c\<close> and
  \<open>main.c\<close>, and the CM55 image that apps 02 and 07 park (\<open>cm55/src/main.c\<close>). The kernel calls
  \<open>pm_state_set\<close> from the idle thread with interrupts locked and \<open>pm_state_exit_post_ops\<close> after
  it. The lemmas hold for every partition that keeps the contract of \<open>secure_service\<close>.
\<close>

section \<open>Indicators\<close>

definition led_set :: "soc_env \<Rightarrow> pin \<Rightarrow> int \<Rightarrow> ('z, unit) soc_prog" where
  "led_set env led value = tell env (Gpio (gpio_pin_set_dt led value))"

definition indicator_init :: "soc_env \<Rightarrow> ('z, unit) soc_prog" where
  "indicator_init env = do {
     tell env (Gpio (gpio_pin_configure_dt led_red));
     tell env (Gpio (gpio_pin_configure_dt led_green));
     tell env (Gpio (gpio_pin_configure_dt led_blue))
   }"

definition indicator_active_on :: "soc_env \<Rightarrow> ('z, unit) soc_prog" where
  "indicator_active_on env = led_set env led_green 1"

definition indicator_active_off :: "soc_env \<Rightarrow> ('z, unit) soc_prog" where
  "indicator_active_off env = led_set env led_green 0"

definition indicator_cpu_sleep_on :: "soc_env \<Rightarrow> ('z, unit) soc_prog" where
  "indicator_cpu_sleep_on env = led_set env led_red 1"

definition indicator_cpu_sleep_off :: "soc_env \<Rightarrow> ('z, unit) soc_prog" where
  "indicator_cpu_sleep_off env = led_set env led_red 0"

definition indicator_cpu_deep_sleep_on :: "soc_env \<Rightarrow> ('z, unit) soc_prog" where
  "indicator_cpu_deep_sleep_on env = led_set env led_blue 1"

definition indicator_cpu_deep_sleep_off :: "soc_env \<Rightarrow> ('z, unit) soc_prog" where
  "indicator_cpu_deep_sleep_off env = led_set env led_blue 0"

definition indicator_system_deep_sleep_on :: "soc_env \<Rightarrow> ('z, unit) soc_prog" where
  "indicator_system_deep_sleep_on env = do { led_set env led_red 1; led_set env led_blue 1 }"

definition indicator_system_deep_sleep_off :: "soc_env \<Rightarrow> ('z, unit) soc_prog" where
  "indicator_system_deep_sleep_off env = do { led_set env led_red 0; led_set env led_blue 0 }"

definition indicator_system_ds_ram_on :: "soc_env \<Rightarrow> ('z, unit) soc_prog" where
  "indicator_system_ds_ram_on env = do { led_set env led_green 1; led_set env led_blue 1 }"

definition indicator_system_ds_ram_off :: "soc_env \<Rightarrow> ('z, unit) soc_prog" where
  "indicator_system_ds_ram_off env = do { led_set env led_green 0; led_set env led_blue 0 }"

definition indicator_system_ds_off_latch :: "soc_env \<Rightarrow> ('z, unit) soc_prog" where
  "indicator_system_ds_off_latch env =
     do { led_set env led_red 1; led_set env led_green 1; led_set env led_blue 1 }"

lemmas indicator_defs = indicator_system_ds_ram_on_def indicator_system_ds_ram_off_def
  indicator_system_ds_off_latch_def led_set_def indicator_active_on_def indicator_active_off_def
  indicator_cpu_sleep_on_def indicator_cpu_sleep_off_def indicator_cpu_deep_sleep_on_def
  indicator_cpu_deep_sleep_off_def indicator_system_deep_sleep_on_def indicator_system_deep_sleep_off_def

section \<open>The hooks\<close>

definition pm_irq_prologue :: "soc_env \<Rightarrow> ('z, unit) soc_prog" where
  "pm_irq_prologue env = do { tell env (Cpu disable_irq); tell env (Cpu (irq_unlock 0)) }"

definition enter_cpu_sleep :: "soc_env \<Rightarrow> ('z, unit) soc_prog" where
  "enter_cpu_sleep env = do {
     indicator_cpu_sleep_on env;
     pm_irq_prologue env;
     tell env (Pm Cy_SysPm_CpuEnterSleep);
     indicator_cpu_sleep_off env
   }"

definition enter_cpu_deep_sleep :: "soc_env \<Rightarrow> ('z, unit) soc_prog" where
  "enter_cpu_deep_sleep env = do {
     indicator_cpu_deep_sleep_on env;
     pm_irq_prologue env;
     tell env (Pm Cy_SysPm_CpuEnterDeepSleep);
     indicator_cpu_deep_sleep_off env
   }"

definition enter_system_deep_sleep :: "soc_env \<Rightarrow> 'z service \<Rightarrow> ('z, unit) sfn" where
  "enter_system_deep_sleep env svc = do {
     indicator_system_deep_sleep_on env;
     obind (z_pm_set_deep_sleep_mode env svc 0) (\<lambda>st. do {
       (if st \<noteq> PSA_SUCCESS
        then tell env (Out (printk ''pm: z_pm_set_deep_sleep_mode(DEEPSLEEP) failed: %d'' [SInt st]))
        else return ());
       pm_irq_prologue env;
       tell env (Pm Cy_SysPm_CpuEnterDeepSleep);
       indicator_system_deep_sleep_off env;
       return (Some ())
     })
   }"

datatype pm_state =
  PM_STATE_ACTIVE | PM_STATE_RUNTIME_IDLE | PM_STATE_SUSPEND_TO_IDLE | PM_STATE_STANDBY
| PM_STATE_SUSPEND_TO_RAM | PM_STATE_SUSPEND_TO_DISK | PM_STATE_SOFT_OFF

definition pm_state_set :: "soc_env \<Rightarrow> 'z service \<Rightarrow> pm_state \<Rightarrow> u8 \<Rightarrow> ('z, unit) sfn" where
  "pm_state_set env svc state substate_id =
     (if state = PM_STATE_SUSPEND_TO_IDLE then do { enter_cpu_sleep env; return (Some ()) }
      else if state = PM_STATE_STANDBY then
        (if substate_id = 1 then do { enter_cpu_deep_sleep env; return (Some ()) }
         else if substate_id = 2 then enter_system_deep_sleep env svc
         else do {
           tell env (Out (printk ''pm: STANDBY substate %u not implemented'' [Num (ucast substate_id)]));
           return (Some ())
         })
      else return (Some ()))"

definition pm_state_exit_post_ops :: "soc_env \<Rightarrow> pm_state \<Rightarrow> u8 \<Rightarrow> ('z, unit) soc_prog" where
  "pm_state_exit_post_ops env state substate_id = tell env (Cpu enable_irq)"

definition ns_preempt_mcwdt0_disable :: "soc_env \<Rightarrow> masks \<Rightarrow> ('z, int) soc_prog" where
  "ns_preempt_mcwdt0_disable env M = do {
     tell env (Pm Cy_MCWDT_Unlock);
     tell env (Pm (Cy_MCWDT_Disable (CY_MCWDT_CTRS M) 100));
     tell env (Pm (Cy_MCWDT_ClearInterrupt (CY_MCWDT_CTRS M)));
     tell env (Pm (Cy_MCWDT_SetInterruptMask 0));
     return 0
   }"

definition ns_layer_b_init :: "soc_env \<Rightarrow> 'z service \<Rightarrow> ('z, int) sfn" where
  "ns_layer_b_init env svc =
     obind (z_pm_layer_b_init env svc) (\<lambda>st. do {
       tell env (Out (if st = PSA_SUCCESS then printk ''z_pm layer-B init ok'' []
         else printk ''z_pm layer-B init FAIL: status=%d'' [SInt st]));
       return (Some 0)
     })"

section \<open>The blink loop\<close>

definition BLINK_ON_MS :: u32 where "BLINK_ON_MS = 200"
definition SLEEP_BETWEEN_BLINKS_MS :: u32 where "SLEEP_BETWEEN_BLINKS_MS = 1500"

definition blink :: "soc_env \<Rightarrow> ('z, unit) soc_prog" where
  "blink env = do {
     indicator_active_on env;
     tell env (Cpu (k_busy_wait (BLINK_ON_MS * 1000)));
     indicator_active_off env;
     tell env (Cpu (k_msleep SLEEP_BETWEEN_BLINKS_MS))
   }"

text \<open>\<open>main\<close> never returns; the model runs its loop \<open>n\<close> times.\<close>

definition app02_main :: "soc_env \<Rightarrow> 'z service \<Rightarrow> nat \<Rightarrow> ('z, unit) sfn" where
  "app02_main env svc n = do {
     tell env (Out (printf ''CM33-NS indicator blinky on %s'' []));
     indicator_init env;
     obind (z_pm_ping env svc (Some 0)) (\<lambda>(st, cookie). do {
       tell env (Out (if st = PSA_SUCCESS \<and> cookie = Some Z_PM_PING_COOKIE
         then printf ''z_pm ping ok: cookie=0x%08x'' [Num (the cookie)]
         else printf ''z_pm ping FAIL: status=%d cookie=0x%08x'' [SInt st, Num (the cookie)]));
       for_each [0..<n] (\<lambda>_. blink env);
       return (Some ())
     })
   }"

section \<open>The parked CM55\<close>

definition cm55_arm_deepsleep_mode :: "soc_env \<Rightarrow> ('z, unit) soc_prog" where
  "cm55_arm_deepsleep_mode env = tell env (Pm (Cy_SysPm_SetDeepSleepMode CY_SYSPM_MODE_DEEPSLEEP))"

definition zephyr_quiesce_for_deepsleep :: "soc_env \<Rightarrow> ('z, unit) soc_prog" where
  "zephyr_quiesce_for_deepsleep env = do {
     tell env (Wr SysTick_CTRL 0);
     tell env (Wr SysTick_LOAD 0);
     tell env (Wr SysTick_VAL 0);
     tell env (Cpu disable_irq)
   }"

definition cm55_main :: "soc_env \<Rightarrow> nat \<Rightarrow> ('z, unit) soc_prog" where
  "cm55_main env n = do {
     cm55_arm_deepsleep_mode env;
     zephyr_quiesce_for_deepsleep env;
     for_each [0..<n] (\<lambda>_. tell env (Pm Cy_SysPm_CpuEnterDeepSleep))
   }"

section \<open>One idle entry\<close>

text \<open>An entry as the kernel makes it.\<close>

definition idle_entry :: "soc_env \<Rightarrow> 'z service \<Rightarrow> pm_state \<Rightarrow> u8 \<Rightarrow> ('z, unit) sfn" where
  "idle_entry env svc state substate_id =
     obind (pm_state_set env svc state substate_id) (\<lambda>_. do {
       pm_state_exit_post_ops env state substate_id;
       return (Some ())
     })"

text \<open>The calls that matter to the CPU: its interrupt state, its waits, and the LEDs.\<close>

definition visible :: "soc_call \<Rightarrow> bool" where
  "visible c \<longleftrightarrow> (case c of Cpu x \<Rightarrow> True | Gpio g \<Rightarrow> True | _ \<Rightarrow> waits c)"

definition entry_calls :: "pm_state \<Rightarrow> u8 \<Rightarrow> soc_call list" where
  "entry_calls state sub =
     (if state = PM_STATE_SUSPEND_TO_IDLE then
        [Gpio (gpio_pin_set_dt led_red 1), Cpu disable_irq, Cpu (irq_unlock 0), Pm Cy_SysPm_CpuEnterSleep,
         Gpio (gpio_pin_set_dt led_red 0)]
      else if state = PM_STATE_STANDBY \<and> sub = 1 then
        [Gpio (gpio_pin_set_dt led_blue 1), Cpu disable_irq, Cpu (irq_unlock 0), Pm Cy_SysPm_CpuEnterDeepSleep,
         Gpio (gpio_pin_set_dt led_blue 0)]
      else if state = PM_STATE_STANDBY \<and> sub = 2 then
        [Gpio (gpio_pin_set_dt led_red 1), Gpio (gpio_pin_set_dt led_blue 1), Cpu disable_irq, Cpu (irq_unlock 0),
         Pm Cy_SysPm_CpuEnterDeepSleep, Gpio (gpio_pin_set_dt led_red 0), Gpio (gpio_pin_set_dt led_blue 0)]
      else []) @ [Cpu enable_irq]"

lemma visible_simps [simp]:
  "visible (Cpu x)" "visible (Gpio g)" "\<not> visible (Out y)" "\<not> visible (Psa i m n)"
  "visible (Pm Cy_SysPm_CpuEnterSleep)" "visible (Pm Cy_SysPm_CpuEnterDeepSleep)"
  by (simp_all add: visible_def waits_def)

lemma secure_not_visible: "secure_call c \<Longrightarrow> \<not> visible c"
  by (cases c) (auto simp: visible_def secure_call_def)

lemma secure_filter: "list_all (secure_call \<circ> fst) k \<Longrightarrow> filter visible (map fst k) = []"
  using secure_not_visible by (auto simp: list_all_iff filter_empty_conv)

context secure_service begin

lemma set_mode_runs:
  "runs (z_pm_set_deep_sleep_mode env svc m)
     (\<lambda>y h. \<exists>st k r. y = Some st \<and> h = (Psa 3 4 0, r) # k \<and> list_all (secure_call \<circ> fst) k)"
  unfolding z_pm_set_deep_sleep_mode_def
  by (rule runs_conseq, (rule runs_obind call_within runs_split runs_return)+)
    (auto simp: Z_PM_OP_SET_DEEP_SLEEP_MODE_def)

lemma system_deep_sleep_runs:
  "runs (enter_system_deep_sleep env svc) (\<lambda>y h. y = Some () \<and> filter visible (map fst h) =
     [Gpio (gpio_pin_set_dt led_red 1), Gpio (gpio_pin_set_dt led_blue 1), Cpu disable_irq, Cpu (irq_unlock 0),
      Pm Cy_SysPm_CpuEnterDeepSleep, Gpio (gpio_pin_set_dt led_red 0), Gpio (gpio_pin_set_dt led_blue 0)])"
  unfolding enter_system_deep_sleep_def indicator_defs pm_irq_prologue_def
  by (rule runs_conseq, (rule runs_intros set_mode_runs)+) (auto simp: secure_filter split: if_splits)

lemma idle_entry_runs:
  "runs (idle_entry env svc state sub) (\<lambda>y h. y = Some () \<and> filter visible (map fst h) = entry_calls state sub)"
proof -
  have "runs (pm_state_set env svc state sub) (\<lambda>y h. y = Some () \<and>
      filter visible (map fst h) @ [Cpu enable_irq] = entry_calls state sub)"
    unfolding pm_state_set_def enter_cpu_sleep_def enter_cpu_deep_sleep_def indicator_defs pm_irq_prologue_def
    by (rule runs_conseq, (rule runs_intros system_deep_sleep_runs)+) (auto simp: entry_calls_def split: if_splits)
  then show ?thesis
    unfolding idle_entry_def pm_state_exit_post_ops_def
    by - (rule runs_conseq, (rule runs_intros | assumption)+, auto)
qed

end

text \<open>Entries one after the other, as the kernel makes them.\<close>

primrec idle_entries :: "soc_env \<Rightarrow> 'z service \<Rightarrow> (pm_state \<times> u8) list \<Rightarrow> ('z, unit) sfn" where
  "idle_entries env svc [] = return (Some ())"
| "idle_entries env svc (e # es) = obind (idle_entry env svc (fst e) (snd e)) (\<lambda>_. idle_entries env svc es)"

section \<open>Properties\<close>

text \<open>
  Property C10. An idle entry waits only when it can be woken, and gives everything back. Over any
  sequence of states and substates the kernel may choose, and whatever the secure side answers,
  every hook returns; each supported state waits exactly once, after PRIMASK was set and BASEPRI
  released, with its LEDs on; afterwards its LEDs are off and interrupts are enabled. An unsupported
  state or substate does not wait and only enables interrupts, and a failing secure request does not
  keep the CPU from its deep sleep. Nothing else touches pins, interrupts or waits.
\<close>

theorem idle_entries_exact:
  "\<exists>h. run_state (idle_entries env (app02_z_pm_service_sfn env M) es) s = (Some (), s\<lparr>calls := calls s @ h\<rparr>) \<and>
     filter visible (map fst h) = concat (map (\<lambda>e. entry_calls (fst e) (snd e)) es)"
proof -
  have "runs (idle_entries env (app02_z_pm_service_sfn env M) es) (\<lambda>y h. y = Some () \<and>
     filter visible (map fst h) = concat (map (\<lambda>e. entry_calls (fst e) (snd e)) es))"
  proof (induction es)
    case Nil
    show ?case unfolding idle_entries.simps by (rule runs_conseq, rule runs_return) simp
  next
    case (Cons e es)
    show ?case unfolding idle_entries.simps
      by (rule runs_conseq, rule runs_obind [OF zpm02.idle_entry_runs Cons.IH]) auto
  qed
  then show ?thesis unfolding runs_def by (auto simp: prod_eq_iff)
qed

end
