(* ===== verification/Blinky.thy ===== *)
theory Blinky
  imports Cm55_Boot
begin

text \<open>
  The blink applications: apps 00, 01, 01a and 04. Their endless loops run for \<open>n\<close> rounds.
  \<open>led0\<close> is the red LED, \<open>led1\<close> the green one. Their CM55 images differ in one constant.
\<close>

section \<open>App 00\<close>

definition SLEEP_TIME_MS :: u32 where "SLEEP_TIME_MS = 1000"

primrec hello_loop :: "soc_env \<Rightarrow> nat \<Rightarrow> bool \<Rightarrow> ('z, unit) soc_prog" where
  "hello_loop env 0 led_state = return ()"
| "hello_loop env (Suc n) led_state = do {
     ret \<leftarrow> ask env (Gpio (gpio_pin_toggle_dt led_red));
     if sint ret < 0 then return ()
     else do {
       tell env (Out (printf ''LED state: %s'' [Str (if \<not> led_state then ''ON'' else ''OFF'')]));
       tell env (Cpu (k_msleep SLEEP_TIME_MS));
       hello_loop env n (\<not> led_state)
     }
   }"

definition hello_main :: "soc_env \<Rightarrow> nat \<Rightarrow> ('z, int) soc_prog" where
  "hello_main env n = do {
     tell env (Out (printf ''Hello World! %s'' []));
     r \<leftarrow> ask env (Gpio (gpio_is_ready_dt led_red));
     if r = 0 then return 0
     else do {
       ret \<leftarrow> ask env (Gpio (gpio_pin_configure_dt led_red));
       if sint ret < 0 then return 0
       else do { hello_loop env n True; return 0 }
     }
   }"

section \<open>Apps 01, 01a and 04\<close>

definition blink_rounds :: "soc_env \<Rightarrow> pin \<Rightarrow> u32 \<Rightarrow> nat \<Rightarrow> ('z, unit) soc_prog" where
  "blink_rounds env led period n = for_each [0..<n] (\<lambda>_. do {
     tell env (Gpio (gpio_pin_toggle_dt led));
     tell env (Cpu (k_msleep period))
   })"

definition app01_ns_main :: "soc_env \<Rightarrow> nat \<Rightarrow> ('z, int) soc_prog" where
  "app01_ns_main env n = do {
     tell env (Out (printf ''CM33-NS blinky on %s'' []));
     r \<leftarrow> ask env (Gpio (gpio_is_ready_dt led_red));
     if r = 0 then do { tell env (Out (printf ''CM33-NS: led0 not ready'' [])); return 0 }
     else do {
       c \<leftarrow> ask env (Gpio (gpio_pin_configure_dt led_red));
       if sint c < 0 then do { tell env (Out (printf ''CM33-NS: failed to configure led0'' [])); return 0 }
       else do { blink_rounds env led_red 100 n; return 0 }
     }
   }"

definition app01_cm55_main :: "soc_env \<Rightarrow> nat \<Rightarrow> ('z, int) soc_prog" where
  "app01_cm55_main env n = do {
     tell env (Out (printf ''CM55 blinky on %s'' []));
     r \<leftarrow> ask env (Gpio (gpio_is_ready_dt led_green));
     if r = 0 then do { tell env (Out (printf ''CM55: led1 not ready'' [])); return 0 }
     else do {
       c \<leftarrow> ask env (Gpio (gpio_pin_configure_dt led_green));
       if sint c < 0 then do { tell env (Out (printf ''CM55: failed to configure led1'' [])); return 0 }
       else do { blink_rounds env led_green 100 n; return 0 }
     }
   }"

definition app01a_startup :: "soc_env \<Rightarrow> u32 \<Rightarrow> ('z, unit) soc_prog" where
  "app01a_startup env cm55_start_address = do {
     tell env (Cpu SysCtrlBlk_Setup);
     tell env (Cpu NVIC_NS_Setup);
     tell env (Cpu initFPU);
     tell env (Cpu enable_irq);
     tell env (Pm Cy_System_EnablePD1);
     tell env (Pm (Cy_SysClk_PeriGroupSlaveInit CY_MMIO_CM55_TCM_512K));
     tell env (Pm (Cy_SysClk_PeriGroupSlaveInit CY_MMIO_SMIF0));
     tell env (Pm cy_mpc_init);
     tell env (Pm cy_pd_pdcm_clear_dependency_APPCPUSS_SYSCPU);
     tell env (Pm cy_pd_pdcm_clear_dependency_APPCPU_SYSCPU);
     tell env (Pm (Cy_SysEnableCM55 cm55_start_address CM55_BOOT_WAIT_TIME_USEC));
     tell env (Pm (Cy_SysPm_SetDeepSleepMode CY_SYSPM_MODE_DEEPSLEEP));
     tell env (Pm (Cy_SysPm_SetSOCMEMDeepSleepMode CY_SYSPM_MODE_DEEPSLEEP));
     tell env (Pm cy_ppc0_init);
     tell env (Pm cy_ppc1_init)
   }"

definition app01a_main :: "soc_env \<Rightarrow> u32 \<Rightarrow> nat \<Rightarrow> ('z, int) soc_prog" where
  "app01a_main env cm55_start_address n = do {
     app01a_startup env cm55_start_address;
     r \<leftarrow> ask env (Gpio (gpio_is_ready_dt led_red));
     if r = 0 then return 0
     else do {
       c \<leftarrow> ask env (Gpio (gpio_pin_configure_dt led_red));
       if sint c < 0 then return 0 else do { blink_rounds env led_red 500 n; return 0 }
     }
   }"

definition cmd_led_on :: "soc_env \<Rightarrow> ('z, int) soc_prog" where
  "cmd_led_on env = do {
     tell env (Gpio (gpio_pin_set_dt led_red 1));
     tell env (Out (shell_print ''led: on'' []));
     return 0
   }"

definition cmd_led_off :: "soc_env \<Rightarrow> ('z, int) soc_prog" where
  "cmd_led_off env = do {
     tell env (Gpio (gpio_pin_set_dt led_red 0));
     tell env (Out (shell_print ''led: off'' []));
     return 0
   }"

definition app04_main :: "soc_env \<Rightarrow> ('z, int) soc_prog" where
  "app04_main env = do {
     tell env (Out (printf ''CM33-NS shell-blinky on %s'' []));
     r \<leftarrow> ask env (Gpio (gpio_is_ready_dt led_red));
     if r = 0 then do { tell env (Out (printf ''CM33-NS: led0 not ready'' [])); return 0 }
     else do {
       c \<leftarrow> ask env (Gpio (gpio_pin_configure_dt led_red));
       if sint c < 0 then do { tell env (Out (printf ''CM33-NS: failed to configure led0'' [])); return 0 }
       else return 0
     }
   }"

section \<open>What app 00 says about its LED\<close>

text \<open>
  The LED starts lit (\<open>GPIO_OUTPUT_ACTIVE\<close>) and a toggle that succeeds turns it over. Every line
  must name the state the LED is in.
\<close>

fun tells_truth :: "bool \<Rightarrow> (soc_call \<times> u32) list \<Rightarrow> bool" where
  "tells_truth lit [] \<longleftrightarrow> True"
| "tells_truth lit (e # h) \<longleftrightarrow>
     (\<forall>x. fst e = Out (printf ''LED state: %s'' [Str x]) \<longrightarrow> x = (if lit then ''ON'' else ''OFF'')) \<and>
     tells_truth (if fst e = Gpio (gpio_pin_toggle_dt led_red) \<and> 0 \<le> sint (snd e) then \<not> lit else lit) h"

lemma hello_loop_runs:
  "runs (hello_loop env n lit) (\<lambda>y h. tells_truth lit h \<and>
     length (filter (\<lambda>e. fst e = Cpu (k_msleep SLEEP_TIME_MS)) h) \<le> n)"
proof (induction n arbitrary: lit)
  case 0
  show ?case unfolding hello_loop.simps by (rule runs_conseq, rule runs_return) simp
next
  case (Suc n)
  show ?case unfolding hello_loop.simps
    by (rule runs_conseq, (rule runs_intros Suc.IH)+) (auto split: if_splits)
qed

lemma hello_tells_truth:
  "\<exists>h. final (hello_main env n) s = s\<lparr>calls := calls s @ h\<rparr> \<and> result (hello_main env n) s = 0 \<and> tells_truth True h"
proof -
  have "runs (hello_main env n) (\<lambda>y h. y = 0 \<and> tells_truth True h)"
    unfolding hello_main_def
    by (rule runs_conseq, (rule runs_intros hello_loop_runs)+) (auto split: if_splits)
  then show ?thesis unfolding runs_def by blast
qed

end
