(* ===== verification/Bt_Dis.thy ===== *)
theory Bt_Dis
  imports Soc
begin

text \<open>
  \<open>apps/03_pse84_ai_m33_peripheral_dis/src/main.c\<close>: a peripheral that serves the Device Information
  Service. The Bluetooth host and the settings store are calls; the configuration is that of the
  \<open>prj.conf\<close> of the application, which sets all six identity strings.
\<close>

datatype ad_type = BT_DATA_FLAGS | BT_DATA_UUID16_ALL | BT_DATA_NAME_COMPLETE

datatype ad_value = BT_LE_AD_GENERAL_NO_BREDR | BT_UUID_DIS_VAL | Ad_name string

datatype bt_call =
  bt_enable | settings_load
| settings_runtime_set string string nat
| bt_le_adv_start "(ad_type \<times> ad_value) list" "(ad_type \<times> ad_value) list"
| Bt_print string "parg list"

type_synonym bt_env = "(bt_call, int) env"
type_synonym 'a bt_prog = "((bt_call, int) io, 'a) state"

definition ad :: "(ad_type \<times> ad_value) list" where
  "ad = [(BT_DATA_FLAGS, BT_LE_AD_GENERAL_NO_BREDR), (BT_DATA_UUID16_ALL, BT_UUID_DIS_VAL)]"

definition sd :: "(ad_type \<times> ad_value) list" where
  "sd = [(BT_DATA_NAME_COMPLETE, Ad_name ''DIS peripheral'')]"

definition connected :: "bt_env \<Rightarrow> (u8 \<Rightarrow> string) \<Rightarrow> u8 \<Rightarrow> unit bt_prog" where
  "connected env bt_hci_err_to_str err =
     tell env (if err \<noteq> 0
       then Bt_print ''Connection failed, err 0x%02x %s'' [Num (ucast err), Str (bt_hci_err_to_str err)]
       else Bt_print ''Connected'' [])"

definition disconnected :: "bt_env \<Rightarrow> (u8 \<Rightarrow> string) \<Rightarrow> u8 \<Rightarrow> unit bt_prog" where
  "disconnected env bt_hci_err_to_str reason =
     tell env (Bt_print ''Disconnected, reason 0x%02x %s'' [Num (ucast reason), Str (bt_hci_err_to_str reason)])"

text \<open>A string is stored with its terminator, so with \<open>sizeof\<close> bytes.\<close>

definition set_string :: "bt_env \<Rightarrow> string \<times> string \<Rightarrow> unit bt_prog" where
  "set_string env p = tell env (settings_runtime_set (fst p) (snd p) (Suc (length (snd p))))"

definition identity :: "(string \<times> string) list" where
  "identity =
     [(''bt/dis/model'', ''Zephyr Model''), (''bt/dis/manuf'', ''Zephyr Manufacturer''),
      (''bt/dis/serial'', ''Zephyr Serial''), (''bt/dis/sw'', ''Zephyr Software''),
      (''bt/dis/fw'', ''Zephyr Firmware''), (''bt/dis/hw'', ''Zephyr Hardware'')]"

definition settings_runtime_load :: "bt_env \<Rightarrow> int bt_prog" where
  "settings_runtime_load env = do { for_each identity (set_string env); return 0 }"

definition dis_main :: "bt_env \<Rightarrow> int bt_prog" where
  "dis_main env = do {
     tell env (Bt_print ''main: calling bt_enable'' []);
     err \<leftarrow> ask env bt_enable;
     tell env (Bt_print ''main: bt_enable returned %d'' [SInt err]);
     if err \<noteq> 0 then do {
       tell env (Bt_print ''Bluetooth init failed (err %d)'' [SInt err]);
       return 0
     }
     else do {
       tell env settings_load;
       settings_runtime_load env;
       tell env (Bt_print ''Bluetooth initialized'' []);
       err2 \<leftarrow> ask env (bt_le_adv_start ad sd);
       tell env (if err2 \<noteq> 0 then Bt_print ''Advertising failed to start (err %d)'' [SInt err2]
         else Bt_print ''Advertising successfully started'' []);
       return 0
     }
   }"

section \<open>What the radio sees\<close>

text \<open>A call, as a step of the state; the calls other than prints.\<close>

definition did :: "bt_env \<Rightarrow> bt_call \<Rightarrow> (bt_call, int) io \<Rightarrow> (bt_call, int) io" where
  "did env c s = s\<lparr>calls := calls s @ [(c, env (calls s) c)]\<rparr>"

lemma did_run:
  "run_state (ask env c) s = (env (calls s) c, did env c s)" "run_state (tell env c) s = ((), did env c s)"
  by (simp_all add: did_def)

definition acts :: "(bt_call, int) io \<Rightarrow> bt_call list" where
  "acts s = filter (\<lambda>c. \<forall>f as. c \<noteq> Bt_print f as) (map fst (calls s))"

lemma acts_did [simp]: "acts (did env c s) = acts s @ (if \<forall>f as. c \<noteq> Bt_print f as then [c] else [])"
  by (simp add: acts_def did_def)

text \<open>
  The device is advertised only when the host came up, once, and after the stored identity has been
  loaded and then overridden by the six strings of the application.
\<close>

lemma dis_main_acts:
  "\<exists>up. acts (final (dis_main env) s) = acts s @ bt_enable #
     (if up then settings_load # map (\<lambda>p. settings_runtime_set (fst p) (snd p) (Suc (length (snd p)))) identity @
        [bt_le_adv_start ad sd] else []) \<and>
     (\<exists>h. up \<longleftrightarrow> env h bt_enable = 0)"
proof -
  let ?u = "did env (Bt_print ''main: calling bt_enable'' []) s"
  show ?thesis
    by (intro exI [of _ "env (calls ?u) bt_enable = 0"] conjI)
      (auto simp: dis_main_def settings_runtime_load_def set_string_def identity_def did_run
        simp del: run_state_ask run_state_tell)
qed

end
