(* ===== verification/Bgt_Spi.thy ===== *)
theory Bgt_Spi
  imports Prelude
begin

text \<open>
  The wire formats of the BGT60TR13C radar driver (\<open>modules/bgt60tr13c\<close>, \<open>bgt60tr13c.h\<close> and the
  pure parts of \<open>bgt60tr13c.c\<close>): the 32-bit register words, sent high byte first, the burst
  header, the 12-bit FIFO samples packed two in three bytes, and the LFSR test sequence. The
  lemmas are the round trips of these formats.
\<close>

section \<open>Constants of the register map\<close>

definition BGT60TR13C_REG_MAIN :: u8 where "BGT60TR13C_REG_MAIN = 0x00"
definition BGT60TR13C_REG_CHIP_ID :: u8 where "BGT60TR13C_REG_CHIP_ID = 0x02"
definition BGT60TR13C_REG_SFCTL :: u8 where "BGT60TR13C_REG_SFCTL = 0x06"
definition BGT60TR13C_REG_FSTAT :: u8 where "BGT60TR13C_REG_FSTAT = 0x5F"
definition BGT60TR13C_REG_FIFO :: u8 where "BGT60TR13C_REG_FIFO = 0x60"

definition BGT60TR13C_SPI_WR_BIT :: u32 where "BGT60TR13C_SPI_WR_BIT = 0x01000000"
definition BGT60TR13C_SPI_ADDR_POS :: nat where "BGT60TR13C_SPI_ADDR_POS = 25"
definition BGT60TR13C_SPI_ADDR_MSK :: u32 where "BGT60TR13C_SPI_ADDR_MSK = 0xFE000000"
definition BGT60TR13C_SPI_DATA_MSK :: u32 where "BGT60TR13C_SPI_DATA_MSK = 0x00FFFFFF"

definition BGT60TR13C_MAIN_FRAME_START :: u32 where "BGT60TR13C_MAIN_FRAME_START = 1"
definition BGT60TR13C_RESET_SW :: u32 where "BGT60TR13C_RESET_SW = 2"
definition BGT60TR13C_RESET_FSM :: u32 where "BGT60TR13C_RESET_FSM = 4"
definition BGT60TR13C_RESET_FIFO :: u32 where "BGT60TR13C_RESET_FIFO = 8"
definition BGT60TR13C_CHIP_ID_VALUE :: u32 where "BGT60TR13C_CHIP_ID_VALUE = 0x000303"

definition BGT60TR13C_SFCTL_FIFO_CREF_MSK :: u32 where "BGT60TR13C_SFCTL_FIFO_CREF_MSK = 0x001FFF"
definition BGT60TR13C_SFCTL_MISO_HS_MSK :: u32 where "BGT60TR13C_SFCTL_MISO_HS_MSK = 0x10000"
definition BGT60TR13C_SFCTL_LFSR_EN_MSK :: u32 where "BGT60TR13C_SFCTL_LFSR_EN_MSK = 0x20000"

definition BGT60TR13C_GSR0_FOU_ERR_MSK :: u8 where "BGT60TR13C_GSR0_FOU_ERR_MSK = 0x01"
definition BGT60TR13C_GSR0_SPI_BURST_ERR_MSK :: u8 where "BGT60TR13C_GSR0_SPI_BURST_ERR_MSK = 0x04"
definition BGT60TR13C_GSR0_CLK_NUM_ERR_MSK :: u8 where "BGT60TR13C_GSR0_CLK_NUM_ERR_MSK = 0x08"

definition BGT60TR13C_SPI_BURST_CMD :: u32 where "BGT60TR13C_SPI_BURST_CMD = 0xFF000000"
definition BGT60TR13C_SPI_BURST_SADR_POS :: nat where "BGT60TR13C_SPI_BURST_SADR_POS = 17"
definition BGT60TR13C_FIFO_SIZE :: u32 where "BGT60TR13C_FIFO_SIZE = 8192"
definition BGT60TR13C_LFSR_INITIAL_WORD :: u16 where "BGT60TR13C_LFSR_INITIAL_WORD = 1"

section \<open>Register words\<close>

definition addr_word :: "u8 \<Rightarrow> u32" where
  "addr_word reg = push_bit BGT60TR13C_SPI_ADDR_POS (ucast reg) AND BGT60TR13C_SPI_ADDR_MSK"

definition write_word :: "u8 \<Rightarrow> u32 \<Rightarrow> u32" where
  "write_word reg val =
     (addr_word reg OR BGT60TR13C_SPI_WR_BIT) OR (val AND BGT60TR13C_SPI_DATA_MSK)"

text \<open>\<open>sys_cpu_to_be32\<close> and \<open>memcpy\<close> into the buffer, and back.\<close>

definition to_wire :: "u32 \<Rightarrow> u8 list" where
  "to_wire word = bytes_le 4 (bswap32 word)"

definition from_wire :: "u8 list \<Rightarrow> u32" where
  "from_wire rx = bswap32 (word_le rx)"

definition burst_header :: u32 where
  "burst_header = BGT60TR13C_SPI_BURST_CMD OR
     push_bit BGT60TR13C_SPI_BURST_SADR_POS (ucast BGT60TR13C_REG_FIFO)"

text \<open>What the sensor takes out of a word.\<close>

definition word_addr :: "u32 \<Rightarrow> u8" where
  "word_addr w = ucast (drop_bit 25 w)"

definition word_data :: "u32 \<Rightarrow> u32" where
  "word_data w = take_bit 24 w"

lemma from_to_wire [simp]: "from_wire (to_wire w) = w"
  by (simp add: from_wire_def to_wire_def word_le_bytes_le)

lemma length_to_wire [simp]: "length (to_wire w) = 4"
  by (simp add: to_wire_def)

text \<open>The masks, bit by bit.\<close>

lemma data_msk: "BGT60TR13C_SPI_DATA_MSK = mask 24"
  by (simp add: BGT60TR13C_SPI_DATA_MSK_def mask_eq_exp_minus_1)

lemma bit_addr_msk [simp]: "bit BGT60TR13C_SPI_ADDR_MSK n \<longleftrightarrow> 25 \<le> n \<and> n < 32"
  using bit_block [of 25 7 n, where 'a = 32]
  by (simp add: BGT60TR13C_SPI_ADDR_MSK_def mask_eq_exp_minus_1)

lemma bit_wr_bit [simp]: "bit BGT60TR13C_SPI_WR_BIT n \<longleftrightarrow> n = 24"
  using bit_single [of 24 n, where 'a = 32] by (simp add: BGT60TR13C_SPI_WR_BIT_def)

lemma cref_msk: "BGT60TR13C_SFCTL_FIFO_CREF_MSK = mask 13"
  by (simp add: BGT60TR13C_SFCTL_FIFO_CREF_MSK_def mask_eq_exp_minus_1)

lemma bit_miso_msk [simp]: "bit BGT60TR13C_SFCTL_MISO_HS_MSK n \<longleftrightarrow> n = 16"
  using bit_single [of 16 n, where 'a = 32] by (simp add: BGT60TR13C_SFCTL_MISO_HS_MSK_def)

lemma bit_lfsr_msk [simp]: "bit BGT60TR13C_SFCTL_LFSR_EN_MSK n \<longleftrightarrow> n = 17"
  using bit_single [of 17 n, where 'a = 32] by (simp add: BGT60TR13C_SFCTL_LFSR_EN_MSK_def)

lemma bit_write_word:
  "bit (write_word reg val) n \<longleftrightarrow>
     (if n < 24 then bit val n else if n = 24 then True else n < 32 \<and> bit reg (n - 25))"
  by (auto simp: write_word_def addr_word_def data_msk BGT60TR13C_SPI_ADDR_POS_def
      bit_simps dest: bit_imp_le_length)

lemma write_word_addr: "word_addr (write_word reg val) = take_bit 7 reg"
  by (rule bit_word_eqI) (auto simp: word_addr_def bit_write_word bit_simps)

lemma write_word_data: "word_data (write_word reg val) = take_bit 24 val"
  by (rule bit_word_eqI) (auto simp: word_data_def bit_write_word bit_simps)

lemma write_word_is_write: "bit (write_word reg val) 24"
  by (simp add: bit_write_word)

lemma bit_addr_word: "bit (addr_word reg) n \<longleftrightarrow> 25 \<le> n \<and> n < 32 \<and> bit reg (n - 25)"
  by (auto simp: addr_word_def BGT60TR13C_SPI_ADDR_POS_def bit_simps dest: bit_imp_le_length)

lemma addr_word_addr: "word_addr (addr_word reg) = take_bit 7 reg"
  by (rule bit_word_eqI) (auto simp: word_addr_def bit_addr_word bit_simps)

lemma addr_word_is_read: "\<not> bit (addr_word reg) 24"
  by (simp add: bit_addr_word)

section \<open>FIFO samples\<close>

text \<open>The unpacking loop: three bytes to two 12-bit samples.\<close>

definition sample0 :: "u8 \<Rightarrow> u8 \<Rightarrow> u16" where
  "sample0 b0 b1 = push_bit 4 (ucast b0) OR ucast (drop_bit 4 b1)"

definition sample1 :: "u8 \<Rightarrow> u8 \<Rightarrow> u16" where
  "sample1 b1 b2 = push_bit 8 (ucast (b1 AND 0x0F)) OR ucast b2"

fun unpack_fifo :: "u8 list \<Rightarrow> u16 list" where
  "unpack_fifo (b0 # b1 # b2 # raw) = sample0 b0 b1 # sample1 b1 b2 # unpack_fifo raw"
| "unpack_fifo raw = []"

text \<open>The layout of the FIFO word in the comment of the code.\<close>

definition pack_pair :: "u16 \<Rightarrow> u16 \<Rightarrow> u8 list" where
  "pack_pair s0 s1 =
     [ucast (drop_bit 4 s0),
      ucast (push_bit 4 (take_bit 4 s0) OR take_bit 4 (drop_bit 8 s1)),
      ucast s1]"

fun pack_fifo :: "u16 list \<Rightarrow> u8 list" where
  "pack_fifo (s0 # s1 # ss) = pack_pair s0 s1 @ pack_fifo ss"
| "pack_fifo ss = []"

lemma unpack_pack_pair:
  "unpack_fifo (pack_pair s0 s1 @ raw) = take_bit 12 s0 # take_bit 12 s1 # unpack_fifo raw"
proof -
  have m: "(0x0F :: u8) = mask 4" by (simp add: mask_eq_exp_minus_1)
  have "sample0 (ucast (drop_bit 4 s0)) (ucast (push_bit 4 (take_bit 4 s0) OR take_bit 4 (drop_bit 8 s1))) =
      take_bit 12 s0"
    by (rule bit_word_eqI) (auto simp: sample0_def bit_simps)
  moreover have "sample1 (ucast (push_bit 4 (take_bit 4 s0) OR take_bit 4 (drop_bit 8 s1))) (ucast s1) =
      take_bit 12 s1"
    by (rule bit_word_eqI) (auto simp: sample1_def m bit_simps)
  ultimately show ?thesis by (simp add: pack_pair_def)
qed

lemma unpack_pack: "even (length ss) \<Longrightarrow> unpack_fifo (pack_fifo ss) = map (take_bit 12) ss"
  by (induction ss rule: pack_fifo.induct) (simp_all add: unpack_pack_pair)

lemma length_pack: "even (length ss) \<Longrightarrow> length (pack_fifo ss) = length ss div 2 * 3"
  by (induction ss rule: pack_fifo.induct) (simp_all add: pack_pair_def)

lemma length_unpack: "length (unpack_fifo raw) = length raw div 3 * 2"
  by (induction raw rule: unpack_fifo.induct) (simp_all add: div_add_self1)

lemma sample_range: "unat (sample0 b0 b1) < 4096" "unat (sample1 b1 b2) < 4096"
proof -
  have m: "(0x0F :: u8) = mask 4" by (simp add: mask_eq_exp_minus_1)
  have "sample0 b0 b1 = take_bit 12 (sample0 b0 b1)"
    by (rule bit_word_eqI) (auto simp: sample0_def bit_simps dest: bit_imp_le_length)
  then have "unat (sample0 b0 b1) = unat (sample0 b0 b1) mod 2 ^ 12"
    using unat_take_bit_mod [of 12 "sample0 b0 b1"] by simp
  then show "unat (sample0 b0 b1) < 4096" by simp
  have "sample1 b1 b2 = take_bit 12 (sample1 b1 b2)"
    by (rule bit_word_eqI) (auto simp: sample1_def m bit_simps dest: bit_imp_le_length)
  then have "unat (sample1 b1 b2) = unat (sample1 b1 b2) mod 2 ^ 12"
    using unat_take_bit_mod [of 12 "sample1 b1 b2"] by simp
  then show "unat (sample1 b1 b2) < 4096" by simp
qed

lemma unpack_range: "list_all (\<lambda>s. unat s < 4096) (unpack_fifo raw)"
  by (induction raw rule: unpack_fifo.induct) (simp_all add: sample_range)

section \<open>The LFSR test sequence\<close>

text \<open>C promotes the operands to \<open>int\<close>; the result is cut to 16 bits.\<close>

definition bgt60tr13c_next_test_word :: "u16 \<Rightarrow> u16" where
  "bgt60tr13c_next_test_word cur =
     drop_bit 1 cur OR
     ucast ((push_bit 11 (ucast cur) XOR push_bit 10 (ucast cur) XOR push_bit 9 (ucast cur) XOR
        push_bit 3 (ucast cur :: u32)) AND 0x0800)"

lemma bit_next_test_word:
  "bit (bgt60tr13c_next_test_word w) n \<longleftrightarrow>
     bit w (Suc n) \<or> n = 11 \<and> (((bit w 0 \<noteq> bit w 1) \<noteq> bit w 2) \<noteq> bit w 8)"
proof -
  have m: "bit (0x0800 :: u32) n \<longleftrightarrow> n = 11"
    using bit_single [of 11 n, where 'a = 32] by simp
  show ?thesis
  proof (cases "n = 11")
    case True
    then show ?thesis
      by (cases "bit w 0"; cases "bit w 1"; cases "bit w 2"; cases "bit w 8")
        (simp_all add: bgt60tr13c_next_test_word_def m bit_simps)
  next
    case False
    then have m0: "\<not> bit (0x0800 :: u32) n" using m by blast
    have "bit (bgt60tr13c_next_test_word w) n \<longleftrightarrow> bit w (Suc n)"
      using m0
      by (auto simp: bgt60tr13c_next_test_word_def bit_or_iff bit_and_iff bit_unsigned_iff
          bit_drop_bit_eq)
    with False show ?thesis by simp
  qed
qed

text \<open>The word before, for a 12-bit word: bit 0 is the parity the tap bits leave.\<close>

definition prev_test_word :: "u16 \<Rightarrow> u16" where
  "prev_test_word w =
     push_bit 1 (take_bit 11 w) OR
     of_bool (((bit w 11 \<noteq> bit w 0) \<noteq> bit w 1) \<noteq> bit w 7)"

lemma bit_prev_test_word:
  "bit (prev_test_word w) n \<longleftrightarrow>
     (if n = 0 then ((bit w 11 \<noteq> bit w 0) \<noteq> bit w 1) \<noteq> bit w 7 else n < 12 \<and> bit w (n - 1))"
proof -
  have "bit (push_bit 1 (take_bit 11 w)) n \<longleftrightarrow> 1 \<le> n \<and> n < 12 \<and> bit w (n - 1)"
    unfolding bit_push_bit_iff bit_take_bit_iff by auto
  then show ?thesis
    unfolding prev_test_word_def bit_or_iff by (auto simp: bit_of_bool_iff)
qed

text \<open>
  On 12-bit words, which the samples are, the test sequence is a permutation that
  fixes only zero on zero: the next word has 12 bits again, the word before can be computed from
  it, and it is zero only for zero. \<open>Bgt_Lfsr\<close> finds its period.
\<close>

theorem lfsr_reversible:
  "prev_test_word (bgt60tr13c_next_test_word (take_bit 12 w)) = take_bit 12 w \<and>
   take_bit 12 (bgt60tr13c_next_test_word (take_bit 12 w)) = bgt60tr13c_next_test_word (take_bit 12 w) \<and>
   (bgt60tr13c_next_test_word (take_bit 12 w) = 0 \<longleftrightarrow> take_bit 12 w = 0) \<and>
   take_bit 12 BGT60TR13C_LFSR_INITIAL_WORD \<noteq> 0"
proof -
  let ?n = "bgt60tr13c_next_test_word (take_bit 12 w)"
  have prev: "prev_test_word ?n = take_bit 12 w"
  proof (rule bit_word_eqI)
    fix i
    show "bit (prev_test_word ?n) i = bit (take_bit 12 w) i"
      by (cases i) (auto simp: bit_prev_test_word bit_next_test_word bit_take_bit_iff numeral_2_eq_2)
  qed
  moreover have "take_bit 12 ?n = ?n"
    by (rule bit_word_eqI) (auto simp: bit_next_test_word bit_simps)
  moreover have "?n = 0 \<longleftrightarrow> take_bit 12 w = 0"
  proof
    assume "?n = 0"
    then have "take_bit 12 w = prev_test_word 0" using prev by simp
    then show "take_bit 12 w = 0" by (simp add: prev_test_word_def)
  next
    assume "take_bit 12 w = 0"
    then show "?n = 0" by (simp add: bgt60tr13c_next_test_word_def)
  qed
  ultimately show ?thesis by (simp add: BGT60TR13C_LFSR_INITIAL_WORD_def)
qed

end
