(* ===== verification/Bgt_Lfsr.thy ===== *)
theory Bgt_Lfsr
  imports Bgt_Spi
begin

text \<open>
  The period of the sensor's test sequence (\<open>bgt60tr13c_next_test_word\<close>). The words are followed as
  lists of twelve bits, on which a step is a shift, and the order of the first word is found from
  the five powers of the step that decide it.
\<close>

section \<open>A step on bits\<close>

definition bits_of :: "u16 \<Rightarrow> bool list" where
  "bits_of w = map (bit w) [0..<12]"

definition shift12 :: "bool list \<Rightarrow> bool list" where
  "shift12 bs = tl bs @ [((bs ! 0 \<noteq> bs ! 1) \<noteq> bs ! 2) \<noteq> bs ! 8]"

lemma bits_of_next: "\<not> bit w 12 \<Longrightarrow> bits_of (bgt60tr13c_next_test_word w) = shift12 (bits_of w)"
  by (simp add: bits_of_def shift12_def bit_next_test_word upt_rec numeral_2_eq_2 [symmetric])

definition small :: "u16 \<Rightarrow> bool" where
  "small w \<longleftrightarrow> take_bit 12 w = w"

lemma small_bit: "small w \<Longrightarrow> 12 \<le> n \<Longrightarrow> \<not> bit w n"
  unfolding small_def by (metis bit_take_bit_iff not_less)

lemma bits_of_inject:
  assumes "small v" and "small w" and "bits_of v = bits_of w"
  shows "v = w"
proof (rule bit_word_eqI)
  fix n
  show "bit v n = bit w n"
  proof (cases "n < 12")
    case True
    with assms(3) show ?thesis by (auto simp: bits_of_def)
  next
    case False
    with assms(1,2) show ?thesis by (simp add: small_bit)
  qed
qed

lemma small_next: "small w \<Longrightarrow> small (bgt60tr13c_next_test_word w)"
  using lfsr_reversible [of w] by (simp add: small_def)

lemma next_inject: "small v \<Longrightarrow> small w \<Longrightarrow> bgt60tr13c_next_test_word v = bgt60tr13c_next_test_word w \<Longrightarrow> v = w"
  using lfsr_reversible [of v] lfsr_reversible [of w] by (simp add: small_def)

lemma next_nonzero: "small w \<Longrightarrow> bgt60tr13c_next_test_word w = 0 \<longleftrightarrow> w = 0"
  using lfsr_reversible [of w] by (simp add: small_def)

section \<open>Powers of a step\<close>

text \<open>The word \<open>n\<close> places into the sequence, and the same on bits.\<close>

definition test_word :: "nat \<Rightarrow> u16" where
  "test_word n = (bgt60tr13c_next_test_word ^^ n) BGT60TR13C_LFSR_INITIAL_WORD"

lemma test_word_Suc: "test_word (Suc n) = bgt60tr13c_next_test_word (test_word n)"
  by (simp add: test_word_def)

lemma small_test_word: "small (test_word n)"
  by (induction n) (simp_all add: test_word_Suc small_next, simp add: test_word_def small_def BGT60TR13C_LFSR_INITIAL_WORD_def)

lemma test_word_nonzero: "test_word n \<noteq> 0"
  by (induction n) (simp_all add: test_word_Suc next_nonzero small_test_word,
    simp add: test_word_def BGT60TR13C_LFSR_INITIAL_WORD_def)

primrec doubled :: "nat \<Rightarrow> bool list \<Rightarrow> bool list" where
  "doubled 0 b = shift12 b"
| "doubled (Suc k) b = doubled k (doubled k b)"

lemma doubled_funpow: "doubled k b = (shift12 ^^ 2 ^ k) b"
  by (induction k arbitrary: b) (simp_all add: funpow_add mult_2 power_Suc)

definition at :: "nat list \<Rightarrow> bool list" where
  "at ks = fold doubled ks (True # replicate 11 False)"

lemma bits_of_test_word: "bits_of (test_word n) = (shift12 ^^ n) (bits_of BGT60TR13C_LFSR_INITIAL_WORD)"
  by (induction n) (simp_all add: test_word_Suc bits_of_next small_bit [OF small_test_word], simp add: test_word_def)

lemma bits_at: "bits_of (test_word (sum_list (map (\<lambda>k. 2 ^ k) ks))) = at ks"
proof -
  have "(shift12 ^^ sum_list (map (\<lambda>k. 2 ^ k) ks)) b = fold doubled ks b" for b
    by (induction ks arbitrary: b) (simp, simp, subst add.commute, simp add: doubled_funpow funpow_add)
  moreover have "bits_of BGT60TR13C_LFSR_INITIAL_WORD =
     (True # replicate 11 False)"
    by (simp add: bits_of_def BGT60TR13C_LFSR_INITIAL_WORD_def list_eq_iff_nth_eq nth_Cons' bit_1_iff)
  ultimately show ?thesis by (simp add: bits_of_test_word at_def)
qed

lemma power_values:
  "at [0, 1, 2, 3, 4, 5, 6, 7, 8, 9, 10, 11] = at []"
  "at [0, 2, 4, 6, 8, 10] \<noteq> at []"
  "at [0, 1, 4, 5, 8, 9] \<noteq> at []"
  "at [0, 3, 6, 9] \<noteq> at []"
  "at [0, 1, 3, 4, 5, 8] \<noteq> at []"
  by (simp_all add: at_def shift12_def eval_nat_numeral)

section \<open>The period\<close>

definition returns_after :: "nat \<Rightarrow> bool" where
  "returns_after d \<longleftrightarrow> test_word d = test_word 0"

lemma test_word_add: "test_word (n + d) = (bgt60tr13c_next_test_word ^^ n) (test_word d)"
  by (simp add: test_word_def funpow_add)

lemma returns_shift: "returns_after d \<Longrightarrow> test_word (n + d) = test_word n"
  by (simp add: test_word_add returns_after_def) (simp add: test_word_def)

lemma returns_of_shift: "test_word (n + d) = test_word n \<Longrightarrow> returns_after d"
  by (induction n) (auto simp: returns_after_def test_word_Suc dest: next_inject [OF small_test_word small_test_word])

lemma returns_shift_mult: "returns_after d \<Longrightarrow> test_word (n + k * d) = test_word n"
  by (induction k) (simp_all add: returns_shift [of d "n + k * d" for k] add.assoc [symmetric] add.commute [of d])

lemma returns_mod: "returns_after m \<Longrightarrow> returns_after d \<Longrightarrow> returns_after (m mod d)"
  using returns_shift_mult [of d "m mod d" "m div d"] by (simp add: returns_after_def)

lemma returns_gcd: "returns_after m \<Longrightarrow> returns_after n \<Longrightarrow> returns_after (gcd m n)"
  by (induction m n rule: gcd_nat_induct) (simp_all add: returns_mod gcd_non_0_nat)

lemma returns_dvd: "returns_after d \<Longrightarrow> d dvd e \<Longrightarrow> returns_after e"
  using returns_shift_mult [of d 0] by (auto simp: dvd_def returns_after_def mult.commute)

lemma returns_at: "returns_after (sum_list (map (\<lambda>k. 2 ^ k) ks)) \<longleftrightarrow> at ks = at []"
proof -
  have "returns_after n \<longleftrightarrow> bits_of (test_word n) = bits_of (test_word 0)" for n
    unfolding returns_after_def using bits_of_inject small_test_word by metis
  then show ?thesis using bits_at [of ks] bits_at [of "[]"] by simp
qed

lemma returns_values:
  "returns_after 4095" "\<not> returns_after 1365" "\<not> returns_after 819" "\<not> returns_after 585"
  "\<not> returns_after 315"
  using returns_at [of "[0, 1, 2, 3, 4, 5, 6, 7, 8, 9, 10, 11]"] returns_at [of "[0, 2, 4, 6, 8, 10]"]
    returns_at [of "[0, 1, 4, 5, 8, 9]"] returns_at [of "[0, 3, 6, 9]"]
    returns_at [of "[0, 1, 3, 4, 5, 8]"] power_values
  by simp_all

lemma small_primes:
  fixes d :: nat
  shows "d dvd 3 \<Longrightarrow> d = 1 \<or> d = 3" and "d dvd 5 \<Longrightarrow> d = 1 \<or> d = 5"
    and "d dvd 7 \<Longrightarrow> d = 1 \<or> d = 7" and "d dvd 13 \<Longrightarrow> d = 1 \<or> d = 13"
proof -
  have cases: "d dvd p \<Longrightarrow> 0 < p \<Longrightarrow> d \<in> set [1..<Suc p]" for p :: nat
    using dvd_imp_le [of d p] by (cases d) auto
  show "d dvd 3 \<Longrightarrow> d = 1 \<or> d = 3" using cases [of 3] by (auto simp: upt_rec numeral_2_eq_2 [symmetric])
  show "d dvd 5 \<Longrightarrow> d = 1 \<or> d = 5" using cases [of 5] by (auto simp: upt_rec numeral_2_eq_2 [symmetric])
  show "d dvd 7 \<Longrightarrow> d = 1 \<or> d = 7" using cases [of 7] by (auto simp: upt_rec numeral_2_eq_2 [symmetric])
  show "d dvd 13 \<Longrightarrow> d = 1 \<or> d = 13" using cases [of 13] by (auto simp: upt_rec numeral_2_eq_2 [symmetric])
qed

lemma proper_divisor:
  fixes g :: nat
  assumes "g dvd 4095" and "g < 4095"
  shows "g dvd 1365 \<or> g dvd 819 \<or> g dvd 585 \<or> g dvd 315"
proof -
  from assms(1) obtain k where k: "4095 = g * k" by (rule dvdE)
  have "\<not> coprime k 4095"
  proof
    assume "coprime k 4095"
    then have "k = 1" using k coprime_common_divisor_nat [of k 4095 k] by simp
    with k assms(2) show False by simp
  qed
  then have "\<not> (coprime k 3 \<and> coprime k 5 \<and> coprime k 7 \<and> coprime k 13)"
    using coprime_mult_right_iff [of k "3 * 3 * 5 * 7" 13] coprime_mult_right_iff [of k "3 * 3 * 5" 7]
      coprime_mult_right_iff [of k "3 * 3" 5] coprime_mult_right_iff [of k 3 3] by auto
  then have k_dvd: "3 dvd k \<or> 5 dvd k \<or> 7 dvd k \<or> 13 dvd k"
    using small_primes(1) [of "gcd k 3"] small_primes(2) [of "gcd k 5"] small_primes(3) [of "gcd k 7"]
      small_primes(4) [of "gcd k 13"] gcd_dvd1 [of k 3] gcd_dvd1 [of k 5] gcd_dvd1 [of k 7]
      gcd_dvd1 [of k 13] gcd_dvd2 [of k] coprime_iff_gcd_eq_1 [of k] by metis
  have quotient: "g dvd q" if "p dvd k" and "p * q = 4095" and "0 < p" for p q
  proof -
    from \<open>p dvd k\<close> obtain j where "k = p * j" by (rule dvdE)
    with k \<open>p * q = 4095\<close> have "p * q = p * (g * j)" by (simp add: mult.left_commute)
    with \<open>0 < p\<close> show ?thesis by simp
  qed
  show ?thesis using k_dvd quotient [of 3 1365] quotient [of 5 819] quotient [of 7 585] quotient [of 13 315]
    by auto
qed

lemma returns_first:
  assumes "returns_after d" and "0 < d"
  shows "4095 \<le> d"
proof (rule ccontr)
  assume "\<not> 4095 \<le> d"
  let ?g = "gcd d 4095"
  have "?g \<le> d" using assms(2) by (simp add: gcd_le1_nat)
  then have "?g < 4095" using \<open>\<not> 4095 \<le> d\<close> by simp
  then have "?g dvd 1365 \<or> ?g dvd 819 \<or> ?g dvd 585 \<or> ?g dvd 315" by (intro proper_divisor) simp
  moreover have "returns_after ?g" using assms(1) returns_values(1) by (rule returns_gcd)
  ultimately show False using returns_dvd returns_values(2-5) by blast
qed

lemma test_word_inj: "inj_on test_word {0..<4095}"
proof -
  have "False" if "i < j" and "j < 4095" and "test_word i = test_word j" for i j :: nat
  proof -
    have "test_word (i + (j - i)) = test_word i" using that by simp
    then have "returns_after (j - i)" by (rule returns_of_shift)
    then show False using returns_first [of "j - i"] that by simp
  qed
  then show ?thesis by (intro linorder_inj_onI') (auto dest: sym)
qed

lemma small_less: "small w \<longleftrightarrow> w < 4096"
proof -
  have "small w \<longleftrightarrow> unat w mod 4096 = unat w"
    unfolding small_def by (simp add: word_unat_eq_iff take_bit_eq_mod unat_mod)
  then show ?thesis by (simp add: word_less_nat_alt mod_eq_self_iff_div_eq_0 div_eq_0_iff)
qed

lemma test_words: "test_word ` {0..<4095} = {w. 0 < w \<and> w < 4096}"
proof (rule card_seteq)
  show "finite {w :: u16. 0 < w \<and> w < 4096}" by simp
  show "test_word ` {0..<4095} \<subseteq> {w. 0 < w \<and> w < 4096}"
    using small_test_word test_word_nonzero by (auto simp: small_less word_gt_0)
  have "{w :: u16. 0 < w \<and> w < 4096} \<subseteq> of_nat ` {1..<4096}"
  proof
    fix w :: u16
    assume "w \<in> {w. 0 < w \<and> w < 4096}"
    then have "unat w \<in> {1..<4096}" by (auto simp: word_less_nat_alt)
    then show "w \<in> of_nat ` {1..<4096}" by (rule rev_image_eqI) simp
  qed
  then have "card {w :: u16. 0 < w \<and> w < 4096} \<le> card (of_nat ` {1..<4096} :: u16 set)"
    by (intro card_mono) simp_all
  also have "\<dots> \<le> 4095" using card_image_le [of "{1..<4096 :: nat}" "of_nat :: nat \<Rightarrow> u16"] by simp
  finally show "card {w :: u16. 0 < w \<and> w < 4096} \<le> card (test_word ` {0..<4095})"
    by (simp add: card_image test_word_inj)
qed

text \<open>
  Property C35. The test sequence has full period: from its initial word it runs through each of the
  4095 nonzero 12-bit words exactly once before it repeats. The sequence the driver offers for
  checking the sensor's test data thus tells any two places of it less than 4095 samples apart.
\<close>

theorem lfsr_full_period:
  "distinct (map test_word [0..<4095]) \<and>
   set (map test_word [0..<4095]) = {w. 0 < w \<and> w < 4096} \<and>
   test_word (n + 4095) = test_word n"
  using test_word_inj test_words returns_shift [OF returns_values(1)] by (simp add: distinct_map)

end
