(* ===== verification/Bgt_Driver.thy ===== *)
theory Bgt_Driver
  imports Bgt_Spi
begin

text \<open>
  The BGT60TR13C driver (\<open>bgt60tr13c.c\<close>): register access, resets, initialisation,
  configuration, FIFO limit and data, and its API table. An SPI transfer is an external call
  with the bytes sent and the number of bytes received; its answer is the return code and the
  bytes that came back. Transfers of two buffers under one chip select are one call. GPIO and
  semaphore calls are external as well. Log output is left out.
\<close>

section \<open>State and calls\<close>

datatype bgt_pin = reset_gpio | irq_gpio

text \<open>
  The calls of the applications on top of the driver, so that one history orders both: the log
  lines with their arguments, the socket calls, and the Wi-Fi manager, which runs in threads of
  its own.
\<close>

datatype app_call =
  device_is_ready | LOG string "int list" | LOG_line string
| wifi_connect_start | wifi_connect_wait_up u32 | wifi_connect_is_up
| zsock_socket | zsock_inet_pton string | zsock_connect int | zsock_close int
| zsock_send int "u8 list" | errno | k_uptime_get
| Cy_SysClk_ClkHfIsEnabled nat | Cy_SysClk_ClkHfSetSource nat | Cy_SysClk_ClkHfSetDivider nat
| Cy_SysClk_ClkHfEnable nat | Cy_SysClk_ClkHfGetFrequency nat

datatype bgt_call =
  spi_is_ready_dt | spi_write_dt "u8 list" | spi_transceive_dt "u8 list" nat
| bgt_pin_is_ready bgt_pin | bgt_pin_configure bgt_pin | bgt_pin_set bgt_pin int
| gpio_pin_interrupt_configure_dt | gpio_init_callback | gpio_add_callback
| k_sem_init | k_sem_give | k_sem_take u32 | bgt_msleep u32
| App app_call

type_synonym bgt_answer = "int \<times> u8 list"
type_synonym bgt_env = "(bgt_call, bgt_answer) env"

record bgt_data = "(bgt_call, bgt_answer) io" +
  bgt_initialized :: bool

type_synonym 'a bgt_prog = "(bgt_data, 'a) state"

text \<open>What the driver takes from its devicetree instance: whether \<open>irq-gpios\<close> is declared.\<close>

record bgt60tr13c_dt_config =
  has_irq :: bool

text \<open>\<open>if (ret < 0) return ret;\<close> after a call that returns a code, or a code and a value.\<close>

definition check :: "('s, int) state \<Rightarrow> ('s, int) state \<Rightarrow> ('s, int) state" where
  "check m next = do { ret \<leftarrow> m; if ret < 0 then return ret else next }"

definition with_val :: "('s, int + 'v) state \<Rightarrow> ('v \<Rightarrow> ('s, int) state) \<Rightarrow> ('s, int) state" where
  "with_val m next = do { r \<leftarrow> m; case r of Inl ret \<Rightarrow> return ret | Inr v \<Rightarrow> next v }"

definition code :: "bgt_env \<Rightarrow> bgt_call \<Rightarrow> int bgt_prog" where
  "code env c = do { a \<leftarrow> ask env c; return (fst a) }"

text \<open>
  A receive buffer of \<open>n\<close> bytes after a transfer that answered the bytes \<open>bs\<close>; every content is
  the result of some answer.
\<close>

definition received :: "nat \<Rightarrow> u8 list \<Rightarrow> u8 list" where
  "received n bs = take n (bs @ replicate n 0)"

section \<open>Register access\<close>

definition bgt60tr13c_write_reg :: "bgt_env \<Rightarrow> u8 \<Rightarrow> u32 \<Rightarrow> int bgt_prog" where
  "bgt60tr13c_write_reg env reg val = code env (spi_write_dt (to_wire (write_word reg val)))"

text \<open>The comment of the function says that the GSR0 bits of the response are checked; they are not.\<close>

definition bgt60tr13c_read_reg :: "bgt_env \<Rightarrow> u8 \<Rightarrow> (int + u32) bgt_prog" where
  "bgt60tr13c_read_reg env reg = do {
     a \<leftarrow> ask env (spi_transceive_dt (to_wire (addr_word reg)) 4);
     if fst a < 0 then return (Inl (fst a))
     else return (Inr (from_wire (received 4 (snd a)) AND BGT60TR13C_SPI_DATA_MSK))
   }"

section \<open>Reset and initialisation\<close>

definition bgt60tr13c_hard_reset :: "bgt_env \<Rightarrow> int bgt_prog" where
  "bgt60tr13c_hard_reset env =
     check (code env (bgt_pin_set reset_gpio 1)) (do {
     tell env (bgt_msleep 1);
     check (code env (bgt_pin_set reset_gpio 0)) (do {
     tell env (bgt_msleep 1);
     return 0
     })})"

definition bgt_init_irq :: "bgt_env \<Rightarrow> int bgt_prog" where
  "bgt_init_irq env = do {
     rdy \<leftarrow> code env (bgt_pin_is_ready irq_gpio);
     if rdy = 0 then return (- ENODEV)
     else do {
       tell env k_sem_init;
       check (code env (bgt_pin_configure irq_gpio)) (
       check (code env gpio_pin_interrupt_configure_dt) (do {
       tell env gpio_init_callback;
       check (code env gpio_add_callback) (return 0)
       }))
     }
   }"

definition bgt60tr13c_init :: "bgt_env \<Rightarrow> bgt60tr13c_dt_config \<Rightarrow> int bgt_prog" where
  "bgt60tr13c_init env cfg = do {
     spi \<leftarrow> code env spi_is_ready_dt;
     if spi = 0 then return (- ENODEV)
     else do {
       rst \<leftarrow> code env (bgt_pin_is_ready reset_gpio);
       if rst = 0 then return (- ENODEV)
       else
         check (code env (bgt_pin_configure reset_gpio)) (
         check (bgt60tr13c_hard_reset env) (
         check (bgt60tr13c_write_reg env BGT60TR13C_REG_SFCTL 0) (
         with_val (bgt60tr13c_read_reg env BGT60TR13C_REG_CHIP_ID) (\<lambda>chip_id.
           if chip_id \<noteq> BGT60TR13C_CHIP_ID_VALUE then return (- ENODEV)
           else check (if has_irq cfg then bgt_init_irq env else return 0) (do {
             modify (bgt_initialized_update (\<lambda>_. True));
             return 0
           })))))
     }
   }"

definition bgt60tr13c_fifo_isr :: "bgt_env \<Rightarrow> unit bgt_prog" where
  "bgt60tr13c_fifo_isr env = tell env k_sem_give"

definition bgt60tr13c_wait_fifo_ready :: "bgt_env \<Rightarrow> u32 \<Rightarrow> int bgt_prog" where
  "bgt60tr13c_wait_fifo_ready env timeout = code env (k_sem_take timeout)"

definition SOFT_RESET_DELAY_MS :: u32 where "SOFT_RESET_DELAY_MS = 10"

definition SOFT_RESET_TIMEOUT :: nat where "SOFT_RESET_TIMEOUT = 0xFFFFFFFF"

text \<open>
  The polling loop, on the value of \<open>timeout\<close>: the code of a failed read, or the value left
  in \<open>timeout\<close> when the loop is over.
\<close>

fun soft_reset_loop :: "bgt_env \<Rightarrow> u32 \<Rightarrow> nat \<Rightarrow> (int + nat) bgt_prog" where
  "soft_reset_loop env reset_type 0 = return (Inr 0)"
| "soft_reset_loop env reset_type (Suc timeout) = do {
     r \<leftarrow> bgt60tr13c_read_reg env BGT60TR13C_REG_MAIN;
     case r of
       Inl ret \<Rightarrow> return (Inl ret)
     | Inr tmp \<Rightarrow>
         if tmp AND reset_type = 0 then return (Inr (Suc timeout))
         else soft_reset_loop env reset_type timeout
   }"

definition bgt60tr13c_soft_reset :: "bgt_env \<Rightarrow> u32 \<Rightarrow> int bgt_prog" where
  "bgt60tr13c_soft_reset env reset_type =
     with_val (bgt60tr13c_read_reg env BGT60TR13C_REG_MAIN) (\<lambda>tmp.
     check (bgt60tr13c_write_reg env BGT60TR13C_REG_MAIN (tmp OR reset_type)) (
     with_val (soft_reset_loop env reset_type SOFT_RESET_TIMEOUT) (\<lambda>timeout.
       if timeout = 0 then return (- ETIMEDOUT)
       else do {
         tell env (bgt_msleep SOFT_RESET_DELAY_MS);
         return 0
       })))"

section \<open>Configuration\<close>

definition config_addr :: "u32 \<Rightarrow> u8" where
  "config_addr val = ucast (drop_bit BGT60TR13C_SPI_ADDR_POS val AND 0x7F)"

definition config_data :: "u32 \<Rightarrow> u32" where
  "config_data val =
     (let reg_data = val AND BGT60TR13C_SPI_DATA_MSK in
      if config_addr val = BGT60TR13C_REG_SFCTL
      then (reg_data AND NOT BGT60TR13C_SFCTL_FIFO_CREF_MSK) AND NOT BGT60TR13C_SFCTL_MISO_HS_MSK
      else reg_data)"

definition bgt60tr13c_config :: "bgt_env \<Rightarrow> u32 list \<Rightarrow> int bgt_prog" where
  "bgt60tr13c_config env regs =
     check (bgt60tr13c_soft_reset env BGT60TR13C_RESET_SW)
       (for_ok regs (\<lambda>val. bgt60tr13c_write_reg env (config_addr val) (config_data val)))"

definition bgt60tr13c_set_fifo_limit :: "bgt_env \<Rightarrow> u32 \<Rightarrow> int bgt_prog" where
  "bgt60tr13c_set_fifo_limit env num_samples =
     (if num_samples AND 1 \<noteq> 0 \<or> BGT60TR13C_FIFO_SIZE < num_samples div 2 then return (- EINVAL)
      else with_val (bgt60tr13c_read_reg env BGT60TR13C_REG_SFCTL) (\<lambda>tmp.
        bgt60tr13c_write_reg env BGT60TR13C_REG_SFCTL
          ((tmp AND NOT BGT60TR13C_SFCTL_FIFO_CREF_MSK) OR
           ((num_samples div 2 - 1) AND BGT60TR13C_SFCTL_FIFO_CREF_MSK))))"

definition bgt60tr13c_start_frame :: "bgt_env \<Rightarrow> bool \<Rightarrow> int bgt_prog" where
  "bgt60tr13c_start_frame env start =
     (if start then
        with_val (bgt60tr13c_read_reg env BGT60TR13C_REG_MAIN) (\<lambda>tmp.
          bgt60tr13c_write_reg env BGT60TR13C_REG_MAIN (tmp OR BGT60TR13C_MAIN_FRAME_START))
      else bgt60tr13c_soft_reset env BGT60TR13C_RESET_FSM)"

definition bgt60tr13c_get_fifo_status :: "bgt_env \<Rightarrow> (int + u32) bgt_prog" where
  "bgt60tr13c_get_fifo_status env = bgt60tr13c_read_reg env BGT60TR13C_REG_FSTAT"

definition gsr0_err_mask :: u8 where
  "gsr0_err_mask = BGT60TR13C_GSR0_FOU_ERR_MSK OR BGT60TR13C_GSR0_SPI_BURST_ERR_MSK OR
     BGT60TR13C_GSR0_CLK_NUM_ERR_MSK"

text \<open>
  With \<open>num_samples\<close> 0 the code declares arrays of length 0, which C leaves undefined; the definition
  has the burst of the header alone.
\<close>

definition bgt60tr13c_get_fifo_data :: "bgt_env \<Rightarrow> u32 \<Rightarrow> (int + u16 list) bgt_prog" where
  "bgt60tr13c_get_fifo_data env num_samples =
     (if num_samples AND 1 \<noteq> 0 \<or> BGT60TR13C_FIFO_SIZE < num_samples div 2 then return (Inl (- EINVAL))
      else do {
        let raw_bytes = unat (num_samples div 2 * 3);
        a \<leftarrow> ask env (spi_transceive_dt (to_wire burst_header @ replicate raw_bytes 0xFF) (4 + raw_bytes));
        let rx = received (4 + raw_bytes) (snd a);
        if fst a < 0 then return (Inl (fst a))
        else if (rx ! 0) AND gsr0_err_mask \<noteq> 0 then return (Inl (- EIO))
        else return (Inr (unpack_fifo (drop 4 rx)))
      })"

definition bgt60tr13c_enable_test_mode :: "bgt_env \<Rightarrow> bool \<Rightarrow> int bgt_prog" where
  "bgt60tr13c_enable_test_mode env enable =
     with_val (bgt60tr13c_read_reg env BGT60TR13C_REG_SFCTL) (\<lambda>tmp.
       bgt60tr13c_write_reg env BGT60TR13C_REG_SFCTL
         (if enable then tmp OR BGT60TR13C_SFCTL_LFSR_EN_MSK
          else tmp AND NOT BGT60TR13C_SFCTL_LFSR_EN_MSK))"

section \<open>The API table\<close>

record bgt60tr13c_api =
  api_read_reg :: "u8 \<Rightarrow> (int + u32) bgt_prog"
  api_write_reg :: "u8 \<Rightarrow> u32 \<Rightarrow> int bgt_prog"
  api_soft_reset :: "u32 \<Rightarrow> int bgt_prog"
  api_config :: "u32 list \<Rightarrow> int bgt_prog"
  api_set_fifo_limit :: "u32 \<Rightarrow> int bgt_prog"
  api_start_frame :: "bool \<Rightarrow> int bgt_prog"
  api_get_fifo_status :: "(int + u32) bgt_prog"
  api_get_fifo_data :: "u32 \<Rightarrow> (int + u16 list) bgt_prog"
  api_enable_test_mode :: "bool \<Rightarrow> int bgt_prog"
  api_wait_fifo_ready :: "u32 \<Rightarrow> int bgt_prog"

definition bgt60tr13c_api_funcs :: "bgt_env \<Rightarrow> bgt60tr13c_api" where
  "bgt60tr13c_api_funcs env =
     \<lparr>api_read_reg = bgt60tr13c_read_reg env,
      api_write_reg = bgt60tr13c_write_reg env,
      api_soft_reset = bgt60tr13c_soft_reset env,
      api_config = bgt60tr13c_config env,
      api_set_fifo_limit = bgt60tr13c_set_fifo_limit env,
      api_start_frame = bgt60tr13c_start_frame env,
      api_get_fifo_status = bgt60tr13c_get_fifo_status env,
      api_get_fifo_data = bgt60tr13c_get_fifo_data env,
      api_enable_test_mode = bgt60tr13c_enable_test_mode env,
      api_wait_fifo_ready = bgt60tr13c_wait_fifo_ready env\<rparr>"

section \<open>Running the small pieces\<close>

lemma length_received [simp]: "length (received n bs) = n"
  by (simp add: received_def)

lemma received_exact [simp]: "length bs = n \<Longrightarrow> received n bs = bs"
  by (simp add: received_def)

lemma bit_word_le: "bit (word_le bs :: 'a::len word) n \<longleftrightarrow> n < LENGTH('a) \<and> n div 8 < length bs \<and> bit (bs ! (n div 8)) (n mod 8)"
proof (induction bs arbitrary: n)
  case (Cons b bs)
  have "n div 8 = Suc ((n - 8) div 8)" "n mod 8 = (n - 8) mod 8" if "8 \<le> n"
    using that by (auto simp: le_div_geq le_mod_geq)
  then show ?case
    by (cases "n < 8") (auto simp: Cons.IH bit_simps dest: bit_imp_le_length)
qed simp

lemma from_wire_received [simp]: "from_wire (received 4 bs) = from_wire bs"
proof -
  have "(word_le (received 4 bs) :: u32) = word_le bs"
    by (rule bit_word_eqI) (auto simp: bit_word_le received_def nth_append less_mult_imp_div_less)
  then show ?thesis by (simp add: from_wire_def)
qed

lemma run_code [simp]:
  "run_state (code env c) s = (fst (env (calls s) c), s\<lparr>calls := calls s @ [(c, env (calls s) c)]\<rparr>)"
  by (simp add: code_def)

lemma run_check: "run_state (check m n) s = (if result m s < 0 then run_state m s else run_state n (final m s))"
  by (simp add: check_def split_beta)

lemma run_with_val:
  "run_state (with_val m f) s =
     (case result m s of Inl e \<Rightarrow> (e, final m s) | Inr v \<Rightarrow> run_state (f v) (final m s))"
  by (simp add: with_val_def split_beta split: sum.split)

lemma run_write_reg [simp]:
  "run_state (bgt60tr13c_write_reg env reg val) s =
     (let c = spi_write_dt (to_wire (write_word reg val)) in
      (fst (env (calls s) c), s\<lparr>calls := calls s @ [(c, env (calls s) c)]\<rparr>))"
  by (simp add: bgt60tr13c_write_reg_def Let_def)

lemma run_read_reg [simp]:
  "run_state (bgt60tr13c_read_reg env reg) s =
     (let c = spi_transceive_dt (to_wire (addr_word reg)) 4; a = env (calls s) c in
      (if fst a < 0 then Inl (fst a) else Inr (take_bit 24 (from_wire (snd a))),
       s\<lparr>calls := calls s @ [(c, a)]\<rparr>))"
  by (simp add: bgt60tr13c_read_reg_def Let_def data_msk take_bit_eq_mask)

lemma appends_check [appends_intros]: "appends m \<Longrightarrow> appends n \<Longrightarrow> appends (check m n)"
  unfolding check_def by (intro appends_intros)

lemma appends_with_val [appends_intros]:
  "appends m \<Longrightarrow> (\<And>v. appends (f v)) \<Longrightarrow> appends (with_val m f)"
  unfolding with_val_def by (rule appends_bind) (auto intro: appends_return split: sum.split)

lemma appends_code [appends_intros]: "appends (code env c)"
  unfolding code_def by (intro appends_intros)

lemma appends_regs [appends_intros]:
  "appends (bgt60tr13c_write_reg env r v)" "appends (bgt60tr13c_read_reg env r)"
  unfolding bgt60tr13c_write_reg_def bgt60tr13c_read_reg_def by (intro appends_intros)+

section \<open>What goes over the wire\<close>

text \<open>The bytes of a word, the high byte first.\<close>

lemma to_wire_bytes:
  "to_wire w = [ucast (drop_bit 24 w), ucast (drop_bit 16 w), ucast (drop_bit 8 w), ucast w]"
  by (simp add: to_wire_def bytes_le_bswap32)

lemma hd_to_wire: "hd (to_wire w) = ucast (drop_bit 24 w)"
  by (simp add: to_wire_bytes)

lemma made_write_reg:
  "made (bgt60tr13c_write_reg env reg val) s =
     [(spi_write_dt (to_wire (write_word reg val)),
       env (calls s) (spi_write_dt (to_wire (write_word reg val))))]"
  by (simp add: made_def Let_def)

lemma made_read_reg:
  "made (bgt60tr13c_read_reg env reg) s =
     [(spi_transceive_dt (to_wire (addr_word reg)) 4,
       env (calls s) (spi_transceive_dt (to_wire (addr_word reg)) 4))]"
  by (simp add: made_def Let_def)

lemma status_bits_dropped: "(push_bit 24 g OR take_bit 24 v :: u32) AND mask 24 = take_bit 24 v"
  by (rule bit_word_eqI) (auto simp: bit_simps)

text \<open>
  Property C30. A register write is one SPI write of four bytes, the high byte of a word first,
  with the register address in the top seven bits, the write bit 24 set and the low 24 bits of
  the value below; its result is the code of the transfer. A read sends the same address with the
  write bit clear, receives four bytes and returns the low 24 bits of them, or the code of the
  failed transfer. What the top byte of the response says, the GSR0 status bits included, changes
  nothing: with any top byte, error bits set, a completed read succeeds. The comment of the function
  says that these bits are checked; the manifest lists that as a finding of this theorem.
\<close>

theorem register_access_wire:
  "(\<exists>w r. made (bgt60tr13c_write_reg env reg val) s = [(spi_write_dt (to_wire w), r)] \<and>
     hd (to_wire w) = ucast (drop_bit 24 w) \<and> from_wire (to_wire w) = w \<and>
     word_addr w = take_bit 7 reg \<and> bit w 24 \<and> word_data w = take_bit 24 val \<and>
     result (bgt60tr13c_write_reg env reg val) s = fst r) \<and>
   (\<exists>w r. made (bgt60tr13c_read_reg env reg) s = [(spi_transceive_dt (to_wire w) 4, r)] \<and>
     word_addr w = take_bit 7 reg \<and> \<not> bit w 24 \<and>
     result (bgt60tr13c_read_reg env reg) s =
       (if fst r < 0 then Inl (fst r) else Inr (take_bit 24 (from_wire (snd r))))) \<and>
   result (bgt60tr13c_read_reg (\<lambda>h c. (0, to_wire (push_bit 24 gsr0 OR take_bit 24 data))) reg) s =
     Inr (take_bit 24 data)"
proof (intro conjI)
  show "\<exists>w r. made (bgt60tr13c_write_reg env reg val) s = [(spi_write_dt (to_wire w), r)] \<and>
     hd (to_wire w) = ucast (drop_bit 24 w) \<and> from_wire (to_wire w) = w \<and>
     word_addr w = take_bit 7 reg \<and> bit w 24 \<and> word_data w = take_bit 24 val \<and>
     result (bgt60tr13c_write_reg env reg val) s = fst r"
    by (rule exI [of _ "write_word reg val"],
        rule exI [of _ "env (calls s) (spi_write_dt (to_wire (write_word reg val)))"])
      (simp add: made_write_reg Let_def write_word_addr write_word_data write_word_is_write hd_to_wire)
  show "\<exists>w r. made (bgt60tr13c_read_reg env reg) s = [(spi_transceive_dt (to_wire w) 4, r)] \<and>
     word_addr w = take_bit 7 reg \<and> \<not> bit w 24 \<and>
     result (bgt60tr13c_read_reg env reg) s =
       (if fst r < 0 then Inl (fst r) else Inr (take_bit 24 (from_wire (snd r))))"
    by (rule exI [of _ "addr_word reg"],
        rule exI [of _ "env (calls s) (spi_transceive_dt (to_wire (addr_word reg)) 4)"])
      (simp add: made_read_reg Let_def addr_word_addr addr_word_is_read)
  have "from_wire (received 4 (to_wire w)) = w" for w
    by (simp add: received_exact)
  then show "result (bgt60tr13c_read_reg (\<lambda>h c. (0, to_wire (push_bit 24 gsr0 OR take_bit 24 data))) reg) s =
     Inr (take_bit 24 data)"
    by (simp add: bgt60tr13c_read_reg_def data_msk status_bits_dropped)
qed

section \<open>FIFO data\<close>

definition fifo_burst :: "nat \<Rightarrow> bgt_call" where
  "fifo_burst n =
     spi_transceive_dt (to_wire burst_header @ replicate (n div 2 * 3) 0xFF) (4 + n div 2 * 3)"

lemma odd_samples: "(n :: u32) AND 1 \<noteq> 0 \<longleftrightarrow> odd (unat n)"
  by (simp add: and_one_eq odd_iff_mod_2_eq_one word_unat_eq_iff unat_mod)

lemma too_many_samples: "BGT60TR13C_FIFO_SIZE < n div 2 \<longleftrightarrow> 8192 < unat n div 2"
  by (simp add: BGT60TR13C_FIFO_SIZE_def word_less_nat_alt unat_div)

lemma raw_bytes_exact: "unat n div 2 \<le> 8192 \<Longrightarrow> unat ((n :: u32) div 2 * 3) = unat n div 2 * 3"
  by (simp add: unat_word_ariths unat_div)

lemma gsr0_err: "b AND gsr0_err_mask \<noteq> 0 \<longleftrightarrow> bit b 0 \<or> bit b 2 \<or> bit b 3"
proof -
  have mask: "gsr0_err_mask = push_bit 0 1 OR (push_bit 2 1 OR push_bit 3 1)"
    by (simp add: gsr0_err_mask_def BGT60TR13C_GSR0_FOU_ERR_MSK_def
        BGT60TR13C_GSR0_SPI_BURST_ERR_MSK_def BGT60TR13C_GSR0_CLK_NUM_ERR_MSK_def)
  have eq: "bit gsr0_err_mask n \<longleftrightarrow> bit (push_bit 0 1 :: u8) n \<or> bit (push_bit 2 1 :: u8) n \<or>
      bit (push_bit 3 1 :: u8) n" for n
    unfolding mask bit_or_iff by (rule refl)
  have bits: "bit gsr0_err_mask n \<longleftrightarrow> n = 0 \<or> n = 2 \<or> n = 3" for n
    unfolding eq using bit_single [of 0 n, where 'a = 8] bit_single [of 2 n, where 'a = 8]
      bit_single [of 3 n, where 'a = 8] by simp
  have "b AND gsr0_err_mask \<noteq> 0 \<longleftrightarrow> (\<exists>n. bit (b AND gsr0_err_mask) n)"
    by (metis bit_0_eq bot_apply bot_bool_def bit_eqI)
  then show ?thesis by (auto simp: bit_and_iff bits)
qed

text \<open>
  Property C25. Reading \<open>num_samples\<close> samples is refused with \<open>-EINVAL\<close>, before any transfer,
  for an odd number or one of more than 8192 pairs. Otherwise it is one transfer of the burst
  header and three bytes a pair. When the sensor answers with four status bytes and the samples
  packed two to three bytes, the result is the transfer's code if it failed, \<open>-EIO\<close> if one of
  the three error bits of the first status byte is set, and else exactly the sensor's 12-bit
  samples in their order.
\<close>

theorem fifo_data_samples:
  assumes "env (calls s) (fifo_burst (unat num_samples)) = (ret, status @ pack_fifo ss)"
    and "length status = 4" and "length ss = unat num_samples"
  shows "run_state (bgt60tr13c_get_fifo_data env num_samples) s =
    (if odd (unat num_samples) \<or> 8192 < unat num_samples div 2 then (Inl (- EINVAL), s)
     else (if ret < 0 then Inl ret
           else if bit (status ! 0) 0 \<or> bit (status ! 0) 2 \<or> bit (status ! 0) 3 then Inl (- EIO)
           else Inr (map (take_bit 12) ss),
           s\<lparr>calls := calls s @ [(fifo_burst (unat num_samples), ret, status @ pack_fifo ss)]\<rparr>))"
proof (cases "odd (unat num_samples) \<or> 8192 < unat num_samples div 2")
  case True
  then show ?thesis
    by (simp add: bgt60tr13c_get_fifo_data_def odd_samples too_many_samples)
next
  case False
  have "(status @ pack_fifo ss) ! 0 = status ! 0" using assms(2) by (simp add: nth_append)
  moreover have "unpack_fifo (pack_fifo ss) = map (take_bit 12) ss"
    using False assms(3) by (simp add: unpack_pack)
  moreover have "received (4 + unat num_samples div 2 * 3) (status @ pack_fifo ss) = status @ pack_fifo ss"
    using False assms(2,3) by (intro received_exact) (simp add: length_pack)
  ultimately show ?thesis
    using False assms raw_bytes_exact [of num_samples]
    by (simp add: bgt60tr13c_get_fifo_data_def odd_samples too_many_samples Let_def
        fifo_burst_def gsr0_err)
qed

lemma fifo_data_samples_witness:
  "result (bgt60tr13c_get_fifo_data (\<lambda>_ _. (0, [0x10, 0, 0, 0] @ pack_fifo [0xABC, 0x123])) 2)
     \<lparr>calls = [], bgt_initialized = True\<rparr> = Inr [0xABC, 0x123]"
proof -
  let ?s = "\<lparr>calls = [], bgt_initialized = True\<rparr>"
  have "map (take_bit 12) [0xABC, 0x123 :: u16] = [0xABC, 0x123]" by simp
  moreover have "\<not> bit (0x10 :: u8) 0" "\<not> bit (0x10 :: u8) 2" "\<not> bit (0x10 :: u8) 3" by simp_all
  ultimately show ?thesis
    using fifo_data_samples [of "\<lambda>_ _. (0, [0x10, 0, 0, 0] @ pack_fifo [0xABC, 0x123])" ?s 2 0
        "[0x10, 0, 0, 0]" "[0xABC, 0x123]"]
    by simp
qed

text \<open>What a successful read promises its callers.\<close>

lemma fifo_data_shape:
  assumes "result (bgt60tr13c_get_fifo_data env n) s = Inr xs"
  shows "length xs = unat n" and "list_all (\<lambda>x. unat x < 4096) xs"
proof -
  let ?rx = "received (4 + unat (n div 2 * 3))
      (snd (env (calls s) (spi_transceive_dt (to_wire burst_header @ replicate (unat (n div 2 * 3)) 0xFF)
        (4 + unat (n div 2 * 3)))))"
  have ok: "even (unat n)" "unat n div 2 \<le> 8192" and xs: "xs = unpack_fifo (drop 4 ?rx)"
    using assms by (auto simp: bgt60tr13c_get_fifo_data_def odd_samples too_many_samples Let_def
        split: if_splits)
  show "length xs = unat n"
    using ok by (simp add: xs length_unpack raw_bytes_exact)
  show "list_all (\<lambda>x. unat x < 4096) xs"
    by (simp add: xs unpack_range)
qed

section \<open>Initialisation\<close>

lemma triple_check:
  assumes m: "triple P m (\<lambda>r s. if r < 0 then Q r s else R s)" and n: "triple R n Q"
  shows "triple P (check m n) Q"
  unfolding triple_def
proof (intro allI impI)
  fix s assume "P s"
  with m have "if result m s < 0 then Q (result m s) (final m s) else R (final m s)"
    by (simp add: triple_def)
  with n show "Q (result (check m n) s) (final (check m n) s)"
    by (cases "result m s < 0") (simp_all add: triple_def run_check)
qed

lemma triple_code:
  "(\<And>s a. P s \<Longrightarrow> Q (fst a) (s\<lparr>calls := calls s @ [(c, a)]\<rparr>)) \<Longrightarrow> triple P (code env c) Q"
  by (simp add: triple_def)

text \<open>Flattening: a helper that returns early, inside the function that returns early with it.\<close>

lemma state_ext: "(\<And>s. run_state m s = run_state n s) \<Longrightarrow> m = n"
  by (cases m; cases n) auto

lemma check_flat:
  "check (check m n) k = check m (check n k)"
  "check (do { tell env c; n }) k = do { tell env c; check n k }"
  "check (return 0) k = k"
  "check (do { r \<leftarrow> code env c; if r = 0 then return (- ENODEV) else n }) k =
     do { r \<leftarrow> code env c; if r = 0 then return (- ENODEV) else check n k }"
  by (rule state_ext; simp add: run_check)+

text \<open>
  The calls since the history \<open>h\<close>, the flag, and, once \<open>k\<close> is set, that the chip was identified.
\<close>

definition chip_id_read :: bgt_call where
  "chip_id_read = spi_transceive_dt (to_wire (addr_word BGT60TR13C_REG_CHIP_ID)) 4"

definition chip_identified :: "(bgt_call \<times> bgt_answer) list \<Rightarrow> bool" where
  "chip_identified new \<longleftrightarrow>
     list_ex (\<lambda>(c, a). c = chip_id_read \<and> take_bit 24 (from_wire (snd a)) = BGT60TR13C_CHIP_ID_VALUE) new"

definition sofar ::
  "(bgt_call \<times> bgt_answer) list \<Rightarrow> bool \<Rightarrow> bool \<Rightarrow> bgt_call list \<Rightarrow> bgt_data \<Rightarrow> bool" where
  "sofar h i k cs s \<longleftrightarrow> bgt_initialized s = i \<and>
     (\<exists>new. calls s = h @ new \<and> map fst new = cs \<and> (k \<longrightarrow> chip_identified new))"

text \<open>The calls of a successful initialisation, in order.\<close>

definition init_calls :: "bgt60tr13c_dt_config \<Rightarrow> bgt_call list" where
  "init_calls cfg =
     [spi_is_ready_dt, bgt_pin_is_ready reset_gpio, bgt_pin_configure reset_gpio,
      bgt_pin_set reset_gpio 1, bgt_msleep 1, bgt_pin_set reset_gpio 0, bgt_msleep 1,
      spi_write_dt (to_wire (write_word BGT60TR13C_REG_SFCTL 0)), chip_id_read] @
     (if has_irq cfg
      then [bgt_pin_is_ready irq_gpio, k_sem_init, bgt_pin_configure irq_gpio,
            gpio_pin_interrupt_configure_dt, gpio_init_callback, gpio_add_callback]
      else [])"

definition init_post ::
  "(bgt_call \<times> bgt_answer) list \<Rightarrow> bool \<Rightarrow> bgt60tr13c_dt_config \<Rightarrow> int \<Rightarrow> bgt_data \<Rightarrow> bool" where
  "init_post h i cfg r s \<longleftrightarrow>
     (if r = 0 then sofar h True True (init_calls cfg) s else r < 0 \<and> bgt_initialized s = i)"

lemma sofar_call: "sofar h i k cs s \<Longrightarrow> sofar h i k (cs @ [c]) (s\<lparr>calls := calls s @ [(c, a)]\<rparr>)"
  by (auto simp: sofar_def chip_identified_def)

lemma sofar_identified:
  "sofar h i k cs s \<Longrightarrow> take_bit 24 (from_wire (snd a)) = BGT60TR13C_CHIP_ID_VALUE \<Longrightarrow>
   sofar h i True (cs @ [chip_id_read]) (s\<lparr>calls := calls s @ [(chip_id_read, a)]\<rparr>)"
  by (auto simp: sofar_def chip_identified_def split_beta)

lemma init_post_neg: "r < 0 \<Longrightarrow> sofar h i k cs s \<Longrightarrow> init_post h i cfg r s"
  by (simp add: init_post_def sofar_def)

lemma triple_init_step:
  "triple (sofar h i k (cs @ [c])) n (init_post h i cfg) \<Longrightarrow>
   triple (sofar h i k cs) (check (code env c) n) (init_post h i cfg)"
  by (rule triple_check [where R = "sofar h i k (cs @ [c])"])
    (auto intro!: triple_code intro: init_post_neg sofar_call)

lemma triple_init_tell:
  "triple (sofar h i k (cs @ [c])) n Q \<Longrightarrow> triple (sofar h i k cs) (do { tell env c; n }) Q"
  by (rule triple_bind [where R = "\<lambda>_. sofar h i k (cs @ [c])"]) (auto intro: triple_tell sofar_call)

lemma triple_init_guard:
  assumes n: "triple (sofar h i k (cs @ [c])) n (init_post h i cfg)"
  shows "triple (sofar h i k cs)
     (do { r \<leftarrow> code env c; if r = 0 then return (- ENODEV) else n }) (init_post h i cfg)"
proof (rule triple_bind [where R = "\<lambda>_. sofar h i k (cs @ [c])"])
  show "triple (sofar h i k cs) (code env c) (\<lambda>_. sofar h i k (cs @ [c]))"
    by (auto intro: triple_code sofar_call)
  show "triple (sofar h i k (cs @ [c])) (if r = 0 then return (- ENODEV) else n) (init_post h i cfg)"
    for r :: int
    using n init_post_neg [of "- ENODEV" h i k "cs @ [c]"] by (simp add: triple_def)
qed

lemma triple_init_chip:
  assumes n: "triple (sofar h i True (cs @ [chip_id_read])) n (init_post h i cfg)"
  shows "triple (sofar h i k cs)
     (with_val (bgt60tr13c_read_reg env BGT60TR13C_REG_CHIP_ID) (\<lambda>chip_id.
        if chip_id \<noteq> BGT60TR13C_CHIP_ID_VALUE then return (- ENODEV) else n)) (init_post h i cfg)"
  unfolding triple_def
proof (intro allI impI)
  fix s assume P: "sofar h i k cs s"
  let ?a = "env (calls s) chip_id_read" and ?t = "s\<lparr>calls := calls s @ [(chip_id_read, env (calls s) chip_id_read)]\<rparr>"
  have t: "sofar h i k (cs @ [chip_id_read]) ?t" using P by (rule sofar_call)
  show "init_post h i cfg
     (result (with_val (bgt60tr13c_read_reg env BGT60TR13C_REG_CHIP_ID) (\<lambda>chip_id.
        if chip_id \<noteq> BGT60TR13C_CHIP_ID_VALUE then return (- ENODEV) else n)) s)
     (final (with_val (bgt60tr13c_read_reg env BGT60TR13C_REG_CHIP_ID) (\<lambda>chip_id.
        if chip_id \<noteq> BGT60TR13C_CHIP_ID_VALUE then return (- ENODEV) else n)) s)"
    using n sofar_identified [OF P, of ?a] init_post_neg [OF _ t]
    by (simp add: run_with_val Let_def triple_def flip: chip_id_read_def)
qed

text \<open>
  Property C26. Initialisation succeeds only through the whole sequence, in order: bus and reset
  pin ready, the reset pin configured and pulsed with a millisecond on each side, SFCTL written
  with zero so that the first read comes back in the standard SPI mode, the chip id read and equal
  to the BGT60TR13C's, and, with an interrupt pin, its semaphore, pin, interrupt and callback set
  up. Only then is the device marked initialised; every other run returns a negative code and
  leaves the mark as it was.
\<close>

theorem bgt_init_sequence:
  "let r = result (bgt60tr13c_init env cfg) s; t = final (bgt60tr13c_init env cfg) s;
       new = made (bgt60tr13c_init env cfg) s in
   if r = 0 then bgt_initialized t \<and> map fst new = init_calls cfg \<and> chip_identified new
   else r < 0 \<and> bgt_initialized t = bgt_initialized s"
proof -
  let ?h = "calls s" and ?i = "bgt_initialized s"
  have last: "triple (sofar ?h ?i True (init_calls cfg))
     (do { modify (bgt_initialized_update (\<lambda>_. True)); return 0 }) (init_post ?h ?i cfg)"
    by (auto simp: triple_def sofar_def init_post_def)
  have "triple (sofar ?h ?i False []) (bgt60tr13c_init env cfg) (init_post ?h ?i cfg)"
    unfolding bgt60tr13c_init_def bgt60tr13c_hard_reset_def bgt_init_irq_def check_flat
      bgt60tr13c_write_reg_def
    by (intro triple_init_guard triple_init_step triple_init_tell triple_init_chip)
      (use last in \<open>cases "has_irq cfg"; auto simp: check_flat init_calls_def
         intro!: triple_init_guard triple_init_step triple_init_tell\<close>)
  moreover have "sofar ?h ?i False [] s" by (simp add: sofar_def)
  ultimately have "init_post ?h ?i cfg (result (bgt60tr13c_init env cfg) s) (final (bgt60tr13c_init env cfg) s)"
    by (simp add: triple_def)
  then show ?thesis by (auto simp: init_post_def sofar_def made_def Let_def)
qed

section \<open>Soft reset\<close>

lemma appends_soft_reset [appends_intros]: "appends (bgt60tr13c_soft_reset env t)"
proof -
  have "appends (soft_reset_loop env t n)" for n
  proof (induction n)
    case (Suc n)
    then show ?case
      by (auto intro!: appends_bind appends_regs intro: appends_return split: sum.split)
  qed (simp add: appends_return)
  then show ?thesis
    unfolding bgt60tr13c_soft_reset_def
    by (intro appends_intros) (auto intro: appends_intros)
qed

definition main_read :: bgt_call where
  "main_read = spi_transceive_dt (to_wire (addr_word BGT60TR13C_REG_MAIN)) 4"

text \<open>An answer to a read of MAIN that keeps the polling going: the bits are still set.\<close>

definition resetting :: "u32 \<Rightarrow> bgt_answer \<Rightarrow> bool" where
  "resetting t a \<longleftrightarrow> 0 \<le> fst a \<and> take_bit 24 (from_wire (snd a)) AND t \<noteq> 0"

lemma soft_reset_loop_runs:
  "\<exists>reads. final (soft_reset_loop env t n) s = s\<lparr>calls := calls s @ map (Pair main_read) reads\<rparr> \<and>
     list_all (resetting t) (butlast reads) \<and>
     (if reads = [] \<or> resetting t (last reads)
      then length reads = n \<and> result (soft_reset_loop env t n) s = Inr 0
      else length reads \<le> n \<and> result (soft_reset_loop env t n) s =
        (if fst (last reads) < 0 then Inl (fst (last reads)) else Inr (Suc (n - length reads))))"
proof (induction n arbitrary: s)
  case 0
  show ?case by (rule exI [of _ "[]"]) simp
next
  case (Suc n)
  define a where "a = env (calls s) main_read"
  let ?s = "s\<lparr>calls := calls s @ [(main_read, a)]\<rparr>"
  show ?case
  proof (cases "resetting t a")
    case False
    then have "\<not> fst a < 0 \<Longrightarrow> take_bit 24 (from_wire (snd a)) AND t = 0"
      by (simp add: resetting_def)
    with False show ?thesis
      by (intro exI [of _ "[a]"]) (simp add: Let_def a_def flip: main_read_def)
  next
    case True
    obtain reads where r: "final (soft_reset_loop env t n) ?s = ?s\<lparr>calls := calls ?s @ map (Pair main_read) reads\<rparr>"
      "list_all (resetting t) (butlast reads)"
      "if reads = [] \<or> resetting t (last reads)
       then length reads = n \<and> result (soft_reset_loop env t n) ?s = Inr 0
       else length reads \<le> n \<and> result (soft_reset_loop env t n) ?s =
         (if fst (last reads) < 0 then Inl (fst (last reads)) else Inr (Suc (n - length reads)))"
      using Suc.IH [of ?s] by (elim exE conjE) (rule that)
    have run: "run_state (soft_reset_loop env t (Suc n)) s = run_state (soft_reset_loop env t n) ?s"
      using True by (simp add: Let_def resetting_def a_def flip: main_read_def)
    show ?thesis
      unfolding run
      by (rule exI [of _ "a # reads"]) (use r True in \<open>auto split: if_splits\<close>)
  qed
qed

definition main_write :: "u32 \<Rightarrow> bgt_call" where
  "main_write v = spi_write_dt (to_wire (write_word BGT60TR13C_REG_MAIN v))"

text \<open>
  Property C27. A soft reset reads MAIN, sets the reset bits in what it read, and polls MAIN until
  a read shows all the bits clear: then it sleeps ten milliseconds and returns zero. A failed
  transfer ends it with that transfer's code at that point. Every poll but the last showed a bit
  still set, there are at most \<open>2 ^ 32 - 1\<close> of them, and \<open>-ETIMEDOUT\<close> is returned exactly after
  that many, all showing a bit still set: the loop always returns.
\<close>

theorem soft_reset_outcome:
  "let a = env (calls s) main_read;
       w = main_write (take_bit 24 (from_wire (snd a)) OR t);
       b = env (calls s @ [(main_read, a)]) w;
       r = result (bgt60tr13c_soft_reset env t) s;
       new = made (bgt60tr13c_soft_reset env t) s in
   if fst a < 0 then r = fst a \<and> new = [(main_read, a)]
   else if fst b < 0 then r = fst b \<and> new = [(main_read, a), (w, b)]
   else \<exists>reads tail. new = [(main_read, a), (w, b)] @ map (Pair main_read) reads @ tail \<and>
     list_all (resetting t) (butlast reads) \<and> length reads \<le> 0xFFFFFFFF \<and>
     (if reads = [] \<or> resetting t (last reads)
      then length reads = 0xFFFFFFFF \<and> r = - ETIMEDOUT \<and> tail = []
      else if fst (last reads) < 0 then r = fst (last reads) \<and> tail = []
      else r = 0 \<and> map fst tail = [bgt_msleep 10])"
proof -
  define a where "a = env (calls s) main_read"
  define w where "w = main_write (take_bit 24 (from_wire (snd a)) OR t)"
  define b where "b = env (calls s @ [(main_read, a)]) w"
  let ?s = "s\<lparr>calls := calls s @ [(main_read, a), (w, b)]\<rparr>"
  have n: "SOFT_RESET_TIMEOUT = 0xFFFFFFFF" by (simp add: SOFT_RESET_TIMEOUT_def)
  have run: "run_state (bgt60tr13c_soft_reset env t) s =
      (if fst a < 0 then (fst a, s\<lparr>calls := calls s @ [(main_read, a)]\<rparr>)
       else if fst b < 0 then (fst b, ?s)
       else run_state (with_val (soft_reset_loop env t SOFT_RESET_TIMEOUT) (\<lambda>timeout.
              if timeout = 0 then return (- ETIMEDOUT)
              else do { tell env (bgt_msleep SOFT_RESET_DELAY_MS); return 0 })) ?s)"
    by (simp add: bgt60tr13c_soft_reset_def run_with_val run_check Let_def a_def b_def w_def main_write_def
        flip: main_read_def)
  obtain reads where r: "final (soft_reset_loop env t SOFT_RESET_TIMEOUT) ?s =
      ?s\<lparr>calls := calls ?s @ map (Pair main_read) reads\<rparr>"
    "list_all (resetting t) (butlast reads)"
    "if reads = [] \<or> resetting t (last reads)
     then length reads = SOFT_RESET_TIMEOUT \<and> result (soft_reset_loop env t SOFT_RESET_TIMEOUT) ?s = Inr 0
     else length reads \<le> SOFT_RESET_TIMEOUT \<and> result (soft_reset_loop env t SOFT_RESET_TIMEOUT) ?s =
       (if fst (last reads) < 0 then Inl (fst (last reads))
        else Inr (Suc (SOFT_RESET_TIMEOUT - length reads)))"
    using soft_reset_loop_runs [of env t SOFT_RESET_TIMEOUT ?s] by (elim exE conjE) (rule that)
  have "\<exists>reads tail. made (bgt60tr13c_soft_reset env t) s =
      [(main_read, a), (w, b)] @ map (Pair main_read) reads @ tail \<and>
     list_all (resetting t) (butlast reads) \<and> length reads \<le> 0xFFFFFFFF \<and>
     (if reads = [] \<or> resetting t (last reads)
      then length reads = 0xFFFFFFFF \<and> result (bgt60tr13c_soft_reset env t) s = - ETIMEDOUT \<and> tail = []
      else if fst (last reads) < 0 then result (bgt60tr13c_soft_reset env t) s = fst (last reads) \<and> tail = []
      else result (bgt60tr13c_soft_reset env t) s = 0 \<and> map fst tail = [bgt_msleep 10])"
    if "\<not> fst a < 0" "\<not> fst b < 0"
    by (intro exI [of _ reads] exI [of _ "drop (2 + length reads) (made (bgt60tr13c_soft_reset env t) s)"])
      (use that r in \<open>auto simp: run made_def run_with_val n SOFT_RESET_DELAY_MS_def split: if_splits\<close>)
  moreover have "fst a < 0 \<Longrightarrow> run_state (bgt60tr13c_soft_reset env t) s =
      (fst a, s\<lparr>calls := calls s @ [(main_read, a)]\<rparr>)"
    "\<not> fst a < 0 \<Longrightarrow> fst b < 0 \<Longrightarrow> run_state (bgt60tr13c_soft_reset env t) s = (fst b, ?s)"
    by (simp_all add: run)
  ultimately show ?thesis
    by (simp add: Let_def made_def flip: a_def w_def b_def)
qed

section \<open>Configuration\<close>

definition config_write :: "u32 \<Rightarrow> bgt_call" where
  "config_write val = spi_write_dt (to_wire (write_word (config_addr val) (config_data val)))"

lemma seven_bits: "(0x7F :: u32) = mask 7"
  by (simp add: mask_eq_exp_minus_1)

lemma config_addr_bits: "bit (config_addr val) n \<longleftrightarrow> n < 7 \<and> bit val (n + 25)"
  by (auto simp: config_addr_def BGT60TR13C_SPI_ADDR_POS_def seven_bits bit_simps add.commute)

lemma config_addr_word: "word_addr (write_word (config_addr val) d) = word_addr val"
  unfolding write_word_addr
  by (rule bit_word_eqI) (auto simp: config_addr_bits word_addr_def bit_simps add.commute
      dest: bit_imp_le_length)

lemma config_data_bits:
  "bit (config_data val) n \<longleftrightarrow> n < 24 \<and> bit val n \<and>
     \<not> (config_addr val = BGT60TR13C_REG_SFCTL \<and> (n < 13 \<or> n = 16))"
  by (auto simp: config_data_def Let_def data_msk cref_msk bit_simps)

lemma run_config_writes:
  "\<exists>k as. final (for_ok regs (\<lambda>val. bgt60tr13c_write_reg env (config_addr val) (config_data val))) s =
       s\<lparr>calls := calls s @ zip (map config_write (take k regs)) as\<rparr> \<and>
     length as = k \<and> k \<le> length regs \<and> list_all (\<lambda>a. 0 \<le> fst a) (butlast as) \<and>
     (if as = [] \<or> 0 \<le> fst (last as)
      then k = length regs \<and>
        result (for_ok regs (\<lambda>val. bgt60tr13c_write_reg env (config_addr val) (config_data val))) s = 0
      else result (for_ok regs (\<lambda>val. bgt60tr13c_write_reg env (config_addr val) (config_data val))) s =
        fst (last as))"
proof (induction regs arbitrary: s)
  case Nil
  show ?case by simp
next
  case (Cons val regs)
  define a where "a = env (calls s) (config_write val)"
  let ?s = "s\<lparr>calls := calls s @ [(config_write val, a)]\<rparr>"
  let ?loop = "for_ok regs (\<lambda>val. bgt60tr13c_write_reg env (config_addr val) (config_data val))"
  show ?case
  proof (cases "fst a < 0")
    case True
    then show ?thesis
      by (intro exI [of _ 1] exI [of _ "[a]"]) (simp add: Let_def a_def config_write_def)
  next
    case False
    obtain k as where ih: "final ?loop ?s = ?s\<lparr>calls := calls ?s @ zip (map config_write (take k regs)) as\<rparr>"
      "length as = k" "k \<le> length regs" "list_all (\<lambda>a. 0 \<le> fst a) (butlast as)"
      "if as = [] \<or> 0 \<le> fst (last as) then k = length regs \<and> result ?loop ?s = 0
       else result ?loop ?s = fst (last as)"
      using Cons.IH [of ?s] by (elim exE conjE) (rule that)
    have run: "run_state (for_ok (val # regs) (\<lambda>val. bgt60tr13c_write_reg env (config_addr val) (config_data val))) s =
        run_state ?loop ?s"
      using False by (simp add: Let_def a_def config_write_def)
    show ?thesis
      unfolding run
      by (rule exI [of _ "Suc k"], rule exI [of _ "a # as"]) (use ih False in \<open>auto split: if_splits\<close>)
  qed
qed

text \<open>
  Property C28. A configuration starts with a soft reset and stops there with its code when it
  fails. Then the register words are written in the order of the list, each once, up to the first
  failed write, whose code is returned; zero is returned exactly when all of them were written.
  Each word goes to the register its top seven bits name, as a write, with its low 24 bits
  unchanged, except that a word for SFCTL has the FIFO limit (bits 0 to 12) and the high-speed
  MISO bit 16 cleared.
\<close>

theorem config_writes_in_order:
  "let reset = bgt60tr13c_soft_reset env BGT60TR13C_RESET_SW;
       r = result (bgt60tr13c_config env regs) s in
   (if result reset s < 0
    then run_state (bgt60tr13c_config env regs) s = run_state reset s
    else \<exists>k as. made (bgt60tr13c_config env regs) s = made reset s @ zip (map config_write (take k regs)) as \<and>
      length as = k \<and> k \<le> length regs \<and> list_all (\<lambda>a. 0 \<le> fst a) (butlast as) \<and>
      (if as = [] \<or> 0 \<le> fst (last as) then k = length regs \<and> r = 0 else r = fst (last as))) \<and>
   (\<exists>w. config_write val = spi_write_dt (to_wire w) \<and> word_addr w = word_addr val \<and> bit w 24 \<and>
     (\<forall>n. bit (word_data w) n \<longleftrightarrow> n < 24 \<and> bit val n \<and>
        \<not> (word_addr val = BGT60TR13C_REG_SFCTL \<and> (n < 13 \<or> n = 16))))"
proof -
  let ?reset = "bgt60tr13c_soft_reset env BGT60TR13C_RESET_SW"
  let ?loop = "for_ok regs (\<lambda>val. bgt60tr13c_write_reg env (config_addr val) (config_data val))"
  let ?t = "final ?reset s"
  have calls: "calls ?t = calls s @ made ?reset s"
    by (rule appendsD) (rule appends_soft_reset)
  obtain k as where loop: "final ?loop ?t = ?t\<lparr>calls := calls ?t @ zip (map config_write (take k regs)) as\<rparr>"
    "length as = k" "k \<le> length regs" "list_all (\<lambda>a. 0 \<le> fst a) (butlast as)"
    "if as = [] \<or> 0 \<le> fst (last as) then k = length regs \<and> result ?loop ?t = 0
     else result ?loop ?t = fst (last as)"
    using run_config_writes [of regs env ?t] by (elim exE conjE) (rule that)
  have run: "run_state (bgt60tr13c_config env regs) s =
      (if result ?reset s < 0 then run_state ?reset s else run_state ?loop ?t)"
    by (simp add: bgt60tr13c_config_def run_check)
  have new: "made (bgt60tr13c_config env regs) s = made ?reset s @ zip (map config_write (take k regs)) as"
    if "\<not> result ?reset s < 0"
    using that loop(1) calls by (simp add: made_def [of "bgt60tr13c_config env regs"] run)
  have writes: "if result ?reset s < 0
    then run_state (bgt60tr13c_config env regs) s = run_state ?reset s
    else \<exists>k as. made (bgt60tr13c_config env regs) s = made ?reset s @ zip (map config_write (take k regs)) as \<and>
      length as = k \<and> k \<le> length regs \<and> list_all (\<lambda>a. 0 \<le> fst a) (butlast as) \<and>
      (if as = [] \<or> 0 \<le> fst (last as)
       then k = length regs \<and> result (bgt60tr13c_config env regs) s = 0
       else result (bgt60tr13c_config env regs) s = fst (last as))"
  proof (cases "result ?reset s < 0")
    case False
    have "result (bgt60tr13c_config env regs) s = result ?loop ?t" using False by (simp add: run)
    with False show ?thesis
      by (simp, intro exI [of _ k] exI [of _ as]) (use new [OF False] loop in \<open>auto split: if_splits\<close>)
  qed (simp add: run)
  have sfctl: "config_addr val = BGT60TR13C_REG_SFCTL \<longleftrightarrow> word_addr val = BGT60TR13C_REG_SFCTL"
  proof -
    have "config_addr val = word_addr val"
      by (rule bit_word_eqI) (auto simp: config_addr_bits word_addr_def bit_simps add.commute
          dest: bit_imp_le_length)
    then show ?thesis by simp
  qed
  have "\<exists>w. config_write val = spi_write_dt (to_wire w) \<and> word_addr w = word_addr val \<and> bit w 24 \<and>
     (\<forall>n. bit (word_data w) n \<longleftrightarrow> n < 24 \<and> bit val n \<and>
        \<not> (word_addr val = BGT60TR13C_REG_SFCTL \<and> (n < 13 \<or> n = 16)))"
    by (rule exI [of _ "write_word (config_addr val) (config_data val)"])
      (auto simp: config_write_def config_addr_word write_word_is_write write_word_data bit_simps
        config_data_bits sfctl)
  with writes show ?thesis unfolding Let_def by (rule conjI)
qed

section \<open>FIFO limit, frame start and test mode\<close>

definition sfctl_read :: bgt_call where
  "sfctl_read = spi_transceive_dt (to_wire (addr_word BGT60TR13C_REG_SFCTL)) 4"

definition sfctl_write :: "u32 \<Rightarrow> bgt_call" where
  "sfctl_write v = spi_write_dt (to_wire (write_word BGT60TR13C_REG_SFCTL v))"

definition with_limit :: "u32 \<Rightarrow> u32 \<Rightarrow> u32" where
  "with_limit n tmp =
     (tmp AND NOT BGT60TR13C_SFCTL_FIFO_CREF_MSK) OR ((n div 2 - 1) AND BGT60TR13C_SFCTL_FIFO_CREF_MSK)"

lemma with_limit_field: "take_bit 13 (with_limit n tmp) = take_bit 13 (n div 2 - 1)"
  by (rule bit_word_eqI) (auto simp: with_limit_def cref_msk bit_simps)

lemma with_limit_rest: "drop_bit 13 (with_limit n tmp) = drop_bit 13 tmp"
  by (rule bit_word_eqI) (auto simp: with_limit_def cref_msk bit_simps dest: bit_imp_le_length)

lemma limit_value:
  assumes "even (unat n)" and "unat (n :: u32) div 2 \<le> 8192"
  shows "unat (take_bit 13 (n div 2 - 1)) = (if unat n = 0 then 8191 else unat n div 2 - 1)"
proof (cases "n = 0")
  case True
  have "(0 :: u32) - 1 = mask 32" by (simp add: mask_eq_exp_minus_1)
  then have "take_bit 13 ((0 :: u32) - 1) = mask 13" by (simp add: take_bit_eq_mask mask_eq_exp_minus_1)
  then show ?thesis using True by (simp add: mask_eq_exp_minus_1)
next
  case False
  then have "unat n \<noteq> 0" by (simp add: unat_eq_0)
  then have pos: "1 \<le> unat (n div 2)" using assms(1) by (auto simp: unat_div elim!: evenE)
  then have "1 \<le> n div 2" by (simp add: word_le_nat_alt)
  then have "unat (n div 2 - 1) = unat n div 2 - 1"
    by (simp add: unat_sub unat_div)
  then show ?thesis using \<open>unat n \<noteq> 0\<close> assms(2)
    by (simp only: unat_take_bit_mod) (simp add: mod_less)
qed

text \<open>
  Property C29. Setting the FIFO limit to \<open>num_samples\<close> is refused with \<open>-EINVAL\<close>, before any
  transfer, for an odd number or one of more than 8192 pairs. Otherwise SFCTL is read, a failure
  of that read returned, and written back with the limit field (the low 13 bits) holding one less
  than the number of pairs and every bit above unchanged; zero samples wrap to the largest field,
  8191, the same as 16384 samples. The result is the code of the write.
\<close>

theorem fifo_limit_field:
  "let a = env (calls s) sfctl_read; n = unat num_samples;
       run = run_state (bgt60tr13c_set_fifo_limit env num_samples) s in
   if even n \<and> n div 2 \<le> 8192 then
     (if fst a < 0 then run = (fst a, s\<lparr>calls := calls s @ [(sfctl_read, a)]\<rparr>)
      else \<exists>v b. run = (fst b, s\<lparr>calls := calls s @ [(sfctl_read, a), (sfctl_write v, b)]\<rparr>) \<and>
        unat (take_bit 13 v) = (if n = 0 then 8191 else n div 2 - 1) \<and>
        drop_bit 13 v = drop_bit 13 (take_bit 24 (from_wire (snd a))))
   else run = (- EINVAL, s)"
proof -
  define a where "a = env (calls s) sfctl_read"
  define v where "v = with_limit num_samples (take_bit 24 (from_wire (snd a)))"
  define b where "b = env (calls s @ [(sfctl_read, a)]) (sfctl_write v)"
  have run: "run_state (bgt60tr13c_set_fifo_limit env num_samples) s =
      (if odd (unat num_samples) \<or> 8192 < unat num_samples div 2 then (- EINVAL, s)
       else if fst a < 0 then (fst a, s\<lparr>calls := calls s @ [(sfctl_read, a)]\<rparr>)
       else (fst b, s\<lparr>calls := calls s @ [(sfctl_read, a), (sfctl_write v, b)]\<rparr>))"
    by (simp add: bgt60tr13c_set_fifo_limit_def odd_samples too_many_samples run_with_val Let_def
        a_def b_def v_def sfctl_write_def with_limit_def flip: sfctl_read_def)
  show ?thesis
  proof (cases "odd (unat num_samples) \<or> 8192 < unat num_samples div 2 \<or> fst a < 0")
    case True
    then show ?thesis by (auto simp: run Let_def simp flip: a_def)
  next
    case False
    then have "unat (take_bit 13 v) = (if unat num_samples = 0 then 8191 else unat num_samples div 2 - 1)"
      by (simp add: v_def with_limit_field limit_value)
    moreover have "drop_bit 13 v = drop_bit 13 (take_bit 24 (from_wire (snd a)))"
      by (simp add: v_def with_limit_rest)
    moreover have "run_state (bgt60tr13c_set_fifo_limit env num_samples) s =
        (fst b, s\<lparr>calls := calls s @ [(sfctl_read, a), (sfctl_write v, b)]\<rparr>)"
      using False by (simp add: run)
    ultimately have "\<exists>v b. run_state (bgt60tr13c_set_fifo_limit env num_samples) s =
        (fst b, s\<lparr>calls := calls s @ [(sfctl_read, a), (sfctl_write v, b)]\<rparr>) \<and>
       unat (take_bit 13 v) = (if unat num_samples = 0 then 8191 else unat num_samples div 2 - 1) \<and>
       drop_bit 13 v = drop_bit 13 (take_bit 24 (from_wire (snd a)))"
      by (intro exI conjI)
    with False show ?thesis by (simp add: Let_def flip: a_def)
  qed
qed

text \<open>
  Starting a frame and switching the test mode read a register, return the code of
  a failed read, and write the value read back with exactly one bit changed: bit 0 of MAIN set,
  or bit 17 of SFCTL set or cleared as asked. Stopping a frame is the soft reset of the state
  machine.
\<close>

lemma single_bit_updates:
  "let read = env (calls s) main_read; tmp = take_bit 24 (from_wire (snd read));
       sread = env (calls s) sfctl_read; stmp = take_bit 24 (from_wire (snd sread)) in
   (\<exists>v b. run_state (bgt60tr13c_start_frame env True) s =
       (if fst read < 0 then (fst read, s\<lparr>calls := calls s @ [(main_read, read)]\<rparr>)
        else (fst b, s\<lparr>calls := calls s @ [(main_read, read), (main_write v, b)]\<rparr>)) \<and>
     (\<forall>n. bit v n \<longleftrightarrow> n = 0 \<or> bit tmp n)) \<and>
   (\<exists>v b. run_state (bgt60tr13c_enable_test_mode env enable) s =
       (if fst sread < 0 then (fst sread, s\<lparr>calls := calls s @ [(sfctl_read, sread)]\<rparr>)
        else (fst b, s\<lparr>calls := calls s @ [(sfctl_read, sread), (sfctl_write v, b)]\<rparr>)) \<and>
     (\<forall>n. bit v n \<longleftrightarrow> (if n = 17 then enable else bit stmp n))) \<and>
   bgt60tr13c_start_frame env False = bgt60tr13c_soft_reset env 4"
proof -
  define read where "read = env (calls s) main_read"
  define sread where "sread = env (calls s) sfctl_read"
  define v where "v = take_bit 24 (from_wire (snd read)) OR BGT60TR13C_MAIN_FRAME_START"
  define b where "b = env (calls s @ [(main_read, read)]) (main_write v)"
  define w where "w = (if enable then take_bit 24 (from_wire (snd sread)) OR BGT60TR13C_SFCTL_LFSR_EN_MSK
    else take_bit 24 (from_wire (snd sread)) AND NOT BGT60TR13C_SFCTL_LFSR_EN_MSK)"
  define c where "c = env (calls s @ [(sfctl_read, sread)]) (sfctl_write w)"
  have "run_state (bgt60tr13c_start_frame env True) s =
       (if fst read < 0 then (fst read, s\<lparr>calls := calls s @ [(main_read, read)]\<rparr>)
        else (fst b, s\<lparr>calls := calls s @ [(main_read, read), (main_write v, b)]\<rparr>))"
    by (simp add: bgt60tr13c_start_frame_def run_with_val Let_def read_def v_def b_def main_write_def
        flip: main_read_def)
  moreover have "bit v n \<longleftrightarrow> n = 0 \<or> bit (take_bit 24 (from_wire (snd read))) n" for n
    by (auto simp: v_def BGT60TR13C_MAIN_FRAME_START_def bit_simps bit_1_iff)
  moreover have "run_state (bgt60tr13c_enable_test_mode env enable) s =
       (if fst sread < 0 then (fst sread, s\<lparr>calls := calls s @ [(sfctl_read, sread)]\<rparr>)
        else (fst c, s\<lparr>calls := calls s @ [(sfctl_read, sread), (sfctl_write w, c)]\<rparr>))"
    by (simp add: bgt60tr13c_enable_test_mode_def run_with_val Let_def sread_def w_def c_def sfctl_write_def
        flip: sfctl_read_def)
  moreover have "bit w n \<longleftrightarrow> (if n = 17 then enable else bit (take_bit 24 (from_wire (snd sread))) n)" for n
    by (auto simp: w_def bit_simps)
  moreover have "bgt60tr13c_start_frame env False = bgt60tr13c_soft_reset env 4"
    by (simp add: bgt60tr13c_start_frame_def BGT60TR13C_RESET_FSM_def)
  ultimately show ?thesis
    unfolding Let_def read_def [symmetric] sread_def [symmetric] by (intro conjI exI allI) assumption+
qed

end
