(* ===== verification/Radar_Demo.thy ===== *)
theory Radar_Demo
  imports Bgt_Driver
begin

text \<open>
  The radar demo on the CM33 (\<open>apps/09_pse84_ai_m33_radar\<close>): the clock fix that runs before the
  drivers, the register recipe, the statistics line of a frame and the acquisition in \<open>main\<close>.
  The demo reaches the sensor through the driver's API table only; what it relies on is the
  locale \<open>radar_source\<close>, interpreted on the driver's own table.
\<close>

section \<open>The interface to the sensor\<close>

primrec driver_call :: "bgt_call \<Rightarrow> bool" where
  "driver_call (App c) = False"
| "driver_call spi_is_ready_dt = True"
| "driver_call (spi_write_dt bs) = True"
| "driver_call (spi_transceive_dt bs n) = True"
| "driver_call (bgt_pin_is_ready p) = True"
| "driver_call (bgt_pin_configure p) = True"
| "driver_call (bgt_pin_set p v) = True"
| "driver_call gpio_pin_interrupt_configure_dt = True"
| "driver_call gpio_init_callback = True"
| "driver_call gpio_add_callback = True"
| "driver_call k_sem_init = True"
| "driver_call k_sem_give = True"
| "driver_call (k_sem_take t) = True"
| "driver_call (bgt_msleep t) = True"

locale radar_source =
  fixes api :: bgt60tr13c_api
  assumes config_quiet: "quiet driver_call (api_config api regs)"
    and limit_quiet: "quiet driver_call (api_set_fifo_limit api n)"
    and start_quiet: "quiet driver_call (api_start_frame api b)"
    and wait_quiet: "quiet driver_call (api_wait_fifo_ready api t)"
    and status_quiet: "quiet driver_call (api_get_fifo_status api)"
    and data_quiet: "quiet driver_call (api_get_fifo_data api n)"
    and data_shape: "result (api_get_fifo_data api n) s = Inr xs \<Longrightarrow>
      length xs = unat n \<and> list_all (\<lambda>x. unat x < 4096) xs"

lemma quiet_check [quiet_intros]: "quiet C m \<Longrightarrow> quiet C n \<Longrightarrow> quiet C (check m n)"
  unfolding check_def by (intro quiet_intros)

lemma quiet_with_val [quiet_intros]: "quiet C m \<Longrightarrow> (\<And>v. quiet C (f v)) \<Longrightarrow> quiet C (with_val m f)"
  unfolding with_val_def by (rule quiet_bind) (auto intro: quiet_return split: sum.split)

lemma quiet_code [quiet_intros]: "C c \<Longrightarrow> quiet C (code env c)"
  unfolding code_def by (intro quiet_intros)

lemma quiet_for_ok [quiet_intros]: "(\<And>x. quiet C (body x)) \<Longrightarrow> quiet C (for_ok xs body)"
  by (induction xs) (auto intro!: quiet_intros)

lemma quiet_regs [quiet_intros]:
  "quiet driver_call (bgt60tr13c_write_reg env r v)" "quiet driver_call (bgt60tr13c_read_reg env r)"
  unfolding bgt60tr13c_write_reg_def bgt60tr13c_read_reg_def by (intro quiet_intros; simp)+

lemma quiet_soft_reset [quiet_intros]: "quiet driver_call (bgt60tr13c_soft_reset env t)"
proof -
  have "quiet driver_call (soft_reset_loop env t n)" for n
    by (induction n) (auto intro!: quiet_intros split: sum.split)
  then show ?thesis
    unfolding bgt60tr13c_soft_reset_def by (intro quiet_intros; simp)
qed

interpretation bgt: radar_source "bgt60tr13c_api_funcs env" for env
proof
  show "quiet driver_call (api_config (bgt60tr13c_api_funcs env) regs)" for regs
    by (simp add: bgt60tr13c_api_funcs_def bgt60tr13c_config_def quiet_intros)
  show "quiet driver_call (api_set_fifo_limit (bgt60tr13c_api_funcs env) n)" for n
    by (simp add: bgt60tr13c_api_funcs_def bgt60tr13c_set_fifo_limit_def quiet_intros)
  show "quiet driver_call (api_start_frame (bgt60tr13c_api_funcs env) b)" for b
    by (simp add: bgt60tr13c_api_funcs_def bgt60tr13c_start_frame_def quiet_intros)
  show "quiet driver_call (api_wait_fifo_ready (bgt60tr13c_api_funcs env) t)" for t
    by (simp add: bgt60tr13c_api_funcs_def bgt60tr13c_wait_fifo_ready_def quiet_intros)
  show "quiet driver_call (api_get_fifo_status (bgt60tr13c_api_funcs env))"
    by (simp add: bgt60tr13c_api_funcs_def bgt60tr13c_get_fifo_status_def quiet_intros)
  show "quiet driver_call (api_get_fifo_data (bgt60tr13c_api_funcs env) n)" for n
    by (auto simp: bgt60tr13c_api_funcs_def bgt60tr13c_get_fifo_data_def Let_def intro!: quiet_intros)
  show "length xs = unat n \<and> list_all (\<lambda>x. unat x < 4096) xs"
    if "result (api_get_fifo_data (bgt60tr13c_api_funcs env) n) s = Inr xs" for n s xs
    using that fifo_data_shape [of env n s xs] by (simp add: bgt60tr13c_api_funcs_def)
qed

section \<open>The clock of the bus\<close>

definition clk_hf10_step :: "bgt_env \<Rightarrow> app_call \<Rightarrow> string \<Rightarrow> int bgt_prog \<Rightarrow> int bgt_prog" where
  "clk_hf10_step env c msg rest = do {
     status \<leftarrow> code env (App c);
     if status \<noteq> 0 then do { tell env (App (LOG msg [status])); return (- EIO) } else rest
   }"

definition ensure_clk_hf10_enabled :: "bgt_env \<Rightarrow> int bgt_prog" where
  "ensure_clk_hf10_enabled env = do {
     was_enabled \<leftarrow> code env (App (Cy_SysClk_ClkHfIsEnabled 10));
     if was_enabled = 0 then do {
       tell env (App (LOG ''CLK_HF10 was NOT enabled!'' []));
       clk_hf10_step env (Cy_SysClk_ClkHfSetSource 10) ''ClkHfSetSource(10) failed: %d'' (
       clk_hf10_step env (Cy_SysClk_ClkHfSetDivider 10) ''ClkHfSetDivider(10) failed: %d'' (
       clk_hf10_step env (Cy_SysClk_ClkHfEnable 10) ''ClkHfEnable(10) failed: %d'' (do {
         tell env (App (LOG ''CLK_HF10 enabled successfully'' []));
         return 0
       })))
     }
     else do {
       freq \<leftarrow> code env (App (Cy_SysClk_ClkHfGetFrequency 10));
       tell env (App (LOG ''CLK_HF10 was already enabled (freq=%u Hz)'' [freq]));
       return 0
     }
   }"

text \<open>
  The hook reports 0 only when the clock was running, and then nothing is touched, or when the
  source, the divider and the enable succeeded in this order; an error stops the sequence.
\<close>

definition clk_hf10_touched :: "(bgt_call \<times> bgt_answer) list \<Rightarrow> app_call list" where
  "clk_hf10_touched h = concat (map (\<lambda>(c, _). case c of
     App (Cy_SysClk_ClkHfSetSource n) \<Rightarrow> [Cy_SysClk_ClkHfSetSource n]
   | App (Cy_SysClk_ClkHfSetDivider n) \<Rightarrow> [Cy_SysClk_ClkHfSetDivider n]
   | App (Cy_SysClk_ClkHfEnable n) \<Rightarrow> [Cy_SysClk_ClkHfEnable n]
   | _ \<Rightarrow> []) h)"

lemma clk_hf10_order:
  assumes "run_state (ensure_clk_hf10_enabled env) s = (rc, t)"
  shows "(rc, clk_hf10_touched (drop (length (calls s)) (calls t))) \<in>
    (let src = Cy_SysClk_ClkHfSetSource 10; dv = Cy_SysClk_ClkHfSetDivider 10; en = Cy_SysClk_ClkHfEnable 10
     in {(0, []), (- EIO, [src]), (- EIO, [src, dv]), (- EIO, [src, dv, en]), (0, [src, dv, en])})"
proof -
  have "rc = fst (run_state (ensure_clk_hf10_enabled env) s)"
    "calls t = calls (snd (run_state (ensure_clk_hf10_enabled env) s))" using assms by simp_all
  then show ?thesis
    by (simp add: ensure_clk_hf10_enabled_def clk_hf10_step_def code_def clk_hf10_touched_def Let_def
        split: if_split)
qed

section \<open>The register recipe\<close>

definition radar_regs :: "u32 list" where
  "radar_regs =
    [0x011e8270, 0x03088210, 0x09e967fd, 0x0b0805b4, 0x0d1027ff,
     0x0f010700, 0x11000000, 0x13000000, 0x15000000, 0x17000be0,
     0x19000000, 0x1b000000, 0x1d000000, 0x1f000b60, 0x21103c51,
     0x231ff41f, 0x25006f7b, 0x2d000490, 0x3b000480, 0x49000480,
     0x57000480, 0x5911be0e, 0x5b44c40a, 0x5d000000, 0x5f787e1e,
     0x61f5208a, 0x630000a4, 0x65000252, 0x67000080, 0x69000000,
     0x6b000000, 0x6d000000, 0x6f093910, 0x7f000100, 0x8f000100,
     0x9f000100, 0xad000000, 0xb7000000]"

definition RADAR_NUM_SAMPLES_PER_FRAME :: u32 where "RADAR_NUM_SAMPLES_PER_FRAME = 128"

section \<open>The statistics line\<close>

text \<open>One pass over the buffer: smallest, largest and sum, with the widths of the C variables.\<close>

fun stats_loop :: "u16 \<Rightarrow> u16 \<Rightarrow> u32 \<Rightarrow> u16 list \<Rightarrow> u16 \<times> u16 \<times> u32" where
  "stats_loop min_val max_val acc [] = (min_val, max_val, acc)"
| "stats_loop min_val max_val acc (b # buf) =
     (let v = b AND 0x0FFF in
      stats_loop (if v < min_val then v else min_val) (if max_val < v then v else max_val)
        (acc + ucast v) buf)"

text \<open>
  \<open>snprintf\<close> into a buffer of 128 bytes at \<open>n\<close>, the count of characters so far: what does not fit
  before the final zero is cut, and the count grows by the full length.
\<close>

definition snprintf_at :: "string \<Rightarrow> nat \<times> string \<Rightarrow> nat \<times> string" where
  "snprintf_at t = (\<lambda>(n, line). (n + length t, line @ take (128 - n - 1) t))"

fun raw_fields :: "u16 list \<Rightarrow> nat \<times> string \<Rightarrow> nat \<times> string" where
  "raw_fields [] (n, line) = (n, line)"
| "raw_fields (b # bs) (n, line) =
     (if n < 128 then raw_fields bs (snprintf_at (pad 4 CHR ''0'' (digits 16 (unat b)) @ '' '') (n, line))
      else (n, line))"

definition stats_prefix :: "u32 \<Rightarrow> u16 \<Rightarrow> u16 \<Rightarrow> u32 \<Rightarrow> string" where
  "stats_prefix frame_idx min_val max_val mean =
     ''Frame '' @ pad 2 CHR '' '' (digits 10 (unat frame_idx)) @
     '': min='' @ pad 4 CHR '' '' (digits 10 (unat min_val)) @
     '' max='' @ pad 4 CHR '' '' (digits 10 (unat max_val)) @
     '' mean='' @ pad 4 CHR '' '' (digits 10 (unat mean)) @ '' | ''"

definition frame_line :: "u32 \<Rightarrow> u16 list \<Rightarrow> string" where
  "frame_line frame_idx buf =
     (case stats_loop 0x0FFF 0 0 buf of (min_val, max_val, acc) \<Rightarrow>
        let mean = acc div of_nat (length buf) in
        snd (raw_fields (take 8 buf) (snprintf_at (stats_prefix frame_idx min_val max_val mean) (0, ''''))))"

definition log_frame_stats :: "bgt_env \<Rightarrow> u32 \<Rightarrow> u16 list \<Rightarrow> unit bgt_prog" where
  "log_frame_stats env frame_idx buf = tell env (App (LOG_line (frame_line frame_idx buf @ ''...'')))"

section \<open>Acquisition\<close>

definition NUM_FRAMES :: nat where "NUM_FRAMES = 10"

definition FIFO_IRQ_TIMEOUT :: u32 where "FIFO_IRQ_TIMEOUT = 50"

definition LOG_MSG :: "bgt_env \<Rightarrow> string \<Rightarrow> int list \<Rightarrow> unit bgt_prog" where
  "LOG_MSG env fmt args = tell env (App (LOG fmt args))"

text \<open>The loop over the frames, left at the first failure.\<close>

primrec acquire :: "bgt_env \<Rightarrow> bgt60tr13c_api \<Rightarrow> u32 list \<Rightarrow> unit bgt_prog" where
  "acquire env api [] = return ()"
| "acquire env api (frame # frames) = do {
     ret \<leftarrow> api_wait_fifo_ready api FIFO_IRQ_TIMEOUT;
     if ret < 0 then do {
       r \<leftarrow> api_get_fifo_status api;
       let fstat = (case r of Inl e \<Rightarrow> 0 | Inr v \<Rightarrow> v);
       LOG_MSG env ''Frame %u: IRQ wait failed (ret=%d, fstat=0x%06X)'' [uint frame, ret, uint fstat]
     }
     else do {
       r \<leftarrow> api_get_fifo_data api RADAR_NUM_SAMPLES_PER_FRAME;
       case r of
         Inl ret \<Rightarrow> LOG_MSG env ''Frame %u: get_fifo_data failed: %d'' [uint frame, ret]
       | Inr samples \<Rightarrow> do {
           log_frame_stats env frame samples;
           acquire env api frames
         }
     }
   }"

text \<open>
  \<open>main\<close>: the code it returns, or \<open>None\<close> when it is done and sleeps for ever.
\<close>

definition or_fail :: "bgt_env \<Rightarrow> string \<Rightarrow> int bgt_prog \<Rightarrow> int option bgt_prog \<Rightarrow> int option bgt_prog" where
  "or_fail env msg m next = do {
     ret \<leftarrow> m;
     if ret < 0 then do { LOG_MSG env msg [ret]; return (Some ret) } else next
   }"

definition radar_stop :: "bgt_env \<Rightarrow> bgt60tr13c_api \<Rightarrow> int option bgt_prog" where
  "radar_stop env api = do {
     api_start_frame api False;
     LOG_MSG env ''Done.'' [];
     return None
   }"

definition radar_main :: "bgt_env \<Rightarrow> bgt60tr13c_api \<Rightarrow> int option bgt_prog" where
  "radar_main env api = do {
     LOG_MSG env ''BGT60TR13C RADAR Sensor - Phase 3: Real Data'' [];
     ready \<leftarrow> code env (App device_is_ready);
     if ready = 0 then do {
       LOG_MSG env ''RADAR sensor device is not ready'' [];
       return (Some (- ENODEV))
     }
     else do {
       LOG_MSG env ''Sensor ready (CHIP_ID verified during init)'' [];
       LOG_MSG env ''Configuring sensor (%u registers)...'' [int (length radar_regs)];
       or_fail env ''config failed: %d'' (api_config api radar_regs) (
       or_fail env ''set_fifo_limit failed: %d'' (api_set_fifo_limit api RADAR_NUM_SAMPLES_PER_FRAME) (do {
       LOG_MSG env ''Starting frame acquisition (%u samples/frame, %u frames)''
         [uint RADAR_NUM_SAMPLES_PER_FRAME, int NUM_FRAMES];
       or_fail env ''start_frame failed: %d'' (api_start_frame api True) (do {
       acquire env api (map of_nat [0..<NUM_FRAMES]);
       radar_stop env api
       })}))
     }
   }"

section \<open>What a line says\<close>

definition raw_field :: "u16 \<Rightarrow> string" where
  "raw_field b = pad 4 CHR ''0'' (digits 16 (unat b)) @ '' ''"

lemma length_raw_field: "length (raw_field b) = 5"
proof -
  have "length (digits 16 (unat b)) \<le> Suc 3"
    by (rule length_digits) (use unat_less(2) [of b] in simp_all)
  then show ?thesis by (simp add: raw_field_def)
qed

lemma length_stats_prefix: "length (stats_prefix i mn mx mean) \<le> 56"
proof -
  have d16: "length (digits 10 (unat (x :: u16))) \<le> Suc 4" for x
    by (rule length_digits) (use unat_less(2) [of x] in simp_all)
  have d32: "length (digits 10 (unat (x :: u32))) \<le> Suc 9" for x
    by (rule length_digits) (use unat_less(3) [of x] in simp_all)
  show ?thesis
    using d16 [of mn] d16 [of mx] d32 [of i] d32 [of mean]
    by (simp add: stats_prefix_def)
qed

lemma raw_fields_fit:
  "length line + 5 * length bs \<le> 127 \<Longrightarrow>
   raw_fields bs (length line, line) = (length line + 5 * length bs, line @ concat (map raw_field bs))"
proof (induction bs arbitrary: line)
  case (Cons b bs)
  have "snprintf_at (raw_field b) (length line, line) = (length (line @ raw_field b), line @ raw_field b)"
    using Cons.prems by (simp add: snprintf_at_def length_raw_field)
  with Cons show ?case
    using Cons.IH [of "line @ raw_field b"] by (simp add: length_raw_field flip: raw_field_def)
qed simp

lemma twelve_bits: "(x :: u16) AND 0x0FFF = take_bit 12 x"
proof -
  have "(0x0FFF :: u16) = mask 12" by (simp add: mask_eq_exp_minus_1)
  then show ?thesis by (simp add: take_bit_eq_mask)
qed

definition adc :: "u16 \<Rightarrow> nat" where
  "adc b = unat b mod 4096"

lemma adc_take_bit: "unat (take_bit 12 b) = adc b"
  by (simp add: adc_def unat_take_bit_mod)

lemma stats_loop_exact:
  "unat acc + 4096 * length buf < 2 ^ 32 \<Longrightarrow>
   (case stats_loop mn mx acc buf of (mn', mx', acc') \<Rightarrow>
      unat mn' = fold min (map adc buf) (unat mn) \<and> unat mx' = fold max (map adc buf) (unat mx) \<and>
      unat acc' = unat acc + sum_list (map adc buf))"
proof (induction buf arbitrary: mn mx acc)
  case (Cons b buf)
  have lt: "adc b < 4096" by (simp add: adc_def)
  have "unat (acc + ucast (take_bit 12 b)) = unat acc + adc b"
    using Cons.prems lt by (simp add: unat_word_ariths adc_take_bit)
  moreover define u where "u = (if take_bit 12 b < mn then take_bit 12 b else mn)"
  moreover define v where "v = (if mx < take_bit 12 b then take_bit 12 b else mx)"
  ultimately have step: "stats_loop mn mx acc (b # buf) = stats_loop u v (acc + ucast (take_bit 12 b)) buf"
    and acc: "unat (acc + ucast (take_bit 12 b)) = unat acc + adc b"
    by (simp_all add: twelve_bits Let_def)
  have "unat u = min (adc b) (unat mn)" "unat v = max (adc b) (unat mx)"
    by (auto simp: u_def v_def word_less_nat_alt adc_take_bit min_def max_def)
  then show ?case
    unfolding step
    using Cons.IH [of "acc + ucast (take_bit 12 b)" u v] Cons.prems lt acc
    by (simp add: add.assoc)
qed simp

text \<open>
  Property C34. The line logged for a frame of up to \<open>2 ^ 19\<close> samples is complete: it fits its
  128-byte buffer with nothing cut, holds the prefix with the frame number and the three
  statistics and then the first eight raw samples, and the statistics are the smallest, the
  largest and the rounded-down mean of the 12-bit readings, the sum never having wrapped.
\<close>

theorem frame_line_exact:
  assumes "buf \<noteq> []" and "length buf \<le> 524288"
  shows "\<exists>mn mx mean. frame_line i buf = stats_prefix i mn mx mean @ concat (map raw_field (take 8 buf)) \<and>
    length (frame_line i buf @ ''...'') < 128 \<and>
    unat mn = Min (adc ` set buf) \<and> unat mx = Max (adc ` set buf) \<and>
    unat mean = sum_list (map adc buf) div length buf"
proof -
  obtain mn mx acc where r: "stats_loop 0x0FFF 0 0 buf = (mn, mx, acc)"
    by (cases "stats_loop 0x0FFF 0 0 buf") auto
  have ex: "unat mn = fold min (map adc buf) 4095" "unat mx = fold max (map adc buf) 0"
    "unat acc = sum_list (map adc buf)"
    using stats_loop_exact [of 0 buf "0x0FFF" 0] assms(2) r by simp_all
  obtain b bs where b: "buf = b # bs" using assms(1) by (cases buf) auto
  have "min (adc b) 4095 = adc b" by (simp add: adc_def)
  then have "unat mn = Min (adc ` set buf)" "unat mx = Max (adc ` set buf)"
    using ex Min.set_eq_fold [of "adc b" "map adc bs"] Max.set_eq_fold [of "adc b" "map adc bs"]
    by (simp_all add: b)
  moreover have "unat (acc div of_nat (length buf)) = sum_list (map adc buf) div length buf"
    using assms(2) by (simp add: unat_div ex(3) unat_of_nat)
  moreover have "frame_line i buf =
      stats_prefix i mn mx (acc div of_nat (length buf)) @ concat (map raw_field (take 8 buf))"
    and "length (frame_line i buf @ ''...'') < 128"
  proof -
    let ?p = "stats_prefix i mn mx (acc div of_nat (length buf))"
    have p: "length ?p \<le> 56" by (rule length_stats_prefix)
    have "snprintf_at ?p (0, '''') = (length ?p, ?p)"
      using p by (simp add: snprintf_at_def)
    moreover have "raw_fields (take 8 buf) (length ?p, ?p) =
        (length ?p + 5 * length (take 8 buf), ?p @ concat (map raw_field (take 8 buf)))"
      by (rule raw_fields_fit) (use p in simp)
    ultimately show line: "frame_line i buf = ?p @ concat (map raw_field (take 8 buf))"
      by (simp add: frame_line_def r)
    have "length (concat (map raw_field xs)) = 5 * length xs" for xs
      by (induction xs) (simp_all add: length_raw_field)
    then show "length (frame_line i buf @ ''...'') < 128" using p by (simp add: line)
  qed
  ultimately show ?thesis by blast
qed

lemma frame_line_exact_witness:
  "\<exists>mn mx mean. frame_line 3 [0x1005, 9, 2] = stats_prefix 3 mn mx mean @ concat (map raw_field [0x1005, 9, 2]) \<and>
    unat mn = 2 \<and> unat mx = 9 \<and> unat mean = 5"
  using frame_line_exact [of "[0x1005, 9, 2]" 3] by (auto simp: adc_def)

section \<open>What a run logs\<close>

definition frame_lines :: "(bgt_call \<times> bgt_answer) list \<Rightarrow> string list" where
  "frame_lines h = concat (map (\<lambda>(c, _). case c of App (LOG_line l) \<Rightarrow> [l] | _ \<Rightarrow> []) h)"

lemma frame_lines_append [simp]: "frame_lines (h @ h') = frame_lines h @ frame_lines h'"
  by (simp add: frame_lines_def)

lemma frame_lines_one [simp]:
  "frame_lines [] = []"
  "frame_lines [(App (LOG_line l), r)] = [l]"
  "frame_lines [(App (LOG f as), r)] = []"
  "frame_lines [(App device_is_ready, r)] = []"
  by (simp_all add: frame_lines_def)

lemma frame_lines_driver: "list_all (driver_call \<circ> fst) h \<Longrightarrow> frame_lines h = []"
  by (induction h) (auto simp: frame_lines_def split: bgt_call.splits app_call.splits)

lemma says_nothing:
  assumes "quiet driver_call m"
  shows "frame_lines (calls (final m s)) = frame_lines (calls s)"
proof -
  obtain new where "final m s = s\<lparr>calls := calls s @ new\<rparr>" "list_all (driver_call \<circ> fst) new"
    using quietE [OF assms] .
  then show ?thesis by (simp add: frame_lines_driver)
qed

lemma says_nothing_log [simp]:
  "frame_lines (calls (final (LOG_MSG env f as) s)) = frame_lines (calls s)"
  by (simp add: LOG_MSG_def)

definition frame_ok :: "u16 list \<Rightarrow> bool" where
  "frame_ok xs \<longleftrightarrow> length xs = 128 \<and> list_all (\<lambda>x. unat x < 4096) xs"

definition line_of :: "u32 \<Rightarrow> u16 list \<Rightarrow> string" where
  "line_of f xs = frame_line f xs @ ''...''"

text \<open>
  What a run that ends with \<open>r\<close> may have logged since the history \<open>h\<close>: the lines of at most ten
  frames of 128 12-bit samples, numbered from zero; nothing and a negative code when it failed
  early, and otherwise it ended by stopping the sensor.
\<close>

definition radar_report ::
  "bgt_env \<Rightarrow> bgt60tr13c_api \<Rightarrow> (bgt_call \<times> bgt_answer) list \<Rightarrow> int option \<times> bgt_data \<Rightarrow> bool" where
  "radar_report env api h r \<longleftrightarrow>
     (\<exists>xss. frame_lines (calls (snd r)) = frame_lines h @ map2 line_of (map of_nat [0..<length xss]) xss \<and>
       length xss \<le> 10 \<and> list_all frame_ok xss \<and>
       (case fst r of Some e \<Rightarrow> e < 0 \<and> xss = [] | None \<Rightarrow> \<exists>t. r = run_state (radar_stop env api) t))"

lemma radar_report_log:
  "(\<And>t. radar_report env api (calls t) (run_state k t)) \<Longrightarrow>
   radar_report env api (calls s) (run_state (do { LOG_MSG env f as; k }) s)"
proof -
  assume k: "\<And>t. radar_report env api (calls t) (run_state k t)"
  have "run_state (do { LOG_MSG env f as; k }) s = run_state k (final (LOG_MSG env f as) s)"
    by (simp add: split_beta)
  with k [of "final (LOG_MSG env f as) s"] show ?thesis by (simp add: radar_report_def)
qed

lemma radar_report_fail:
  "e < 0 \<Longrightarrow> frame_lines (calls t) = frame_lines h \<Longrightarrow> radar_report env api h (Some e, t)"
  by (simp add: radar_report_def)

context radar_source begin

lemma acquire_lines:
  "\<exists>xss. frame_lines (calls (final (acquire env api fs) s)) =
       frame_lines (calls s) @ map2 line_of (take (length xss) fs) xss \<and>
     length xss \<le> length fs \<and> list_all frame_ok xss"
proof (induction fs arbitrary: s)
  case Nil
  show ?case by (intro exI [of _ "[]"]) simp
next
  case (Cons f fs)
  let ?wait = "api_wait_fifo_ready api FIFO_IRQ_TIMEOUT"
  let ?data = "api_get_fifo_data api RADAR_NUM_SAMPLES_PER_FRAME"
  let ?t = "final ?wait s"
  note quiet = wait_quiet [of FIFO_IRQ_TIMEOUT, THEN says_nothing] status_quiet [THEN says_nothing]
    data_quiet [of RADAR_NUM_SAMPLES_PER_FRAME, THEN says_nothing]
  show ?case
  proof (cases "result ?wait s < 0 \<or> (\<exists>e. result ?data ?t = Inl e)")
    case True
    then show ?thesis
      by (intro exI [of _ "[]"]) (auto simp: split_beta Let_def quiet)
  next
    case False
    then obtain xs where xs: "result ?data ?t = Inr xs" by (cases "result ?data ?t") auto
    let ?u = "final (log_frame_stats env f xs) (final ?data ?t)"
    have ok: "frame_ok xs"
      using data_shape [OF xs] by (simp add: frame_ok_def RADAR_NUM_SAMPLES_PER_FRAME_def)
    have run: "run_state (acquire env api (f # fs)) s = run_state (acquire env api fs) ?u"
      using False xs by (simp add: split_beta)
    have "frame_lines (calls ?u) = frame_lines (calls s) @ [line_of f xs]"
      by (simp add: log_frame_stats_def quiet line_of_def)
    then show ?thesis
      unfolding run using Cons.IH [of ?u] ok
      by (elim exE) (rule_tac x = "xs # xss" in exI, simp)
  qed
qed

lemma or_fail_cases:
  assumes "quiet driver_call m"
  obtains r where "r < 0" "result (or_fail env msg m next) s = Some r"
      "frame_lines (calls (final (or_fail env msg m next) s)) = frame_lines (calls s)"
  | t where "run_state (or_fail env msg m next) s = run_state next t"
      "frame_lines (calls t) = frame_lines (calls s)"
proof (cases "result m s < 0")
  case True
  show ?thesis
    by (rule that(1) [OF True]) (use True in \<open>simp_all add: or_fail_def split_beta says_nothing [OF assms]\<close>)
next
  case False
  show ?thesis
    by (rule that(2) [of "final m s"])
      (use False in \<open>simp_all add: or_fail_def split_beta says_nothing [OF assms]\<close>)
qed

lemma radar_report_or_fail:
  assumes "quiet driver_call m" and k: "\<And>t. radar_report env api (calls t) (run_state k t)"
  shows "radar_report env api (calls s) (run_state (or_fail env msg m k) s)"
proof (rule or_fail_cases [OF assms(1), of env msg k s])
  fix r assume r: "r < 0" "result (or_fail env msg m k) s = Some r"
    "frame_lines (calls (final (or_fail env msg m k) s)) = frame_lines (calls s)"
  have "run_state (or_fail env msg m k) s = (Some r, final (or_fail env msg m k) s)"
    using r(2) by (simp add: prod_eq_iff)
  then show ?thesis using radar_report_fail [OF r(1,3)] by simp
next
  fix t assume t: "run_state (or_fail env msg m k) s = run_state k t"
    "frame_lines (calls t) = frame_lines (calls s)"
  show ?thesis using k [of t] t(2) unfolding t(1) radar_report_def by simp
qed

lemma radar_report_acquire:
  "radar_report env api (calls s)
     (run_state (do { acquire env api (map of_nat [0..<NUM_FRAMES]); radar_stop env api }) s)"
proof -
  obtain xss where xss: "frame_lines (calls (final (acquire env api (map of_nat [0..<NUM_FRAMES])) s)) =
      frame_lines (calls s) @ map2 line_of (take (length xss) (map of_nat [0..<NUM_FRAMES])) xss"
    "length xss \<le> length (map of_nat [0..<NUM_FRAMES] :: u32 list)" "list_all frame_ok xss"
    using acquire_lines [of env "map of_nat [0..<NUM_FRAMES]" s] by (elim exE conjE) (rule that)
  let ?t = "final (acquire env api (map of_nat [0..<NUM_FRAMES])) s"
  have "take (length xss) (map of_nat [0..<NUM_FRAMES]) = (map of_nat [0..<length xss] :: u32 list)"
    using xss(2) by (simp add: take_map)
  moreover have "result (radar_stop env api) ?t = None"
    by (simp add: radar_stop_def split_beta)
  moreover have "frame_lines (calls (final (radar_stop env api) ?t)) = frame_lines (calls ?t)"
    by (simp add: radar_stop_def split_beta says_nothing [OF start_quiet])
  moreover have "run_state (do { acquire env api (map of_nat [0..<NUM_FRAMES]); radar_stop env api }) s =
      run_state (radar_stop env api) ?t"
    by (simp add: split_beta)
  ultimately show ?thesis
    unfolding radar_report_def
    by (intro exI [of _ xss]) (use xss in \<open>simp add: NUM_FRAMES_def, blast\<close>)
qed

lemma radar_main_report: "radar_report env api (calls s) (run_state (radar_main env api) s)"
proof -
  let ?set_up = "or_fail env ''config failed: %d'' (api_config api radar_regs) (
       or_fail env ''set_fifo_limit failed: %d'' (api_set_fifo_limit api RADAR_NUM_SAMPLES_PER_FRAME) (do {
       LOG_MSG env ''Starting frame acquisition (%u samples/frame, %u frames)''
         [uint RADAR_NUM_SAMPLES_PER_FRAME, int NUM_FRAMES];
       or_fail env ''start_frame failed: %d'' (api_start_frame api True) (do {
       acquire env api (map of_nat [0..<NUM_FRAMES]);
       radar_stop env api
       })}))"
  have set_up: "radar_report env api (calls t) (run_state ?set_up t)" for t
    by (intro radar_report_or_fail radar_report_log radar_report_acquire config_quiet limit_quiet start_quiet)
  show ?thesis
    unfolding radar_main_def
  proof (rule radar_report_log)
    fix t
    show "radar_report env api (calls t) (run_state (do {
        ready \<leftarrow> code env (App device_is_ready);
        if ready = 0 then do {
          LOG_MSG env ''RADAR sensor device is not ready'' [];
          return (Some (- ENODEV))
        }
        else do {
          LOG_MSG env ''Sensor ready (CHIP_ID verified during init)'' [];
          LOG_MSG env ''Configuring sensor (%u registers)...'' [int (length radar_regs)];
          ?set_up
        }}) t)"
    proof (cases "fst (env (calls t) (App device_is_ready)) = 0")
      case True
      then show ?thesis by (auto simp: split_beta radar_report_def)
    next
      case False
      let ?u = "t\<lparr>calls := calls t @ [(App device_is_ready, env (calls t) (App device_is_ready))]\<rparr>"
      have "radar_report env api (calls ?u) (run_state (do {
          LOG_MSG env ''Sensor ready (CHIP_ID verified during init)'' [];
          LOG_MSG env ''Configuring sensor (%u registers)...'' [int (length radar_regs)];
          ?set_up }) ?u)"
        by (intro radar_report_log set_up)
      then show ?thesis using False by (simp add: radar_report_def)
    qed
  qed
qed

end

text \<open>
  Property C33. Whatever the driver, the sensor and the clock answer, a run of the demo logs the
  lines of at most ten frames, numbered from zero and each over exactly 128 samples of 12 bits.
  A run that returns does so with a negative code before any line; every other run ends by
  stopping the sensor and sleeps for ever.
\<close>

theorem radar_demo_reports:
  "\<exists>xss. frame_lines (calls (final (radar_main env (bgt60tr13c_api_funcs env)) s)) =
       frame_lines (calls s) @ map2 line_of (map of_nat [0..<length xss]) xss \<and>
     length xss \<le> 10 \<and> list_all (\<lambda>xs. length xs = 128 \<and> list_all (\<lambda>x. unat x < 4096) xs) xss \<and>
     (case result (radar_main env (bgt60tr13c_api_funcs env)) s of
        Some e \<Rightarrow> e < 0 \<and> xss = []
      | None \<Rightarrow> \<exists>t. run_state (radar_main env (bgt60tr13c_api_funcs env)) s =
          run_state (radar_stop env (bgt60tr13c_api_funcs env)) t)"
  using bgt.radar_main_report [of env env s] unfolding radar_report_def frame_ok_def .

text \<open>
  The recipe's words are register writes to strictly ascending addresses of seven
  bits, none to a status register or the FIFO; the word for MAIN neither starts a frame nor sets a
  reset bit; and the frame size passes the driver's check and exactly fits its limit field.
\<close>

theorem radar_regs_sound:
  "length radar_regs = 38 \<and> list_all (\<lambda>w. bit w 24) radar_regs \<and>
   sorted_wrt (<) (map word_addr radar_regs) \<and>
   set (map word_addr radar_regs) \<inter> {BGT60TR13C_REG_CHIP_ID, BGT60TR13C_REG_FSTAT, BGT60TR13C_REG_FIFO} = {} \<and>
   word_addr (hd radar_regs) = BGT60TR13C_REG_MAIN \<and>
   hd radar_regs AND (BGT60TR13C_MAIN_FRAME_START OR BGT60TR13C_RESET_SW OR BGT60TR13C_RESET_FSM OR
     BGT60TR13C_RESET_FIFO) = 0 \<and>
   unat (take_bit 13 (with_limit RADAR_NUM_SAMPLES_PER_FRAME tmp)) = 63"
proof -
  have "unat (take_bit 13 (with_limit RADAR_NUM_SAMPLES_PER_FRAME tmp)) = 63"
    unfolding with_limit_field
    using limit_value [of RADAR_NUM_SAMPLES_PER_FRAME] by (simp add: RADAR_NUM_SAMPLES_PER_FRAME_def)
  moreover have "map word_addr radar_regs =
      [0x00, 0x01, 0x04, 0x05, 0x06, 0x07, 0x08, 0x09, 0x0a, 0x0b, 0x0c, 0x0d, 0x0e, 0x0f, 0x10, 0x11, 0x12,
       0x16, 0x1d, 0x24, 0x2b, 0x2c, 0x2d, 0x2e, 0x2f, 0x30, 0x31, 0x32, 0x33, 0x34, 0x35, 0x36, 0x37,
       0x3f, 0x47, 0x4f, 0x56, 0x5b]"
    by (simp add: radar_regs_def word_addr_def)
  ultimately show ?thesis
    by (simp add: radar_regs_def word_addr_def BGT60TR13C_REG_CHIP_ID_def BGT60TR13C_REG_FSTAT_def
        BGT60TR13C_REG_FIFO_def BGT60TR13C_REG_MAIN_def BGT60TR13C_MAIN_FRAME_START_def
        BGT60TR13C_RESET_SW_def BGT60TR13C_RESET_FSM_def BGT60TR13C_RESET_FIFO_def)
qed

end
