(* ===== verification/Radar_Stream.thy ===== *)
theory Radar_Stream
  imports Radar_Demo
begin

text \<open>
  The radar streamer on the CM55 (\<open>apps/10_pse84_ai_m55_udp_radar/src/main.c\<close>): the packet
  format, opening the socket and the streaming loop. It is the second client of the interface
  \<open>radar_source\<close>. The endless loop is given an amount of fuel, one unit a frame; \<open>None\<close> means that
  it is still streaming when the fuel is spent.
\<close>

section \<open>The packet\<close>

definition PACKET_HDR_BYTES :: nat where "PACKET_HDR_BYTES = 16"
definition PACKET_BYTES :: nat where "PACKET_BYTES = 272"
definition PACKET_MAGIC :: u32 where "PACKET_MAGIC = 0x52544742"

fun put_samples :: "nat \<Rightarrow> u16 list \<Rightarrow> u8 list \<Rightarrow> u8 list" where
  "put_samples i [] packet = packet"
| "put_samples i (b # buf) packet =
     put_samples (Suc i) buf (write_at (PACKET_HDR_BYTES + i * 2) (bytes_le 2 b) packet)"

definition build_packet :: "u32 \<Rightarrow> u64 \<Rightarrow> u16 list \<Rightarrow> u8 list \<Rightarrow> u8 list" where
  "build_packet seq timestamp_ns buf packet =
     put_samples 0 buf
       (write_at 8 (bytes_le 8 timestamp_ns)
         (write_at 4 (bytes_le 4 seq)
           (write_at 0 (bytes_le 4 PACKET_MAGIC) packet)))"

text \<open>What the receiver (\<open>host/udp_server.py\<close>) makes of the bytes.\<close>

fun words16 :: "u8 list \<Rightarrow> u16 list" where
  "words16 (a # b # bs) = word_le [a, b] # words16 bs"
| "words16 _ = []"

definition parse_packet :: "u8 list \<Rightarrow> (u32 \<times> u64 \<times> u16 list) option" where
  "parse_packet p =
     (if length p = 272 \<and> take 4 p = map (of_char :: char \<Rightarrow> u8) ''BGTR''
      then Some (word_le (take 4 (drop 4 p)), word_le (take 8 (drop 8 p)), words16 (drop 16 p))
      else None)"

lemma write_at_append:
  "length a = k \<Longrightarrow> length mid = length xs \<Longrightarrow> write_at k xs (a @ mid @ c) = a @ xs @ c"
proof (induction xs arbitrary: k a mid)
  case (Cons x xs)
  then obtain m mid' where mid: "mid = m # mid'" by (cases mid) auto
  have "write_at (Suc k) xs ((a @ [x]) @ mid' @ c) = (a @ [x]) @ xs @ c"
    using Cons by (intro Cons.IH) (simp_all add: mid)
  then show ?case using Cons.prems by (simp add: mid list_update_append)
qed simp

lemma put_samples_fill:
  "length a = PACKET_HDR_BYTES + i * 2 \<Longrightarrow> length mid = 2 * length buf \<Longrightarrow>
   put_samples i buf (a @ mid @ c) = a @ concat (map (bytes_le 2) buf) @ c"
proof (induction buf arbitrary: i a mid)
  case (Cons b buf)
  then obtain m n mid' where mid: "mid = [m, n] @ mid'"
    by (cases mid; cases "tl mid") auto
  have w: "write_at (PACKET_HDR_BYTES + i * 2) (bytes_le 2 b) (a @ [m, n] @ mid' @ c) =
      (a @ bytes_le 2 b) @ mid' @ c"
    using write_at_append [of a _ "[m, n]" "bytes_le 2 b" "mid' @ c"] Cons.prems by simp
  have "put_samples (Suc i) buf ((a @ bytes_le 2 b) @ mid' @ c) =
      (a @ bytes_le 2 b) @ concat (map (bytes_le 2) buf) @ c"
    using Cons.prems by (intro Cons.IH) (simp_all add: mid)
  then show ?case using w by (simp add: mid)
qed simp

lemma build_packet_layout:
  assumes "length packet = PACKET_BYTES" and "length buf = 128"
  shows "build_packet seq ts buf packet =
    bytes_le 4 PACKET_MAGIC @ bytes_le 4 seq @ bytes_le 8 ts @ concat (map (bytes_le 2) buf)"
proof -
  obtain a b c d where p: "packet = a @ b @ c @ d"
    "length a = 4" "length b = 4" "length c = 8" "length d = 256"
  proof
    show "packet = take 4 packet @ take 4 (drop 4 packet) @ take 8 (drop 8 packet) @ drop 16 packet"
      by (metis (no_types, lifting) add_numeral_left append_take_drop_id drop_drop numeral_Bit0)
  qed (use assms in \<open>simp_all add: PACKET_BYTES_def\<close>)
  have "write_at 0 (bytes_le 4 PACKET_MAGIC) packet = bytes_le 4 PACKET_MAGIC @ b @ c @ d"
    using write_at_append [of "[]" 0 a "bytes_le 4 PACKET_MAGIC" "b @ c @ d"] p by simp
  moreover have "write_at 4 (bytes_le 4 seq) (bytes_le 4 PACKET_MAGIC @ b @ c @ d) =
      bytes_le 4 PACKET_MAGIC @ bytes_le 4 seq @ c @ d"
    using p by (intro write_at_append) simp_all
  moreover have "write_at 8 (bytes_le 8 ts) ((bytes_le 4 PACKET_MAGIC @ bytes_le 4 seq) @ c @ d) =
      (bytes_le 4 PACKET_MAGIC @ bytes_le 4 seq) @ bytes_le 8 ts @ d"
    using p by (intro write_at_append) simp_all
  moreover have "put_samples 0 buf ((bytes_le 4 PACKET_MAGIC @ bytes_le 4 seq @ bytes_le 8 ts) @ d @ []) =
      (bytes_le 4 PACKET_MAGIC @ bytes_le 4 seq @ bytes_le 8 ts) @ concat (map (bytes_le 2) buf) @ []"
    using p assms(2) by (intro put_samples_fill) (simp_all add: PACKET_HDR_BYTES_def)
  ultimately show ?thesis by (simp add: build_packet_def)
qed

lemma words16_bytes: "words16 (concat (map (bytes_le 2) buf)) = buf"
proof (induction buf)
  case (Cons b buf)
  have two: "[0..<2] = [0, 1::nat]" by (simp add: upt_rec)
  have "word_le (bytes_le 2 b) = b" by (rule word_le_bytes_le) simp
  with Cons show ?case by (simp add: bytes_le_def two)
qed simp

lemma parse_build_packet:
  assumes "length packet = PACKET_BYTES" and "length buf = 128"
  shows "parse_packet (build_packet seq ts buf packet) = Some (seq, ts, buf)"
proof -
  have "length (concat (map (bytes_le 2) bs)) = 2 * length bs" for bs :: "u16 list"
    by (induction bs) simp_all
  moreover have "bytes_le 4 PACKET_MAGIC = map of_char ''BGTR''"
  proof -
    have "[0..<4] = [0, 1, 2, 3::nat]" by (simp add: upt_rec)
    then show ?thesis by (simp add: bytes_le_def PACKET_MAGIC_def)
  qed
  moreover have "word_le (bytes_le 4 seq) = seq" "word_le (bytes_le 8 ts) = ts"
    by (rule word_le_bytes_le; simp)+
  ultimately show ?thesis
    using assms(2) by (simp add: build_packet_layout [OF assms] parse_packet_def words16_bytes)
qed

text \<open>
  Property C32. Whatever the packet buffer held before, building a packet from a sequence number, a
  time stamp and 128 samples gives 272 bytes that begin with the letters BGTR, and reading the
  header and the samples back as little-endian numbers gives the same sequence number, time stamp
  and samples.
\<close>

theorem packet_roundtrip:
  assumes "length packet = PACKET_BYTES" and "length buf = 128"
  shows "parse_packet (build_packet seq ts buf packet) = Some (seq, ts, buf) \<and>
    length (build_packet seq ts buf packet) = 272"
  using parse_build_packet [OF assms, of seq ts] by (auto simp: parse_packet_def split: if_splits)

lemma packet_roundtrip_witness:
  "parse_packet (build_packet 7 5000000 (replicate 128 0xABC) (replicate PACKET_BYTES 0)) =
     Some (7, 5000000, replicate 128 0xABC)"
  using packet_roundtrip [of "replicate PACKET_BYTES 0" "replicate 128 0xABC" 7 5000000] by simp

section \<open>The socket\<close>

definition UDP_SERVER_IP :: string where "UDP_SERVER_IP = ''192.168.178.22''"

definition udp_socket_open :: "bgt_env \<Rightarrow> int bgt_prog" where
  "udp_socket_open env = do {
     sock \<leftarrow> code env (App zsock_socket);
     if sock < 0 then do {
       e \<leftarrow> code env (App errno);
       LOG_MSG env ''socket() failed: %d'' [e];
       e \<leftarrow> code env (App errno);
       return (- e)
     }
     else do {
       ok \<leftarrow> code env (App (zsock_inet_pton UDP_SERVER_IP));
       if ok \<noteq> 1 then do {
         LOG_MSG env ''Invalid UDP_SERVER_IP'' [];
         tell env (App (zsock_close sock));
         return (- EINVAL)
       }
       else do {
         c \<leftarrow> code env (App (zsock_connect sock));
         if c < 0 then do {
           e \<leftarrow> code env (App errno);
           LOG_MSG env ''connect() failed: %d'' [e];
           tell env (App (zsock_close sock));
           e \<leftarrow> code env (App errno);
           return (- e)
         }
         else do {
           LOG_MSG env ''UDP socket'' [];
           return sock
         }
       }
     }
   }"

section \<open>Streaming\<close>

text \<open>The counters of the loop, and the packet buffer, which keeps its bytes between frames.\<close>

record stream =
  seq :: u32
  sent_ok :: u32
  dropped :: u32
  packet :: "u8 list"

definition SUMMARY_EVERY_N_FRAMES :: u32 where "SUMMARY_EVERY_N_FRAMES = 1000"

text \<open>One turn of the loop: the code that ends it, or the counters for the next turn.\<close>

definition stream_frame :: "bgt_env \<Rightarrow> bgt60tr13c_api \<Rightarrow> int \<Rightarrow> stream \<Rightarrow> (int + stream) bgt_prog" where
  "stream_frame env api sock v = do {
     ret \<leftarrow> api_wait_fifo_ready api FIFO_IRQ_TIMEOUT;
     if ret < 0 then do {
       LOG_MSG env ''wait_fifo_ready failed: %d'' [ret];
       return (Inl ret)
     }
     else do {
       r \<leftarrow> api_get_fifo_data api RADAR_NUM_SAMPLES_PER_FRAME;
       case r of
         Inl ret \<Rightarrow> do {
           LOG_MSG env ''get_fifo_data failed: %d'' [ret];
           return (Inl ret)
         }
       | Inr samples \<Rightarrow> do {
           up \<leftarrow> code env (App k_uptime_get);
           let p = build_packet (seq v) (of_int up * 1000000) samples (packet v);
           ret \<leftarrow> code env (App (zsock_send sock p));
           let v = (if ret = int PACKET_BYTES then v\<lparr>sent_ok := sent_ok v + 1\<rparr>
                    else v\<lparr>dropped := dropped v + 1\<rparr>);
           (if (seq v + 1) mod SUMMARY_EVERY_N_FRAMES = 0 then do {
              up \<leftarrow> code env (App wifi_connect_is_up);
              LOG_MSG env ''seq=%u sent=%u dropped=%u link=%s''
                [uint (seq v + 1), uint (sent_ok v), uint (dropped v), up]
            }
            else return ());
           return (Inr (v\<lparr>seq := seq v + 1, packet := p\<rparr>))
         }
     }
   }"

primrec stream_loop :: "bgt_env \<Rightarrow> bgt60tr13c_api \<Rightarrow> int \<Rightarrow> nat \<Rightarrow> stream \<Rightarrow> (int \<times> stream) option bgt_prog"
  where
  "stream_loop env api sock 0 v = return None"
| "stream_loop env api sock (Suc fuel) v = do {
     r \<leftarrow> stream_frame env api sock v;
     case r of
       Inl ret \<Rightarrow> return (Some (ret, v))
     | Inr v \<Rightarrow> stream_loop env api sock fuel v
   }"

definition stream_stop :: "bgt_env \<Rightarrow> bgt60tr13c_api \<Rightarrow> int \<Rightarrow> int \<times> stream \<Rightarrow> int option bgt_prog" where
  "stream_stop env api sock = (\<lambda>(ret, v). do {
     api_start_frame api False;
     tell env (App (zsock_close sock));
     LOG_MSG env ''Streaming stopped: seq=%u sent=%u dropped=%u''
       [uint (seq v), uint (sent_ok v), uint (dropped v)];
     return (Some ret)
   })"

definition stream_setup :: "bgt_env \<Rightarrow> bgt60tr13c_api \<Rightarrow> int option bgt_prog \<Rightarrow> int option bgt_prog" where
  "stream_setup env api k =
     or_fail env ''config failed: %d'' (api_config api radar_regs) (
     or_fail env ''set_fifo_limit failed: %d'' (api_set_fifo_limit api RADAR_NUM_SAMPLES_PER_FRAME) (
     or_fail env ''start_frame failed: %d'' (api_start_frame api True) k))"

definition stream_main :: "bgt_env \<Rightarrow> bgt60tr13c_api \<Rightarrow> nat \<Rightarrow> int option bgt_prog" where
  "stream_main env api fuel = do {
     LOG_MSG env ''Hello from project 10_pse84_ai_m55_udp_radar'' [];
     ready \<leftarrow> code env (App device_is_ready);
     if ready = 0 then do {
       LOG_MSG env ''RADAR sensor device is not ready'' [];
       return (Some (- ENODEV))
     }
     else do {
       LOG_MSG env ''Radar sensor ready (CHIP_ID verified during init)'' [];
       or_fail env ''wifi_connect_start failed: %d'' (code env (App wifi_connect_start)) (do {
       up \<leftarrow> code env (App (wifi_connect_wait_up 30000));
       (if up < 0 then LOG_MSG env ''Wi-Fi not yet up after timeout'' [] else return ());
       sock \<leftarrow> udp_socket_open env;
       if sock < 0 then return (Some sock)
       else do {
         LOG_MSG env ''Configuring sensor (%u registers)...'' [int (length radar_regs)];
         stream_setup env api (do {
           LOG_MSG env ''Streaming started'' [int PACKET_BYTES];
           r \<leftarrow> stream_loop env api sock fuel
             \<lparr>seq = 0, sent_ok = 0, dropped = 0, packet = replicate PACKET_BYTES 0\<rparr>;
           case r of None \<Rightarrow> return None | Some e \<Rightarrow> stream_stop env api sock e
         })
       }
     })}
   }"

section \<open>What is sent\<close>

definition sends :: "(bgt_call \<times> bgt_answer) list \<Rightarrow> (int \<times> u8 list \<times> int) list" where
  "sends h = concat (map (\<lambda>(c, r). case c of App (zsock_send sock p) \<Rightarrow> [(sock, p, fst r)] | _ \<Rightarrow> []) h)"

lemma sends_append [simp]: "sends (h @ h') = sends h @ sends h'"
  by (simp add: sends_def)

primrec no_send_app :: "app_call \<Rightarrow> bool" where
  "no_send_app device_is_ready = True"
| "no_send_app (LOG f as) = True"
| "no_send_app (LOG_line l) = True"
| "no_send_app wifi_connect_start = True"
| "no_send_app (wifi_connect_wait_up t) = True"
| "no_send_app wifi_connect_is_up = True"
| "no_send_app zsock_socket = True"
| "no_send_app (zsock_inet_pton a) = True"
| "no_send_app (zsock_connect s) = True"
| "no_send_app (zsock_close s) = True"
| "no_send_app (zsock_send s p) = False"
| "no_send_app errno = True"
| "no_send_app k_uptime_get = True"
| "no_send_app (Cy_SysClk_ClkHfIsEnabled n) = True"
| "no_send_app (Cy_SysClk_ClkHfSetSource n) = True"
| "no_send_app (Cy_SysClk_ClkHfSetDivider n) = True"
| "no_send_app (Cy_SysClk_ClkHfEnable n) = True"
| "no_send_app (Cy_SysClk_ClkHfGetFrequency n) = True"

definition no_send :: "bgt_call \<Rightarrow> bool" where
  "no_send c = (case c of App a \<Rightarrow> no_send_app a | _ \<Rightarrow> True)"

lemma sends_none: "list_all (no_send \<circ> fst) h \<Longrightarrow> sends h = []"
  by (induction h) (auto simp: sends_def no_send_def split: bgt_call.splits app_call.splits)

lemma driver_no_send: "driver_call c \<Longrightarrow> no_send c"
  by (cases c) (simp_all add: no_send_def)

lemma sends_quiet: "quiet no_send m \<Longrightarrow> sends (calls (final m s)) = sends (calls s)"
  by (elim quietE [of _ _ s]) (simp add: sends_none)

lemma sends_driver: "quiet driver_call m \<Longrightarrow> sends (calls (final m s)) = sends (calls s)"
  by (intro sends_quiet) (rule quiet_mono, assumption, rule driver_no_send)

lemma sends_one [simp]:
  "sends [(App (zsock_send sock p), r)] = [(sock, p, fst r)]"
  "sends [(App k_uptime_get, r)] = []" "sends [(App wifi_connect_is_up, r)] = []"
  "sends [(App (zsock_send sock p), r), x] = (sock, p, fst r) # sends [x]"
  "sends [(App k_uptime_get, r), x] = sends [x]"
  "sends (x # y # z # h) = sends [x] @ sends (y # z # h)"
  by (simp_all add: sends_def split: prod.split)

lemma no_send_app_call [simp]: "no_send (App a) = no_send_app a"
  by (simp add: no_send_def)

lemma quiet_LOG_MSG [quiet_intros]: "quiet no_send (LOG_MSG env f as)"
  unfolding LOG_MSG_def by (intro quiet_intros) simp

text \<open>
  A send in order: on the socket, of a packet that the receiver reads as the sequence number with
  128 samples of 12 bits.
\<close>

definition good_send :: "int \<Rightarrow> u32 \<Rightarrow> int \<times> u8 list \<times> int \<Rightarrow> bool" where
  "good_send sock n x = (fst x = sock \<and>
     (case parse_packet (fst (snd x)) of Some (i, ts, xs) \<Rightarrow> i = n \<and> frame_ok xs | None \<Rightarrow> False))"

definition delivered :: "int \<times> u8 list \<times> int \<Rightarrow> bool" where
  "delivered x \<longleftrightarrow> snd (snd x) = 272"

text \<open>Sends numbered from \<open>n\<close>, modulo \<open>2 ^ 32\<close>.\<close>

fun numbered :: "int \<Rightarrow> u32 \<Rightarrow> (int \<times> u8 list \<times> int) list \<Rightarrow> bool" where
  "numbered sock n [] = True"
| "numbered sock n (x # xs) = (good_send sock n x \<and> numbered sock (n + 1) xs)"

text \<open>Counters that agree with what was sent.\<close>

definition counts :: "stream \<Rightarrow> (int \<times> u8 list \<times> int) list \<Rightarrow> bool" where
  "counts v xs \<longleftrightarrow> seq v = of_nat (length xs) \<and> sent_ok v = of_nat (length (filter delivered xs)) \<and>
     dropped v = of_nat (length (filter (\<lambda>x. \<not> delivered x) xs))"

definition stream_report ::
  "bgt_env \<Rightarrow> bgt60tr13c_api \<Rightarrow> nat \<Rightarrow> (bgt_call \<times> bgt_answer) list \<Rightarrow> int option \<times> bgt_data \<Rightarrow> bool" where
  "stream_report env api fuel h r \<longleftrightarrow>
     (\<exists>sock xs. sends (calls (snd r)) = sends h @ xs \<and> numbered sock 0 xs \<and> length xs \<le> fuel \<and>
       (case fst r of
          None \<Rightarrow> length xs = fuel
        | Some ret \<Rightarrow> xs = [] \<or> (\<exists>v t. counts v xs \<and> r = run_state (stream_stop env api sock (ret, v)) t)))"

lemma stream_report_early: "sends (calls t) = sends h \<Longrightarrow> stream_report env api fuel h (Some e, t)"
  by (auto simp: stream_report_def intro!: exI [of _ "[]"])

lemma stream_report_quiet:
  assumes "quiet no_send m"
    and "\<And>t x. stream_report env api fuel (calls t) (run_state (k x) t)"
  shows "stream_report env api fuel (calls s) (run_state (m \<bind> k) s)"
proof -
  have "run_state (m \<bind> k) s = run_state (k (result m s)) (final m s)" by (simp add: split_beta)
  then show ?thesis
    using assms(2) [of "final m s" "result m s"] sends_quiet [OF assms(1), of s]
    by (simp add: stream_report_def)
qed

lemma stream_report_if:
  "(b \<Longrightarrow> stream_report env api fuel h (run_state m s)) \<Longrightarrow>
   (\<not> b \<Longrightarrow> stream_report env api fuel h (run_state k s)) \<Longrightarrow>
   stream_report env api fuel h (run_state (if b then m else k) s)"
  by (cases b) simp_all

lemma stream_report_return: "stream_report env api fuel (calls s) (run_state (return (Some e)) s)"
  by (simp add: stream_report_early)

lemma quiet_socket: "quiet no_send (udp_socket_open env)"
  unfolding udp_socket_open_def by (intro quiet_intros) simp_all

context radar_source begin

lemma stream_frame_sends:
  assumes len: "length (packet v) = PACKET_BYTES"
  obtains ret where "result (stream_frame env api sock v) s = Inl ret"
      "sends (calls (final (stream_frame env api sock v) s)) = sends (calls s)"
  | x where "result (stream_frame env api sock v) s =
        Inr \<lparr>seq = seq v + 1, sent_ok = sent_ok v + of_bool (delivered x),
          dropped = dropped v + of_bool (\<not> delivered x), packet = fst (snd x)\<rparr>"
      "sends (calls (final (stream_frame env api sock v) s)) = sends (calls s) @ [x]"
      "good_send sock (seq v) x" "length (fst (snd x)) = PACKET_BYTES"
proof -
  let ?wait = "api_wait_fifo_ready api FIFO_IRQ_TIMEOUT"
  let ?data = "api_get_fifo_data api RADAR_NUM_SAMPLES_PER_FRAME"
  let ?t = "final ?data (final ?wait s)"
  have quiet: "sends (calls (final ?wait s)) = sends (calls s)"
    "sends (calls ?t) = sends (calls (final ?wait s))"
    by (intro sends_driver wait_quiet data_quiet)+
  have log: "sends (calls (final (LOG_MSG env f as) u)) = sends (calls u)" for f as u
    by (intro sends_quiet quiet_intros)
  show thesis
  proof (cases "result ?wait s < 0")
    case True
    show thesis
      by (rule that(1)) (use True quiet in \<open>simp_all add: stream_frame_def split_beta log\<close>)
  next
    case False
    note go = False
    show thesis
    proof (cases "result ?data (final ?wait s)")
      case (Inl ret)
      show thesis
        by (rule that(1)) (use go Inl quiet in \<open>simp_all add: stream_frame_def split_beta log\<close>)
    next
      case (Inr xs)
      define up where "up = env (calls ?t) (App k_uptime_get)"
      define p where "p = build_packet (seq v) (of_int (fst up) * 1000000) xs (packet v)"
      define r where "r = env (calls ?t @ [(App k_uptime_get, up)]) (App (zsock_send sock p))"
      have ok: "frame_ok xs"
        using data_shape [OF Inr] by (simp add: frame_ok_def RADAR_NUM_SAMPLES_PER_FRAME_def)
      have len': "length xs = 128" using ok by (simp add: frame_ok_def)
      have parse: "parse_packet p = Some (seq v, of_int (fst up) * 1000000, xs)"
        unfolding p_def by (rule parse_build_packet [OF len len'])
      have final: "result (stream_frame env api sock v) s =
          Inr \<lparr>seq = seq v + 1, sent_ok = sent_ok v + of_bool (delivered (sock, p, fst r)),
            dropped = dropped v + of_bool (\<not> delivered (sock, p, fst r)), packet = p\<rparr>"
        "sends (calls (final (stream_frame env api sock v) s)) = sends (calls s) @ [(sock, p, fst r)]"
        using go Inr quiet
        by (simp_all add: stream_frame_def split_beta Let_def log delivered_def PACKET_BYTES_def
            up_def p_def r_def)
      show thesis
        by (rule that(2) [of "(sock, p, fst r)"])
          (use final parse ok in \<open>auto simp: good_send_def parse_packet_def PACKET_BYTES_def split: if_splits\<close>)
    qed
  qed
qed

lemma stream_loop_sends:
  assumes "length (packet v) = PACKET_BYTES"
  shows "\<exists>xs. sends (calls (final (stream_loop env api sock fuel v) s)) = sends (calls s) @ xs \<and>
    numbered sock (seq v) xs \<and> length xs \<le> fuel \<and>
    (case result (stream_loop env api sock fuel v) s of
       None \<Rightarrow> length xs = fuel
     | Some (ret, w) \<Rightarrow> seq w = seq v + of_nat (length xs) \<and>
         sent_ok w = sent_ok v + of_nat (length (filter delivered xs)) \<and>
         dropped w = dropped v + of_nat (length (filter (\<lambda>x. \<not> delivered x) xs)))"
  using assms
proof (induction fuel arbitrary: v s)
  case 0
  show ?case by (intro exI [of _ "[]"]) simp
next
  case (Suc fuel)
  show ?case
  proof (rule stream_frame_sends [OF Suc.prems, of env sock s])
    fix ret assume "result (stream_frame env api sock v) s = Inl ret"
      "sends (calls (final (stream_frame env api sock v) s)) = sends (calls s)"
    then show ?thesis by (intro exI [of _ "[]"]) (simp add: split_beta)
  next
    fix x
    define w where "w = \<lparr>seq = seq v + 1, sent_ok = sent_ok v + of_bool (delivered x),
      dropped = dropped v + of_bool (\<not> delivered x), packet = fst (snd x)\<rparr>"
    assume x: "result (stream_frame env api sock v) s =
        Inr \<lparr>seq = seq v + 1, sent_ok = sent_ok v + of_bool (delivered x),
          dropped = dropped v + of_bool (\<not> delivered x), packet = fst (snd x)\<rparr>"
      "sends (calls (final (stream_frame env api sock v) s)) = sends (calls s) @ [x]"
      "good_send sock (seq v) x" "length (fst (snd x)) = PACKET_BYTES"
    have run: "run_state (stream_loop env api sock (Suc fuel) v) s =
        run_state (stream_loop env api sock fuel w) (final (stream_frame env api sock v) s)"
      using x(1) by (simp add: split_beta w_def)
    have "length (packet w) = PACKET_BYTES" using x(4) by (simp add: w_def)
    then obtain xs where xs: "sends (calls (final (stream_loop env api sock (Suc fuel) v) s)) =
        sends (calls s) @ x # xs"
      "numbered sock (seq w) xs" "length xs \<le> fuel"
      "case result (stream_loop env api sock (Suc fuel) v) s of
       None \<Rightarrow> length xs = fuel
     | Some (ret, u) \<Rightarrow> seq u = seq w + of_nat (length xs) \<and>
         sent_ok u = sent_ok w + of_nat (length (filter delivered xs)) \<and>
         dropped u = dropped w + of_nat (length (filter (\<lambda>x. \<not> delivered x) xs))"
      using Suc.IH [of w "final (stream_frame env api sock v) s"] x(2)
      unfolding run by auto
    then show ?thesis
      by (intro exI [of _ "x # xs"])
        (use x(3) in \<open>auto simp: w_def add.commute add.left_commute simp del: stream_loop.simps split: option.splits\<close>)
  qed
qed

lemma stream_report_or_fail:
  assumes m: "quiet driver_call m" and k: "\<And>t. stream_report env api fuel (calls t) (run_state k t)"
  shows "stream_report env api fuel (calls s) (run_state (or_fail env msg m k) s)"
proof (cases "result m s < 0")
  case True
  let ?t = "final (LOG_MSG env msg [result m s]) (final m s)"
  have "sends (calls ?t) = sends (calls s)"
    by (simp add: sends_quiet [OF quiet_LOG_MSG] sends_driver [OF m])
  with True show ?thesis
    using stream_report_early [of ?t "calls s" env api fuel "result m s"]
    by (simp add: or_fail_def split_beta)
next
  case False
  then show ?thesis
    using k [of "final m s"] by (simp add: or_fail_def split_beta stream_report_def sends_driver [OF m])
qed

lemma stream_stop_sends: "sends (calls (final (stream_stop env api sock e) s)) = sends (calls s)"
proof -
  have "quiet no_send (stream_stop env api sock e)"
    unfolding stream_stop_def
    by (cases e) (auto intro!: quiet_intros quiet_mono [OF start_quiet driver_no_send])
  then show ?thesis by (rule sends_quiet)
qed

lemma stream_report_loop:
  "stream_report env api fuel (calls s) (run_state (do {
     r \<leftarrow> stream_loop env api sock fuel \<lparr>seq = 0, sent_ok = 0, dropped = 0, packet = replicate PACKET_BYTES 0\<rparr>;
     case r of None \<Rightarrow> return None | Some e \<Rightarrow> stream_stop env api sock e }) s)"
proof -
  let ?v = "\<lparr>seq = 0, sent_ok = 0, dropped = 0, packet = replicate PACKET_BYTES 0\<rparr>"
  let ?loop = "stream_loop env api sock fuel ?v"
  obtain xs where xs: "sends (calls (final ?loop s)) = sends (calls s) @ xs" "numbered sock 0 xs"
    "length xs \<le> fuel" "case result ?loop s of
       None \<Rightarrow> length xs = fuel
     | Some (ret, w) \<Rightarrow> seq w = of_nat (length xs) \<and> sent_ok w = of_nat (length (filter delivered xs)) \<and>
         dropped w = of_nat (length (filter (\<lambda>x. \<not> delivered x) xs))"
    using stream_loop_sends [of ?v env sock fuel s] by (auto cong: option.case_cong)
  show ?thesis
  proof (cases "result ?loop s")
    case None
    with xs show ?thesis
      unfolding stream_report_def by (intro exI [of _ sock] exI [of _ xs]) (simp add: split_beta)
  next
    case (Some e)
    obtain ret w where e: "e = (ret, w)" by (cases e)
    have "counts w xs" using xs(4) by (simp add: Some e counts_def)
    moreover have "result (stream_stop env api sock (ret, w)) t = Some ret" for t
      by (simp add: stream_stop_def split_beta)
    ultimately show ?thesis
      using xs unfolding stream_report_def
      by (intro exI [of _ sock] exI [of _ xs]) (auto simp: split_beta Some e stream_stop_sends)
  qed
qed

lemma stream_report_main: "stream_report env api fuel (calls s) (run_state (stream_main env api fuel) s)"
  unfolding stream_main_def stream_setup_def or_fail_def [of _ _ "code env (App wifi_connect_start)"]
  by (intro stream_report_quiet stream_report_if stream_report_return stream_report_or_fail
      stream_report_loop quiet_LOG_MSG quiet_code quiet_socket quiet_if quiet_return
      config_quiet limit_quiet start_quiet) simp_all

end

text \<open>
  Property C31. Whatever the driver, the network and the Wi-Fi manager answer, the streamer sends
  packets only on one socket, which the receiver reads as the sequence numbers 0, 1, 2 and on,
  each with 128 samples of 12 bits. No answer of the network ends or delays the loop: still
  streaming after any number of frames, it made one non-blocking send for each. When it stops
  after sending, it has stopped the sensor and closed the socket, and its counters agree, modulo
  \<open>2 ^ 32\<close>, with the packets sent in full and the others.
\<close>

theorem stream_sends_numbered_frames:
  "\<exists>sock xs. sends (calls (final (stream_main env (bgt60tr13c_api_funcs env) fuel) s)) = sends (calls s) @ xs \<and>
     numbered sock 0 xs \<and> length xs \<le> fuel \<and>
     (case result (stream_main env (bgt60tr13c_api_funcs env) fuel) s of
        None \<Rightarrow> length xs = fuel
      | Some ret \<Rightarrow> xs = [] \<or> (\<exists>v t. counts v xs \<and>
          run_state (stream_main env (bgt60tr13c_api_funcs env) fuel) s =
          run_state (stream_stop env (bgt60tr13c_api_funcs env) sock (ret, v)) t))"
  using bgt.stream_report_main [of env env fuel s] unfolding stream_report_def .

end
