(* ===== verification/Wifi_Connect.thy ===== *)
theory Wifi_Connect
  imports Prelude
begin

text \<open>
  The Wi-Fi manager of the radar streamer (\<open>apps/10_pse84_ai_m55_udp_radar/src/wifi_connect.c\<close>): the
  connect work, the handlers of the network events and the calls other threads make. The network
  stack, the work queue and the semaphore are external. The order in which works and events run
  is not determined: \<open>wifi_reach\<close> has every order. One work or handler is one step, so races of two
  threads inside them, on \<open>backoff_ms\<close> for instance, are outside the model. The abstract machine at the end, a count of the
  failures since the last association and whether the link is up, is what the manager promises.
\<close>

section \<open>State and calls\<close>

datatype mgmt_event =
  NET_EVENT_WIFI_CONNECT_RESULT | NET_EVENT_WIFI_DISCONNECT_RESULT
| NET_EVENT_IPV4_ADDR_ADD | NET_EVENT_IPV4_ADDR_DEL | NET_EVENT_OTHER nat

text \<open>
  The request to connect. The credentials are macros of a header that is not in the repository and
  are named by their macros; \<open>SYS_FOREVER_MS\<close> is -1.
\<close>

datatype credential = WIFI_SSID | WIFI_PSK
datatype wifi_security = WIFI_SECURITY_TYPE_PSK
datatype wifi_channel = WIFI_CHANNEL_ANY
datatype wifi_mfp = WIFI_MFP_OPTIONAL

record connect_params =
  ssid :: credential
  psk :: credential
  security :: wifi_security
  channel :: wifi_channel
  mfp :: wifi_mfp
  connect_timeout :: int

definition connect_request :: connect_params where
  "connect_request = \<lparr>ssid = WIFI_SSID, psk = WIFI_PSK, security = WIFI_SECURITY_TYPE_PSK,
     channel = WIFI_CHANNEL_ANY, mfp = WIFI_MFP_OPTIONAL, connect_timeout = -1\<rparr>"

datatype wifi_call =
  net_if_get_first_wifi | net_if_get_default | net_if_ipv4_config | net_addr_ntop
| net_mgmt_wifi_connect connect_params
| k_work_schedule u32 | link_up_sem_init | link_up_sem_give | link_up_sem_reset
| link_up_sem_take u32 | register_wifi_cb "mgmt_event list" | register_ipv4_cb "mgmt_event list"
| wifi_log string "int list"

type_synonym wifi_env = "(wifi_call, int) env"

record wifi = "(wifi_call, int) io" +
  link_up :: bool
  backoff_ms :: u32

type_synonym 'a wifi_prog = "(wifi, 'a) state"

definition RECONNECT_INITIAL_MS :: u32 where "RECONNECT_INITIAL_MS = 5000"
definition RECONNECT_MAX_MS :: u32 where "RECONNECT_MAX_MS = 30000"

definition wifi_boot :: wifi where
  "wifi_boot = \<lparr>calls = [], link_up = False, backoff_ms = RECONNECT_INITIAL_MS\<rparr>"

section \<open>The connect work\<close>

text \<open>The interface, or zero for a null pointer.\<close>

definition get_wifi_iface :: "wifi_env \<Rightarrow> int wifi_prog" where
  "get_wifi_iface env = do {
     iface \<leftarrow> ask env net_if_get_first_wifi;
     if iface \<noteq> 0 then return iface else ask env net_if_get_default
   }"

definition next_backoff :: "u32 \<Rightarrow> u32" where
  "next_backoff b = (if b * 2 < RECONNECT_MAX_MS then b * 2 else RECONNECT_MAX_MS)"

text \<open>\<open>LOG_WRN\<close>, a retry after the present backoff, and the next backoff.\<close>

definition retry_and_back_off :: "wifi_env \<Rightarrow> string \<Rightarrow> int \<Rightarrow> unit wifi_prog" where
  "retry_and_back_off env msg code = do {
     b \<leftarrow> gets backoff_ms;
     tell env (wifi_log msg [code, uint b]);
     tell env (k_work_schedule b);
     modify (backoff_ms_update next_backoff)
   }"

definition connect_work_fn :: "wifi_env \<Rightarrow> unit wifi_prog" where
  "connect_work_fn env = do {
     iface \<leftarrow> get_wifi_iface env;
     if iface = 0 then do {
       b \<leftarrow> gets backoff_ms;
       tell env (wifi_log ''No Wi-Fi interface, retrying in %u ms'' [uint b]);
       tell env (k_work_schedule b)
     }
     else do {
       tell env (wifi_log ''Connecting to SSID'' []);
       ret \<leftarrow> ask env (net_mgmt_wifi_connect connect_request);
       if ret < 0 then retry_and_back_off env ''net_mgmt CONNECT rejected (%d), retry in %u ms'' ret
       else return ()
     }
   }"

section \<open>Events\<close>

text \<open>The status the event carries, or none for a null pointer.\<close>

definition handle_wifi_result :: "wifi_env \<Rightarrow> int option \<Rightarrow> unit wifi_prog" where
  "handle_wifi_result env status =
     (case status of
        Some st \<Rightarrow>
          if st \<noteq> 0 then retry_and_back_off env ''Wi-Fi connect failed (status=%d), retry in %u ms'' st
          else do {
            tell env (wifi_log ''Wi-Fi associated, waiting for DHCP...'' []);
            modify (backoff_ms_update (\<lambda>_. RECONNECT_INITIAL_MS))
          }
      | None \<Rightarrow> do {
          tell env (wifi_log ''Wi-Fi associated, waiting for DHCP...'' []);
          modify (backoff_ms_update (\<lambda>_. RECONNECT_INITIAL_MS))
        })"

definition handle_wifi_disconnect :: "wifi_env \<Rightarrow> unit wifi_prog" where
  "handle_wifi_disconnect env = do {
     modify (link_up_update (\<lambda>_. False));
     tell env link_up_sem_reset;
     tell env (wifi_log ''Wi-Fi disconnected, scheduling reconnect'' []);
     b \<leftarrow> gets backoff_ms;
     tell env (k_work_schedule b)
   }"

definition wifi_mgmt_event_handler :: "wifi_env \<Rightarrow> mgmt_event \<Rightarrow> int option \<Rightarrow> unit wifi_prog" where
  "wifi_mgmt_event_handler env mgmt_event status =
     (case mgmt_event of
        NET_EVENT_WIFI_CONNECT_RESULT \<Rightarrow> handle_wifi_result env status
      | NET_EVENT_WIFI_DISCONNECT_RESULT \<Rightarrow> handle_wifi_disconnect env
      | _ \<Rightarrow> return ())"

definition ipv4_mgmt_event_handler :: "wifi_env \<Rightarrow> mgmt_event \<Rightarrow> unit wifi_prog" where
  "ipv4_mgmt_event_handler env mgmt_event =
     (if mgmt_event = NET_EVENT_IPV4_ADDR_ADD then do {
        ipv4 \<leftarrow> ask env net_if_ipv4_config;
        (if ipv4 \<noteq> 0 then do {
           tell env net_addr_ntop;
           tell env (wifi_log ''IPv4 bound: %s'' [])
         }
         else tell env (wifi_log ''IPv4 bound'' []));
        modify (link_up_update (\<lambda>_. True));
        tell env link_up_sem_give
      }
      else if mgmt_event = NET_EVENT_IPV4_ADDR_DEL then do {
        modify (link_up_update (\<lambda>_. False));
        tell env link_up_sem_reset;
        tell env (wifi_log ''IPv4 address lost'' [])
      }
      else return ())"

section \<open>The interface of the module\<close>

definition wifi_connect_start :: "wifi_env \<Rightarrow> int wifi_prog" where
  "wifi_connect_start env = do {
     tell env link_up_sem_init;
     tell env (register_wifi_cb [NET_EVENT_WIFI_CONNECT_RESULT, NET_EVENT_WIFI_DISCONNECT_RESULT]);
     tell env (register_ipv4_cb [NET_EVENT_IPV4_ADDR_ADD, NET_EVENT_IPV4_ADDR_DEL]);
     tell env (k_work_schedule 0);
     return 0
   }"

definition wifi_connect_wait_up :: "wifi_env \<Rightarrow> u32 \<Rightarrow> int wifi_prog" where
  "wifi_connect_wait_up env timeout = do {
     up \<leftarrow> gets link_up;
     if up then return 0
     else do {
       r \<leftarrow> ask env (link_up_sem_take timeout);
       return (if r = 0 then 0 else - EAGAIN)
     }
   }"

definition wifi_connect_is_up :: "bool wifi_prog" where
  "wifi_connect_is_up = gets link_up"

section \<open>Every order of works, events and calls\<close>

datatype wifi_event =
  Work | Wifi_event mgmt_event "int option" | Ipv4_event mgmt_event | Wait_up u32

definition wifi_handle :: "wifi_env \<Rightarrow> wifi_event \<Rightarrow> unit wifi_prog" where
  "wifi_handle env ev =
     (case ev of
        Work \<Rightarrow> connect_work_fn env
      | Wifi_event e status \<Rightarrow> wifi_mgmt_event_handler env e status
      | Ipv4_event e \<Rightarrow> ipv4_mgmt_event_handler env e
      | Wait_up t \<Rightarrow> do { wifi_connect_wait_up env t; return () })"

text \<open>What an event is to the abstract machine.\<close>

datatype outcome = No_iface | Failed | Associated | Disconnected | Bound | Unbound | Nothing

definition work_outcome :: "wifi_env \<Rightarrow> wifi \<Rightarrow> outcome" where
  "work_outcome env s =
     (let iface = get_wifi_iface env;
          log = (wifi_log ''Connecting to SSID'' []);
          h = calls (final iface s);
          h' = h @ [(log, env h log)] in
      if result iface s = 0 then No_iface
      else if env h' (net_mgmt_wifi_connect connect_request) < 0 then Failed else Nothing)"

definition outcome_of :: "wifi_env \<Rightarrow> wifi \<Rightarrow> wifi_event \<Rightarrow> outcome" where
  "outcome_of env s ev =
     (case ev of
        Work \<Rightarrow> work_outcome env s
      | Wifi_event NET_EVENT_WIFI_CONNECT_RESULT (Some st) \<Rightarrow> if st \<noteq> 0 then Failed else Associated
      | Wifi_event NET_EVENT_WIFI_CONNECT_RESULT None \<Rightarrow> Associated
      | Wifi_event NET_EVENT_WIFI_DISCONNECT_RESULT _ \<Rightarrow> Disconnected
      | Ipv4_event NET_EVENT_IPV4_ADDR_ADD \<Rightarrow> Bound
      | Ipv4_event NET_EVENT_IPV4_ADDR_DEL \<Rightarrow> Unbound
      | _ \<Rightarrow> Nothing)"

inductive wifi_reach :: "wifi_env \<Rightarrow> outcome list \<Rightarrow> wifi \<Rightarrow> bool" for env where
  start: "wifi_reach env [] (final (wifi_connect_start env) wifi_boot)"
| step: "wifi_reach env outs s \<Longrightarrow>
    wifi_reach env (outs @ [outcome_of env s ev]) (final (wifi_handle env ev) s)"

section \<open>The abstract machine\<close>

primrec fails_after :: "nat \<Rightarrow> outcome \<Rightarrow> nat" where
  "fails_after f No_iface = f"
| "fails_after f Failed = Suc f"
| "fails_after f Associated = 0"
| "fails_after f Disconnected = f"
| "fails_after f Bound = f"
| "fails_after f Unbound = f"
| "fails_after f Nothing = f"

primrec up_after :: "bool \<Rightarrow> outcome \<Rightarrow> bool" where
  "up_after u No_iface = u"
| "up_after u Failed = u"
| "up_after u Associated = u"
| "up_after u Disconnected = False"
| "up_after u Bound = True"
| "up_after u Unbound = False"
| "up_after u Nothing = u"

text \<open>The delay of a retry after \<open>f\<close> failures in a row, and the events that are retried.\<close>

definition delay :: "nat \<Rightarrow> nat" where
  "delay f = min 30000 (5000 * 2 ^ f)"

definition retried :: "outcome \<Rightarrow> bool" where
  "retried x \<longleftrightarrow> x \<in> {No_iface, Failed, Disconnected}"

fun retries :: "nat \<Rightarrow> outcome list \<Rightarrow> nat list" where
  "retries f [] = []"
| "retries f (x # xs) = (if retried x then [delay f] else []) @ retries (fails_after f x) xs"

definition scheduled :: "(wifi_call \<times> int) list \<Rightarrow> nat list" where
  "scheduled h = concat (map (\<lambda>(c, _). case c of k_work_schedule d \<Rightarrow> [unat d] | _ \<Rightarrow> []) h)"

lemma scheduled_append [simp]: "scheduled (h @ h') = scheduled h @ scheduled h'"
  by (simp add: scheduled_def)

lemma scheduled_Cons [simp]:
  "scheduled [] = []"
  "scheduled ((c, r) # h) = (case c of k_work_schedule d \<Rightarrow> unat d # scheduled h | _ \<Rightarrow> scheduled h)"
  by (simp_all add: scheduled_def split: wifi_call.split)

definition simulates :: "nat \<Rightarrow> bool \<Rightarrow> wifi \<Rightarrow> bool" where
  "simulates f u s \<longleftrightarrow> link_up s = u \<and> unat (backoff_ms s) = delay f"

lemma delay_le: "delay f \<le> 30000"
  by (simp add: delay_def)

lemma unat_next_backoff: "unat b = delay f \<Longrightarrow> unat (next_backoff b) = delay (Suc f)"
proof -
  assume b: "unat b = delay f"
  have "unat (b * 2) = delay f * 2"
    using delay_le [of f] by (simp add: unat_word_ariths b)
  then show ?thesis
    by (auto simp: next_backoff_def word_less_nat_alt RECONNECT_MAX_MS_def delay_def min_def)
qed

text \<open>One handler, simulated by one step of the abstract machine.\<close>

definition handled :: "nat \<Rightarrow> bool \<Rightarrow> outcome \<Rightarrow> wifi \<Rightarrow> wifi \<Rightarrow> bool" where
  "handled f u x s t \<longleftrightarrow> simulates (fails_after f x) (up_after u x) t \<and>
     scheduled (calls t) = scheduled (calls s) @ (if retried x then [delay f] else [])"

lemma handled_retry:
  "simulates f u s \<Longrightarrow> handled f u Failed s (final (retry_and_back_off env msg code) s)"
  by (simp add: handled_def simulates_def retry_and_back_off_def unat_next_backoff retried_def)

lemma handled_prefix:
  "handled f u x (s\<lparr>calls := calls s @ h\<rparr>) t \<Longrightarrow> scheduled h = [] \<Longrightarrow> handled f u x s t"
  by (simp add: handled_def)

lemma simulates_calls [simp]: "simulates f u (s\<lparr>calls := h\<rparr>) = simulates f u s"
  by (simp add: simulates_def)

lemma iface_quiet:
  obtains h where "final (get_wifi_iface env) s = s\<lparr>calls := calls s @ h\<rparr>" and "scheduled h = []"
proof -
  have q: "quiet (\<lambda>c. c \<in> {net_if_get_first_wifi, net_if_get_default}) (get_wifi_iface env)"
    unfolding get_wifi_iface_def by (intro quiet_intros) simp_all
  obtain h where h: "final (get_wifi_iface env) s = s\<lparr>calls := calls s @ h\<rparr>"
    "list_all ((\<lambda>c. c \<in> {net_if_get_first_wifi, net_if_get_default}) \<circ> fst) h"
    using quietE [OF q] .
  have "scheduled h = []" using h(2) by (induction h) (auto simp: scheduled_def)
  with h(1) that show thesis by blast
qed

lemma handled_work:
  assumes sim: "simulates f u s"
  shows "handled f u (work_outcome env s) s (final (connect_work_fn env) s)"
proof -
  obtain h where h: "final (get_wifi_iface env) s = s\<lparr>calls := calls s @ h\<rparr>" "scheduled h = []"
    by (rule iface_quiet)
  let ?log = "wifi_log ''Connecting to SSID'' []"
  define h1 where "h1 = calls s @ h @ [(?log, env (calls s @ h) ?log)]"
  define ret where "ret = env h1 (net_mgmt_wifi_connect connect_request)"
  show ?thesis
  proof (cases "result (get_wifi_iface env) s = 0")
    case True
    then show ?thesis
      using sim h
      by (simp add: work_outcome_def connect_work_fn_def split_beta handled_def simulates_def retried_def)
  next
    case False
    let ?t = "s\<lparr>calls := h1 @ [(net_mgmt_wifi_connect connect_request, ret)]\<rparr>"
    have out: "work_outcome env s = (if ret < 0 then Failed else Nothing)"
      using False h by (simp add: work_outcome_def Let_def ret_def h1_def)
    have run: "final (connect_work_fn env) s =
        (if ret < 0 then final (retry_and_back_off env ''net_mgmt CONNECT rejected (%d), retry in %u ms'' ret) ?t
         else ?t)"
      using False h by (simp add: connect_work_fn_def split_beta ret_def h1_def)
    show ?thesis
      using handled_retry [of f u ?t env "''net_mgmt CONNECT rejected (%d), retry in %u ms''" ret] sim h(2)
      unfolding out run by (auto simp: handled_def h1_def retried_def)
  qed
qed

lemma handled_step:
  assumes "simulates f u s"
  shows "handled f u (outcome_of env s ev) s (final (wifi_handle env ev) s)"
proof (cases ev)
  case Work
  then show ?thesis using handled_work [OF assms] by (simp add: wifi_handle_def outcome_of_def)
next
  case (Wifi_event e status)
  show ?thesis
  proof (cases "\<exists>st. e = NET_EVENT_WIFI_CONNECT_RESULT \<and> status = Some st \<and> st \<noteq> 0")
    case True
    then show ?thesis
      using handled_retry [OF assms] Wifi_event
      by (auto simp: wifi_handle_def outcome_of_def wifi_mgmt_event_handler_def handle_wifi_result_def)
  next
    case False
    then show ?thesis
      using assms Wifi_event
      by (auto simp: wifi_handle_def outcome_of_def wifi_mgmt_event_handler_def handle_wifi_result_def
          handle_wifi_disconnect_def handled_def simulates_def retried_def RECONNECT_INITIAL_MS_def
          delay_def split: mgmt_event.split option.split)
  qed
next
  case (Ipv4_event e)
  then show ?thesis
    using assms
    by (auto simp: wifi_handle_def outcome_of_def ipv4_mgmt_event_handler_def handled_def
        simulates_def retried_def split: mgmt_event.split)
next
  case (Wait_up t)
  then show ?thesis
    using assms
    by (auto simp: wifi_handle_def outcome_of_def wifi_connect_wait_up_def handled_def
        simulates_def retried_def)
qed

lemma retries_snoc:
  "retries f (xs @ [x]) = retries f xs @ (if retried x then [delay (foldl fails_after f xs)] else [])"
  by (induction xs arbitrary: f) simp_all

text \<open>
  Property C36. In whatever order works, events and waits run after the start, and whatever the
  network stack answers, the manager behaves as the abstract machine: its link flag is that of the
  last address or disconnect event, its backoff is that of the failures since the last
  association, \<open>5000 * 2 ^ n\<close> milliseconds up to 30000, and the connect work was scheduled at once
  at the start and then exactly once, with the backoff of that moment, for each missing interface,
  failed attempt and disconnect: no failure is left without a retry.
\<close>

theorem wifi_refines_backoff:
  assumes "wifi_reach env outs s"
  shows "link_up s = foldl up_after False outs \<and>
    unat (backoff_ms s) = min 30000 (5000 * 2 ^ foldl fails_after 0 outs) \<and>
    scheduled (calls s) = 0 # retries 0 outs"
proof -
  have "simulates (foldl fails_after 0 outs) (foldl up_after False outs) s \<and>
      scheduled (calls s) = 0 # retries 0 outs"
    using assms
  proof (induction rule: wifi_reach.induct)
    case start
    show ?case
      by (simp add: wifi_connect_start_def wifi_boot_def simulates_def RECONNECT_INITIAL_MS_def delay_def)
  next
    case (step outs s ev)
    then show ?case
      using handled_step [of "foldl fails_after 0 outs" "foldl up_after False outs" s env ev]
      by (simp add: handled_def retries_snoc)
  qed
  then show ?thesis by (simp add: simulates_def delay_def)
qed

lemma wifi_refines_backoff_witness:
  "scheduled (calls (final (wifi_handle (\<lambda>_ c. - 1) Work)
     (final (wifi_handle (\<lambda>_ c. - 1) Work) (final (wifi_connect_start (\<lambda>_ c. - 1)) wifi_boot)))) =
   [0, 5000, 10000]"
proof -
  let ?env = "\<lambda>_ c. - 1"
  let ?s = "final (wifi_connect_start ?env) wifi_boot"
  have out: "outcome_of ?env s Work = Failed" for s
    by (simp add: outcome_of_def work_outcome_def get_wifi_iface_def)
  have "wifi_reach ?env [Failed, Failed] (final (wifi_handle ?env Work) (final (wifi_handle ?env Work) ?s))"
    using wifi_reach.step [OF wifi_reach.step [OF wifi_reach.start [of ?env], of Work], of Work]
    by (simp add: out)
  from wifi_refines_backoff [OF this] show ?thesis by (simp add: retried_def delay_def)
qed

end
