(* ===== verification/Udp_Shell.thy ===== *)
theory Udp_Shell
  imports Prelude
begin

text \<open>
  The UDP streaming client of \<open>apps/08_pse84_ai_m55_udp/src/main.c\<close>: the shell commands and the
  sender thread, which share \<open>udp_state\<close>. The shell thread runs one command at a time; the stop
  command waits for the sender in the middle. A step of the system is one move of the shell or
  of a sender, in any order. What \<open>zsock_inet_pton\<close> parses is its answer, as is every other
  result of the socket layer, the kernel and the clock.
\<close>

section \<open>State and calls\<close>

record sockaddr_in =
  sin_family :: u16
  sin_port :: u16
  sin_addr :: u32

datatype udp_call =
  zsock_socket | zsock_inet_pton string | zsock_sendto int string sockaddr_in | zsock_close int
| k_uptime_get | k_msleep u32 | k_thread_create | k_thread_name_set | k_thread_join nat
| udp_errno | udp_log string "int list"
| shell_error string | shell_warn string | shell_print string "int list"

text \<open>An answer is a code or number, and the address a parse found.\<close>

type_synonym udp_env = "(udp_call, int \<times> u32) env"

record udp_state = "(udp_call, int \<times> u32) io" +
  dest :: sockaddr_in
  interval_ms :: u32
  running :: bool
  configured :: bool
  tx_count :: u32
  err_count :: u32

type_synonym 'a udp_prog = "(udp_state, 'a) state"

definition udp_code :: "udp_env \<Rightarrow> udp_call \<Rightarrow> int udp_prog" where
  "udp_code env c = do { a \<leftarrow> ask env c; return (fst a) }"

definition DEFAULT_PORT :: u16 where "DEFAULT_PORT = 5005"
definition DEFAULT_INTERVAL_MS :: u32 where "DEFAULT_INTERVAL_MS = 100"
definition UDP_AF_INET :: u16 where "UDP_AF_INET = 1"

definition no_dest :: sockaddr_in where
  "no_dest = \<lparr>sin_family = 0, sin_port = 0, sin_addr = 0\<rparr>"

definition udp_boot :: udp_state where
  "udp_boot = \<lparr>calls = [], dest = no_dest, interval_ms = 0, running = False, configured = False,
     tx_count = 0, err_count = 0\<rparr>"

text \<open>\<open>htons\<close> and \<open>ntohs\<close> on a little-endian core.\<close>

definition htons :: "u16 \<Rightarrow> u16" where
  "htons w = push_bit 8 (take_bit 8 w) OR drop_bit 8 w"

text \<open>\<open>strtoul\<close> in base ten on a 32-bit \<open>unsigned long\<close>: spaces, a sign, digits, saturation.\<close>

definition is_space :: "char \<Rightarrow> bool" where
  "is_space c \<longleftrightarrow> of_char c = (32 :: nat) \<or> 9 \<le> (of_char c :: nat) \<and> (of_char c :: nat) \<le> 13"

definition is_digit :: "char \<Rightarrow> bool" where
  "is_digit c \<longleftrightarrow> 48 \<le> (of_char c :: nat) \<and> (of_char c :: nat) \<le> 57"

definition number_of :: "string \<Rightarrow> nat" where
  "number_of t = foldl (\<lambda>n c. 10 * n + (of_char c - 48)) 0 (takeWhile is_digit t)"

definition ulong :: "bool \<Rightarrow> nat \<Rightarrow> u32" where
  "ulong neg n = (if 2 ^ 32 \<le> n then - 1 else if neg then - of_nat n else of_nat n)"

definition strtoul10 :: "string \<Rightarrow> u32" where
  "strtoul10 t =
     (case dropWhile is_space t of
        [] \<Rightarrow> 0
      | c # cs \<Rightarrow>
          if c = CHR ''-'' then ulong True (number_of cs)
          else if c = CHR ''+'' then ulong False (number_of cs)
          else ulong False (number_of (c # cs)))"

section \<open>Shell commands\<close>

definition cmd_udp_server :: "udp_env \<Rightarrow> string list \<Rightarrow> int udp_prog" where
  "cmd_udp_server env argv =
     (if length argv < 2 then do {
        tell env (shell_error ''Usage: udp server <ip> [port]'');
        return (- EINVAL)
      }
      else do {
        modify (dest_update (\<lambda>_. no_dest\<lparr>sin_family := UDP_AF_INET\<rparr>));
        a \<leftarrow> ask env (zsock_inet_pton (argv ! 1));
        if fst a \<noteq> 1 then do {
          tell env (shell_error ''Invalid IP: %s'');
          return (- EINVAL)
        }
        else do {
          modify (dest_update (sin_addr_update (\<lambda>_. snd a)));
          let port = (if 3 \<le> length argv then ucast (strtoul10 (argv ! 2)) else DEFAULT_PORT);
          modify (dest_update (sin_port_update (\<lambda>_. htons port)));
          modify (configured_update (\<lambda>_. True));
          tell env (shell_print ''UDP server set to %s:%u'' [uint port]);
          return 0
        }
      })"

definition start_interval :: "string list \<Rightarrow> u32" where
  "start_interval argv =
     (if 2 \<le> length argv
      then let i = strtoul10 (argv ! 1) in if i = 0 then 1 else i
      else DEFAULT_INTERVAL_MS)"

definition cmd_udp_start :: "udp_env \<Rightarrow> string list \<Rightarrow> int udp_prog" where
  "cmd_udp_start env argv = do {
     c \<leftarrow> gets configured;
     if \<not> c then do {
       tell env (shell_error ''Set server first: udp server <ip> [port]'');
       return (- EINVAL)
     }
     else do {
       r \<leftarrow> gets running;
       if r then do {
         tell env (shell_warn ''Already streaming'');
         return 0
       }
       else do {
         modify (interval_ms_update (\<lambda>_. start_interval argv));
         modify (running_update (\<lambda>_. True));
         tell env k_thread_create;
         tell env k_thread_name_set;
         tell env (shell_print ''UDP streaming started (%u ms interval)'' [uint (start_interval argv)]);
         return 0
       }
     }
   }"

text \<open>The stop command up to the join, whether it goes on to it, and from the join's return.\<close>

definition cmd_udp_stop_begin :: "udp_env \<Rightarrow> bool udp_prog" where
  "cmd_udp_stop_begin env = do {
     r \<leftarrow> gets running;
     if \<not> r then do {
       tell env (shell_warn ''Not streaming'');
       return False
     }
     else do {
       modify (running_update (\<lambda>_. False));
       return True
     }
   }"

definition cmd_udp_stop_end :: "udp_env \<Rightarrow> int udp_prog" where
  "cmd_udp_stop_end env = do {
     tell env (k_thread_join 5000);
     tx \<leftarrow> gets tx_count;
     err \<leftarrow> gets err_count;
     tell env (shell_print ''Stopped (sent %u, errors %u)'' [uint tx, uint err]);
     return 0
   }"

text \<open>The address in dotted form, its bytes in memory order.\<close>

fun dotted :: "u8 list \<Rightarrow> string" where
  "dotted [] = ''''"
| "dotted [b] = digits 10 (unat b)"
| "dotted (b # bs) = digits 10 (unat b) @ ''.'' @ dotted bs"

definition fmt_ipv4 :: "u32 \<Rightarrow> string" where
  "fmt_ipv4 addr = take 15 (dotted (bytes_le 4 addr))"

definition udp_main :: "udp_env \<Rightarrow> int udp_prog" where
  "udp_main env = do {
     tell env (udp_log ''CYW55513 Wi-Fi UDP client on PSE84'' []);
     tell env (udp_log ''Use shell to connect Wi-Fi, then:'' []);
     tell env (udp_log ''  udp server <host_ip> [port]'' []);
     tell env (udp_log ''  udp start [interval_ms]'' []);
     return 0
   }"

definition cmd_udp_status :: "udp_env \<Rightarrow> int udp_prog" where
  "cmd_udp_status env = do {
     s \<leftarrow> gets id;
     (if configured s
      then tell env (shell_print (''Server: '' @ fmt_ipv4 (sin_addr (dest s)) @ '':%u'') [uint (htons (sin_port (dest s)))])
      else tell env (shell_print ''Server: not configured'' []));
     tell env (shell_print (if running s then ''State: streaming'' else ''State: idle'') []);
     (if tx_count s \<noteq> 0 \<or> err_count s \<noteq> 0
      then tell env (shell_print ''Packets sent: %u, errors: %u'' [uint (tx_count s), uint (err_count s)])
      else return ());
     tell env (shell_print ''Interval: %u ms'' [uint (interval_ms s)]);
     return 0
   }"

section \<open>The sender thread\<close>

text \<open>
  Where a sender is: before its socket, at the head of its loop, asleep after a packet, on its way
  out, ended.
\<close>

datatype sender = Opening | Head int | Asleep int | Leaving | Ended

definition quote :: string where "quote = [CHR 0x22]"

definition udp_payload :: "u32 \<Rightarrow> u64 \<Rightarrow> string" where
  "udp_payload seq uptime =
     ''{'' @ quote @ ''seq'' @ quote @ '':'' @ digits 10 (unat seq) @
     '','' @ quote @ ''uptime_ms'' @ quote @ '':'' @ digits 10 (unat uptime) @ ''}''"

definition udp_sender_open :: "udp_env \<Rightarrow> sender udp_prog" where
  "udp_sender_open env = do {
     sock \<leftarrow> udp_code env zsock_socket;
     if sock < 0 then do {
       e \<leftarrow> udp_code env udp_errno;
       tell env (udp_log ''Failed to create UDP socket: %d'' [e]);
       modify (running_update (\<lambda>_. False));
       return Leaving
     }
     else do {
       s \<leftarrow> gets id;
       tell env (udp_log (''UDP streaming to '' @ fmt_ipv4 (sin_addr (dest s)) @ '':%u every %u ms'')
         [uint (htons (sin_port (dest s))), uint (interval_ms s)]);
       modify (tx_count_update (\<lambda>_. 0));
       modify (err_count_update (\<lambda>_. 0));
       return (Head sock)
     }
   }"

definition udp_sender_packet :: "udp_env \<Rightarrow> int \<Rightarrow> unit udp_prog" where
  "udp_sender_packet env sock = do {
     up \<leftarrow> udp_code env k_uptime_get;
     s \<leftarrow> gets id;
     ret \<leftarrow> udp_code env (zsock_sendto sock (udp_payload (tx_count s) (of_int up)) (dest s));
     if ret < 0 then do {
       modify (err_count_update (\<lambda>n. n + 1));
       n \<leftarrow> gets err_count;
       if n \<le> 5 then do {
         e \<leftarrow> udp_code env udp_errno;
         tell env (udp_log ''sendto failed: %d'' [e])
       }
       else return ()
     }
     else modify (tx_count_update (\<lambda>n. n + 1))
   }"

definition udp_sender_head :: "udp_env \<Rightarrow> int \<Rightarrow> sender udp_prog" where
  "udp_sender_head env sock = do {
     r \<leftarrow> gets running;
     if r then do {
       udp_sender_packet env sock;
       i \<leftarrow> gets interval_ms;
       tell env (k_msleep i);
       return (Asleep sock)
     }
     else do {
       tell env (zsock_close sock);
       tx \<leftarrow> gets tx_count;
       err \<leftarrow> gets err_count;
       tell env (udp_log ''UDP streaming stopped (sent %u, errors %u)'' [uint tx, uint err]);
       return Leaving
     }
   }"

fun sender_step :: "udp_env \<Rightarrow> sender \<Rightarrow> sender udp_prog" where
  "sender_step env Opening = udp_sender_open env"
| "sender_step env (Head sock) = udp_sender_head env sock"
| "sender_step env (Asleep sock) = return (Head sock)"
| "sender_step env Leaving = return Ended"
| "sender_step env Ended = return Ended"

section \<open>The system\<close>

text \<open>
  The shared state, the senders created so far (all on the one thread object, the last the one
  a join waits for), and whether the shell is inside the stop command.
\<close>

record udp_sys =
  st :: udp_state
  senders :: "sender list"
  joining :: bool

definition udp_init :: udp_sys where
  "udp_init = \<lparr>st = udp_boot, senders = [], joining = False\<rparr>"

text \<open>
  Every \<open>k_thread_create\<close> a command makes starts one more sender. On the thread object of a live thread
  the kernel leaves the effect undefined; a second independent sender is the mildest reading.
\<close>

definition spawned :: "'a udp_prog \<Rightarrow> udp_state \<Rightarrow> sender list" where
  "spawned m s = map (\<lambda>e. Opening) (filter (\<lambda>e. fst e = k_thread_create) (made m s))"

text \<open>
  \<open>k_thread_join\<close> answers zero only once the thread has ended; any other answer is a timeout.
\<close>

inductive udp_step :: "udp_env \<Rightarrow> udp_sys \<Rightarrow> udp_sys \<Rightarrow> bool" for env where
  server: "\<not> joining s \<Longrightarrow> udp_step env s (s\<lparr>st := final (cmd_udp_server env argv) (st s)\<rparr>)"
| start: "\<not> joining s \<Longrightarrow>
    udp_step env s (s\<lparr>st := final (cmd_udp_start env argv) (st s),
      senders := senders s @ spawned (cmd_udp_start env argv) (st s)\<rparr>)"
| stop: "\<not> joining s \<Longrightarrow>
    udp_step env s (s\<lparr>st := final (cmd_udp_stop_begin env) (st s),
      joining := result (cmd_udp_stop_begin env) (st s)\<rparr>)"
| joined: "joining s \<Longrightarrow>
    fst (env (calls (st s)) (k_thread_join 5000)) \<noteq> 0 \<or> last (senders s) = Ended \<Longrightarrow>
    udp_step env s (s\<lparr>st := final (cmd_udp_stop_end env) (st s), joining := False\<rparr>)"
| status: "\<not> joining s \<Longrightarrow> udp_step env s (s\<lparr>st := final (cmd_udp_status env) (st s)\<rparr>)"
| send: "i < length (senders s) \<Longrightarrow>
    udp_step env s (s\<lparr>st := final (sender_step env (senders s ! i)) (st s),
      senders := (senders s)[i := result (sender_step env (senders s ! i)) (st s)]\<rparr>)"

lemma spawned_start [simp]:
  "spawned (cmd_udp_start env argv) s = (if configured s \<and> \<not> running s then [Opening] else [])"
  by (simp add: spawned_def made_def cmd_udp_start_def)

inductive udp_reach :: "udp_env \<Rightarrow> udp_sys \<Rightarrow> bool" for env where
  init: "udp_reach env udp_init"
| step: "udp_reach env s \<Longrightarrow> udp_step env s t \<Longrightarrow> udp_reach env t"

definition live :: "udp_sys \<Rightarrow> sender list" where
  "live s = filter (\<lambda>x. x \<noteq> Ended) (senders s)"

text \<open>No join has timed out and no socket has been refused.\<close>

definition clean_call :: "udp_call \<times> int \<times> u32 \<Rightarrow> bool" where
  "clean_call x = (case fst x of
     k_thread_join t \<Rightarrow> fst (snd x) = 0 | zsock_socket \<Rightarrow> 0 \<le> fst (snd x) | _ \<Rightarrow> True)"

definition clean :: "(udp_call \<times> int \<times> u32) list \<Rightarrow> bool" where
  "clean h = list_all clean_call h"

text \<open>What each move does to the flags, and that it only adds calls.\<close>

definition keeps :: "'a udp_prog \<Rightarrow> bool" where
  "keeps m \<longleftrightarrow> (\<forall>s. running (final m s) = running s \<and> (\<exists>new. calls (final m s) = calls s @ new))"

named_theorems keeps_intros "programs that keep the running flag"

lemma keeps_return [keeps_intros]: "keeps (return x)"
  by (simp add: keeps_def)

lemma keeps_tell [keeps_intros]: "keeps (tell env c)"
  by (simp add: keeps_def)

lemma keeps_ask [keeps_intros]: "keeps (ask env c)"
  by (simp add: keeps_def)

lemma keeps_gets [keeps_intros]: "keeps (gets f)"
  by (simp add: keeps_def)

lemma keeps_modify [keeps_intros]:
  "(\<And>s. running (f s) = running s) \<Longrightarrow> (\<And>s. calls (f s) = calls s) \<Longrightarrow> keeps (modify f)"
  by (simp add: keeps_def)

lemma keeps_if [keeps_intros]: "keeps m \<Longrightarrow> keeps n \<Longrightarrow> keeps (if b then m else n)"
  by simp

lemma keeps_bind [keeps_intros]: "keeps m \<Longrightarrow> (\<And>x. keeps (f x)) \<Longrightarrow> keeps (m \<bind> f)"
  unfolding keeps_def by (simp add: split_beta) (metis append.assoc)

lemma keeps_commands:
  "keeps (cmd_udp_server env argv)" "keeps (cmd_udp_status env)" "keeps (cmd_udp_stop_end env)"
  "keeps (udp_sender_packet env sock)"
  unfolding cmd_udp_server_def cmd_udp_status_def cmd_udp_stop_end_def udp_sender_packet_def
    udp_code_def Let_def
  by (intro keeps_intros; simp)+

lemma keepsD:
  "keeps m \<Longrightarrow> running (final m s) = running s"
  "keeps m \<Longrightarrow> \<exists>new. calls (final m s) = calls s @ new"
  by (simp_all add: keeps_def)

lemma clean_append: "clean (h @ h') \<longleftrightarrow> clean h \<and> clean h'"
  by (simp add: clean_def)

section \<open>At most one sender\<close>

definition one_sender :: "udp_sys \<Rightarrow> bool" where
  "one_sender s \<longleftrightarrow> list_all (\<lambda>x. x = Ended) (butlast (senders s)) \<and>
     (if running (st s) then senders s \<noteq> [] \<and> last (senders s) \<notin> {Leaving, Ended} \<and> \<not> joining s
      else joining s \<or> list_all (\<lambda>x. x = Ended) (senders s))"

lemma all_ended_last: "list_all (\<lambda>x. x = Ended) xs \<Longrightarrow> xs \<noteq> [] \<Longrightarrow> last xs = Ended"
  by (simp add: list_all_iff)

lemma all_ended_iff:
  "xs \<noteq> [] \<Longrightarrow> list_all (\<lambda>x. x = Ended) xs \<longleftrightarrow> list_all (\<lambda>x. x = Ended) (butlast xs) \<and> last xs = Ended"
  by (subst append_butlast_last_id [symmetric], assumption) (simp del: append_butlast_last_id)

text \<open>A sender's move, on the shared state.\<close>

lemma sender_step_runs:
  "(running (final (sender_step env x) s) = running s \<and>
     (if running s then x \<noteq> Leaving \<and> x \<noteq> Ended \<longrightarrow> result (sender_step env x) s \<notin> {Leaving, Ended}
      else x = Ended \<longrightarrow> result (sender_step env x) s = Ended) \<or>
    \<not> clean (calls (final (sender_step env x) s))) \<and>
   (\<exists>new. calls (final (sender_step env x) s) = calls s @ new)"
proof (cases x)
  case Opening
  then show ?thesis
    by (auto simp: udp_sender_open_def udp_code_def clean_def clean_call_def)
next
  case (Head sock)
  have "keeps (udp_sender_packet env sock)" by (rule keeps_commands)
  then have r: "running (final (udp_sender_packet env sock) s) = running s"
    and c: "\<exists>new. calls (final (udp_sender_packet env sock) s) = calls s @ new"
    by (auto simp: keeps_def)
  show ?thesis
    using r c by (cases "running s") (auto simp: Head udp_sender_head_def split_beta)
qed simp_all

lemma start_runs:
  "running (final (cmd_udp_start env argv) s) = (running s \<or> configured s)"
  "\<exists>new. calls (final (cmd_udp_start env argv) s) = calls s @ new"
  by (cases "configured s"; cases "running s"; simp add: cmd_udp_start_def)+

lemma stop_runs:
  "running (final (cmd_udp_stop_begin env) s) = False"
  "result (cmd_udp_stop_begin env) s = running s"
  "\<exists>new. calls (final (cmd_udp_stop_begin env) s) = calls s @ new"
  by (cases "running s"; simp add: cmd_udp_stop_begin_def)+

lemma udp_step_calls: "udp_step env s t \<Longrightarrow> \<exists>new. calls (st t) = calls (st s) @ new"
  by (induction rule: udp_step.induct)
    (simp_all add: keepsD(2) keeps_commands start_runs(2) stop_runs(3) sender_step_runs)

lemma one_sender_step:
  assumes "udp_step env s t" and "one_sender s" and "clean (calls (st t))"
  shows "one_sender t"
  using assms
proof (induction rule: udp_step.induct)
  case (server s argv)
  then show ?case
    using keepsD(1) [OF keeps_commands(1) [of env argv], of "st s"]
    by (auto simp: one_sender_def split: if_splits)
next
  case (start s argv)
  then show ?case
    using start_runs(1) [of env argv "st s"]
    by (cases "configured (st s)"; cases "running (st s)") (simp_all add: one_sender_def)
next
  case (stop s)
  then show ?case
    using stop_runs(1,2) [of env "st s"] by (cases "running (st s)") (simp_all add: one_sender_def)
next
  case (joined s)
  have "fst (env (calls (st s)) (k_thread_join 5000)) = 0"
    using joined.prems(2) by (simp add: cmd_udp_stop_end_def clean_def clean_call_def)
  then have "last (senders s) = Ended" using joined.hyps(2) by blast
  then have "\<not> running (st s)" "list_all (\<lambda>x. x = Ended) (senders s)"
    using joined.prems(1) by (cases "senders s = []"; auto simp: one_sender_def all_ended_iff split: if_splits)+
  then show ?case
    using joined.prems(1) keepsD(1) [OF keeps_commands(3) [of env], of "st s"]
    by (auto simp: one_sender_def split: if_splits)
next
  case (status s)
  then show ?case
    using keepsD(1) [OF keeps_commands(2) [of env], of "st s"]
    by (auto simp: one_sender_def split: if_splits)
next
  case (send i s)
  let ?x = "senders s ! i" and ?y = "result (sender_step env (senders s ! i)) (st s)"
  let ?t = "final (sender_step env (senders s ! i)) (st s)"
  have run: "running ?t = running (st s)"
    and live: "if running (st s) then ?x \<noteq> Leaving \<and> ?x \<noteq> Ended \<longrightarrow> ?y \<notin> {Leaving, Ended}
       else ?x = Ended \<longrightarrow> ?y = Ended"
    using sender_step_runs [of env ?x "st s"] send.prems(2) by (auto split: if_splits)
  have ended: "?x = Ended \<Longrightarrow> ?y = Ended" by simp
  show ?case
  proof (cases "i = length (senders s) - 1")
    case True
    then have upd: "butlast ((senders s)[i := ?y]) = butlast (senders s)" "last ((senders s)[i := ?y]) = ?y"
      "last (senders s) = ?x" "senders s \<noteq> []"
      using send.hyps True by (cases "senders s" rule: rev_cases; simp)+
    then have "list_all (\<lambda>x. x = Ended) (senders s) \<Longrightarrow> list_all (\<lambda>x. x = Ended) ((senders s)[i := ?y])"
      using ended by (simp add: all_ended_iff)
    with upd run live send.prems(1) show ?thesis
      by (cases "running (st s)") (auto simp: one_sender_def)
  next
    case False
    then have i: "i < length (butlast (senders s))" using send.hyps by simp
    then have "?x = Ended"
      using send.prems(1) by (auto simp: one_sender_def list_all_length nth_butlast)
    then have "(senders s)[i := ?y] = senders s" "?t = st s"
      by (simp_all add: list_update_same_conv send.hyps)
    then show ?thesis using send.prems(1) by simp
  qed
qed

text \<open>
  Property C37. In every order of shell commands and sender moves, as long as no join has timed out
  and no socket has been refused, at most one sender thread is alive; one is alive whenever the
  streaming flag is set, and none when the flag is clear and the shell is not inside the stop
  command: a start never reuses the thread object of a live sender.
\<close>

theorem udp_single_sender:
  assumes "udp_reach env s" and "clean (calls (st s))"
  shows "length (live s) \<le> 1 \<and>
    (if running (st s) then length (live s) = 1 else joining s \<or> live s = [])"
proof -
  have one: "one_sender s"
    using assms
  proof (induction rule: udp_reach.induct)
    case init
    show ?case by (simp add: one_sender_def udp_init_def udp_boot_def)
  next
    case (step s t)
    obtain new where "calls (st t) = calls (st s) @ new"
      using udp_step_calls [OF step.hyps(2)] by blast
    then have "clean (calls (st s))" using step.prems by (simp add: clean_append)
    then have "one_sender s" by (rule step.IH)
    with step.hyps(2) show ?case using step.prems by (rule one_sender_step)
  qed
  show ?thesis
  proof (cases "senders s = []")
    case True
    with one show ?thesis by (auto simp: live_def one_sender_def split: if_splits)
  next
    case False
    then have "senders s = butlast (senders s) @ [last (senders s)]" by simp
    moreover have "filter (\<lambda>x. x \<noteq> Ended) (butlast (senders s)) = []"
      using one by (auto simp: one_sender_def list_all_iff filter_empty_conv)
    ultimately have "live s = filter (\<lambda>x. x \<noteq> Ended) [last (senders s)]"
      unfolding live_def by (metis append_Nil filter_append)
    with one False show ?thesis
      by (auto simp: one_sender_def all_ended_iff split: if_splits)
  qed
qed

text \<open>A run: the stop command of a client that sends every ten seconds.\<close>

definition demo_env :: "int \<Rightarrow> udp_env" where
  "demo_env join_answer = (\<lambda>h c. case c of
     zsock_inet_pton a \<Rightarrow> (if a = ''10.0.0.1'' then 1 else 0, 0x0100000A)
   | zsock_socket \<Rightarrow> (3, 0)
   | k_thread_join t \<Rightarrow> (join_answer, 0)
   | _ \<Rightarrow> (0, 0))"

definition demo_server :: "udp_env \<Rightarrow> udp_sys" where
  "demo_server env = udp_init\<lparr>st := final (cmd_udp_server env [''server'', ''10.0.0.1'']) (st udp_init)\<rparr>"

definition demo_start :: "udp_env \<Rightarrow> udp_sys \<Rightarrow> udp_sys" where
  "demo_start env s = s\<lparr>st := final (cmd_udp_start env [''start'', ''10000'']) (st s),
     senders := senders s @ spawned (cmd_udp_start env [''start'', ''10000'']) (st s)\<rparr>"

definition demo_send :: "udp_env \<Rightarrow> nat \<Rightarrow> udp_sys \<Rightarrow> udp_sys" where
  "demo_send env i s = s\<lparr>st := final (sender_step env (senders s ! i)) (st s),
     senders := (senders s)[i := result (sender_step env (senders s ! i)) (st s)]\<rparr>"

definition demo_stop :: "udp_env \<Rightarrow> udp_sys \<Rightarrow> udp_sys" where
  "demo_stop env s = s\<lparr>st := final (cmd_udp_stop_begin env) (st s),
     joining := result (cmd_udp_stop_begin env) (st s)\<rparr>"

definition demo_joined :: "udp_env \<Rightarrow> udp_sys \<Rightarrow> udp_sys" where
  "demo_joined env s = s\<lparr>st := final (cmd_udp_stop_end env) (st s), joining := False\<rparr>"

lemma demo_start_eq: "demo_start env s = s\<lparr>st := final (cmd_udp_start env [''start'', ''10000'']) (st s),
     senders := senders s @ (if configured (st s) \<and> \<not> running (st s) then [Opening] else [])\<rparr>"
  by (simp add: demo_start_def)

lemmas demo_defs = demo_env_def demo_server_def demo_start_eq demo_send_def demo_stop_def demo_joined_def
  cmd_udp_server_def cmd_udp_start_def cmd_udp_stop_begin_def cmd_udp_stop_end_def udp_sender_open_def
  udp_sender_head_def udp_sender_packet_def udp_code_def udp_init_def udp_boot_def start_interval_def

definition streaming :: "int \<Rightarrow> udp_sys" where
  "streaming j = (let e = demo_env j in demo_send e 0 (demo_send e 0 (demo_start e (demo_server e))))"

lemma streaming_reach: "udp_reach (demo_env j) (streaming j)"
proof -
  let ?e = "demo_env j"
  have "udp_reach ?e (demo_server ?e)"
    unfolding demo_server_def
    by (rule udp_reach.step [OF udp_reach.init]) (rule udp_step.server, simp add: udp_init_def)
  then have "udp_reach ?e (demo_start ?e (demo_server ?e))"
    unfolding demo_start_def
    by (rule udp_reach.step) (rule udp_step.start, simp add: demo_server_def udp_init_def)
  moreover have len: "length (senders (demo_start ?e (demo_server ?e))) = 1"
    by (simp add: demo_defs split_beta)
  ultimately have "udp_reach ?e (demo_send ?e 0 (demo_start ?e (demo_server ?e)))"
    unfolding demo_send_def by (elim udp_reach.step) (rule udp_step.send, simp)
  moreover have "length (senders (demo_send ?e 0 (demo_start ?e (demo_server ?e)))) = 1"
    using len by (simp add: demo_send_def)
  ultimately show ?thesis
    unfolding streaming_def Let_def demo_send_def [of _ _ "demo_send ?e 0 (demo_start ?e (demo_server ?e))"]
    by (elim udp_reach.step) (rule udp_step.send, simp)
qed

lemma streaming_state:
  "senders (streaming j) = [Asleep 3]" "running (st (streaming j))" "joining (streaming j) = False"
  "configured (st (streaming j))" "clean (calls (st (streaming j)))"
  by (simp_all add: streaming_def Let_def demo_defs split_beta clean_def clean_call_def)

lemma udp_single_sender_witness: "length (live (streaming 0)) = 1 \<and> length (live (streaming 0)) \<le> 1"
  using udp_single_sender [OF streaming_reach streaming_state(5)] streaming_state(2) [of 0] by simp

text \<open>
  Property C38. The stop command ignores a join that times out, as it does while the sender sleeps
  for longer than five seconds: stopping and starting again then creates a second sender on the
  thread object and stack of the first, which is still alive, and both stream.
\<close>

theorem udp_stop_timeout_two_senders:
  "\<exists>env s. udp_reach env s \<and> 5000 < unat (interval_ms (st s)) \<and> running (st s) \<and> \<not> joining s \<and>
     senders s = [Asleep 3, Opening] \<and> length (live s) = 2"
proof -
  let ?e = "demo_env (- EAGAIN)"
  let ?s0 = "streaming (- EAGAIN)"
  let ?s1 = "demo_stop ?e ?s0"
  let ?s2 = "demo_joined ?e ?s1"
  let ?s3 = "demo_start ?e ?s2"
  have "udp_reach ?e ?s1"
    unfolding demo_stop_def by (rule udp_reach.step [OF streaming_reach]) (rule udp_step.stop, simp add: streaming_state)
  moreover have "joining ?s1"
    by (simp add: demo_stop_def stop_runs(2) streaming_state)
  ultimately have "udp_reach ?e ?s2"
    unfolding demo_joined_def
    by (elim udp_reach.step) (rule udp_step.joined, simp_all add: demo_env_def)
  then have reach: "udp_reach ?e ?s3"
    unfolding demo_start_def by (rule udp_reach.step) (rule udp_step.start, simp add: demo_joined_def)
  have "senders ?s3 = [Asleep 3, Opening] \<and> running (st ?s3) \<and> \<not> joining ?s3 \<and>
      unat (interval_ms (st ?s3)) = 10000"
    by (simp add: streaming_def Let_def demo_defs split_beta strtoul10_def number_of_def is_space_def
        is_digit_def ulong_def)
  with reach show ?thesis by (intro exI [of _ ?e] exI [of _ ?s3]) (simp add: live_def)
qed

text \<open>
  A server command with a bad address fails, but it has already cleared the destination and leaves
  the configured mark set: a running sender goes on sending, to address and port zero.
\<close>

lemma udp_bad_address_streams_to_zero:
  "\<exists>env s. udp_reach env s \<and> clean (calls (st s)) \<and> configured (st s) \<and>
     (\<exists>h n r r'. calls (st s) = h @ [(zsock_sendto 3 (udp_payload 1 0) \<lparr>sin_family = UDP_AF_INET, sin_port = 0, sin_addr = 0\<rparr>, r),
        (k_msleep n, r')])"
proof -
  let ?e = "demo_env 0"
  let ?s1 = "(streaming 0)\<lparr>st := final (cmd_udp_server ?e [''server'', ''10.0.0.256'']) (st (streaming 0))\<rparr>"
  let ?s2 = "demo_send ?e 0 ?s1"
  let ?s3 = "demo_send ?e 0 ?s2"
  have "udp_reach ?e ?s1"
    by (rule udp_reach.step [OF streaming_reach]) (rule udp_step.server, simp add: streaming_state)
  then have "udp_reach ?e ?s2"
    unfolding demo_send_def
    by (rule udp_reach.step) (rule udp_step.send, simp add: streaming_state)
  then have "udp_reach ?e ?s3"
    unfolding demo_send_def [of _ _ ?s2]
    by (rule udp_reach.step) (rule udp_step.send, simp add: demo_send_def streaming_state)
  moreover have "configured (st ?s3)" "clean (calls (st ?s3))"
    "\<exists>h n r r'. calls (st ?s3) = h @ [(zsock_sendto 3 (udp_payload 1 0) \<lparr>sin_family = UDP_AF_INET, sin_port = 0, sin_addr = 0\<rparr>, r),
        (k_msleep n, r')]"
    by (simp_all add: streaming_def Let_def demo_defs split_beta clean_def clean_call_def no_dest_def)
  ultimately show ?thesis by blast
qed

text \<open>The payload always fits the buffer of \<open>UDP_PAYLOAD_MAX\<close> bytes, so \<open>snprintf\<close> never cuts it.\<close>

lemma udp_payload_fits: "length (udp_payload seq uptime) < 128"
proof -
  have "length (digits 10 (unat seq)) \<le> Suc 9"
    by (rule length_digits) (use unat_less(3) [of seq] in simp_all)
  moreover have "length (digits 10 (unat uptime)) \<le> Suc 19"
    by (rule length_digits) (use unsigned_less [of uptime, where 'a = nat] in simp_all)
  ultimately show ?thesis by (simp add: udp_payload_def quote_def)
qed

end
