(* ===== verification/Spec2Isabelle.thy ===== *)
theory Spec2Isabelle
  imports Pmu_Test Pmu_Demo Pm_Pll App06 App07 Zpm_Types Pm_Idle Blinky Bt_Dis Bgt_Lfsr Radar_Stream Wifi_Connect Udp_Shell
begin

text \<open>
  A verification library for the zephyr playground: drivers and applications in C for Zephyr on
  the Infineon PSE84, and a PMU model on a virtual platform.

  \<^bold>\<open>How the code is modelled.\<close> A C function is a program in the state monad (\<open>Prelude\<close>,
  \<open>'s \<Rightarrow> 'a \<times> 's\<close>). Its state is a record that holds the static variables of the files and
  \<open>calls\<close>, the calls made so far with their answers. Whatever is not in the repository (the
  Infineon PDL, the Zephyr kernel and drivers, registers, the PSA framework) is reached by a call:
  \<open>ask env c\<close> appends \<open>c\<close> with the answer \<open>env\<close> gives, which may depend on everything called before;
  \<open>tell\<close> ignores the answer. The environment is universally quantified, so theorems hold for any
  behaviour of hardware and libraries, failures included. Machine integers are words of their width,
  C strings are lists of characters, an error return is the negative code of the source, and a
  function that may hang returns an option in which \<open>None\<close> means that it did not return.

  \<^bold>\<open>Loops.\<close> Loops over data are recursion on lists. A busy loop without a bound in the code runs
  with fuel; \<open>Diag\<close> shows how much is enough when the transmitter drains (\<open>tx_drains\<close>), and the
  theorems that something returns carry that bound. Loops with a bound in the code (a million polls
  of a clock measurement, 2^32 polls of a soft reset) have it in the model. Endless main loops and
  thread loops run for an arbitrary number of rounds.

  \<^bold>\<open>The theories, bottom up.\<close>
  \<^item> \<open>Prelude\<close>: words, bytes, decimal digits, the monad, calls (\<open>appends\<close>, \<open>quiet\<close>, \<open>made\<close>), loops.
  \<^item> \<open>Pmu_Regs\<close>, \<open>Pmu_Test\<close>, \<open>Pmu_Driver\<close>, \<open>Pmu_Demo\<close>: \<open>modules/pmu\<close> and \<open>apps/05_cm33ns_vp\<close>. The
    layout of the registers, the vendor's test of its headers, every driver operation, bring-up, and
    the demo. Shown: the headers agree and their test reads every field; control
    updates refine an abstract field update; table entries and status round-trip; bring-up is all or
    nothing; waiting for idle returns; the demo walks the table.
  \<^item> \<open>Soc\<close>, \<open>Script\<close>: the shared data of the power applications (\<open>pm_mode_t\<close>, the calls they make, the
    static variables, \<open>gpio_indicators.c\<close>) and the calculus that reads facts off straight-line code
    (\<open>follows\<close>, \<open>runs\<close>).
  \<^item> \<open>Diag\<close>, \<open>Pm_Core\<close>: \<open>diag.c\<close>, \<open>power_manager.c\<close>, \<open>pm_phase_log.c\<close> of
    \<open>apps/06_pse84_m33_s_shell_ulp_lp_hp\<close>. The strategy interface of \<open>power_manager_internal.h\<close> is the
    record \<open>strategy\<close>; its contract is the locale \<open>pm_strategy\<close>, extended by \<open>pm_strategy_rollback\<close> for
    strategies that keep the hardware in step with the mode.
  \<^item> \<open>Pm_Hf0\<close>, \<open>Pm_Pll\<close>: the two strategies (\<open>power_manager_hf0_divider.c\<close>,
    \<open>power_manager_pll_retune.c\<close>), which interpret the locales. Shown for the divider strategy: the
    core clock never exceeds the ceiling of the core voltage over any sequence of switches, and the
    exact order of a switch. For the PLL strategy: the intermediate frequencies of each transition
    and the one that breaks its ceiling, and when the console may be used.
  \<^item> \<open>Pm_Boot\<close>, \<open>Pm_Cmds\<close>: \<open>pm_boot_optimize.c\<close>, the deep-sleep preparation, the shell commands and
    \<open>main.c\<close>. The shell calls the mode manager through the record \<open>mode_manager\<close> (\<open>power_manager.h\<close>),
    whose contract is the locale \<open>mode_switching\<close>; every \<open>pm_strategy\<close> gives one (\<open>sublocale\<close>). Shown:
    what the boot trims switch off; that any shell session refines an abstract one; that the sleep
    commands wait once, masked, and report the time waited.
  \<^item> \<open>Images\<close>, \<open>App06\<close>, \<open>App07\<close>: whole images from reset, the \<open>SYS_INIT\<close> hooks by level, \<open>main\<close> and a
    session. \<open>Images\<close> has the calculus of what a program may call (\<open>emits\<close>) and keep (\<open>stays\<close>), and the
    locale \<open>image_invariant\<close>, interpreted for apps 06 and 07a (\<open>App06\<close>) and for app 07 with its
    partition (\<open>App07\<close>). Shown: no image exceeds the clock ceiling or takes a clock, PLL or port the
    demo needs, and each writes only the registers listed; in app 07 every clock and supply call is
    on a list.
  \<^item> \<open>Psa\<close>, \<open>Zpm\<close>, \<open>Zpm_Types\<close>, \<open>Pm_Ns\<close>, \<open>Ns_Shell\<close>: \<open>apps/07_pse84_tfm_m33_m55_power_shell\<close>. The PSA call interface and the
    contracts \<open>psa_service\<close> and \<open>secure_service\<close>; the secure partition and its client; the non-secure
    mode manager, which interprets \<open>mode_switching\<close>, so that the shell is that of app 06. Shown: the
    partition answers every message, refuses exactly the bad ones and stays within its reach; the transport is transparent; sessions refine the abstract one; switches run under PRIMASK and
    leave the trims of the target; what a failed switch leaves behind.
  \<^item> \<open>Pm_Idle\<close>: the idle hooks of \<open>apps/02_pse84_tfm_m33_m55_pm\<close>, proved for every \<open>secure_service\<close> and
    used with the partition of app 02; the parked CM55 images.
  \<^item> \<open>Cm55_Boot\<close>, \<open>Blinky\<close>: the secure boot of \<open>apps/07a_pse84_m33s_m55_power_shell\<close> and the blink
    applications 00, 01, 01a and 04. \<open>Bt_Dis\<close>: the Bluetooth peripheral of app 03.
  \<^item> \<open>Bgt_Spi\<close>, \<open>Bgt_Driver\<close>, \<open>Bgt_Lfsr\<close>: \<open>modules/bgt60tr13c\<close>. Shown: what register accesses put on
    the wire; FIFO reads return the samples the sensor packed; the initialisation sequence; soft
    resets end; the test sequence has full period 4095.
  \<^item> \<open>Radar_Demo\<close>, \<open>Radar_Stream\<close>: \<open>apps/09_pse84_ai_m33_radar\<close> and \<open>apps/10_pse84_ai_m55_udp_radar\<close>.
    The driver is the locale \<open>radar_source\<close>, interpreted on \<open>Bgt_Driver\<close>. Shown: the statistics line
    is exact and fits its buffer; packets round-trip and are numbered.
  \<^item> \<open>Wifi_Connect\<close>: \<open>wifi_connect.c\<close> of app 10 as a step relation over work items and events; it
    refines a reconnect machine with exponential backoff.
  \<^item> \<open>Udp_Shell\<close>: \<open>apps/08_pse84_ai_m55_udp\<close>, with the shell and its sender threads interleaved.

  \<^bold>\<open>How the parts interact.\<close> The shell commands of \<open>Pm_Cmds\<close> call a \<open>mode_manager\<close>: in apps 06 and 07a
  \<open>pm_switch_to\<close>, which calls the strategy and the phase log, in app 07 \<open>ns_pm_switch_to\<close>, which goes through the client and the partition. Sessions (\<open>run_session\<close>, \<open>pm_switches\<close>,
  \<open>ns_switches\<close>, \<open>ns_shell\<close>, \<open>idle_entries\<close>) run such calls one after the other from the state at boot. The radar
  applications call the driver through its locale.

  \<^bold>\<open>Parameters.\<close> Register masks of the device headers (\<open>masks\<close>), the CM55 image address, the status
  codes of the PDL other than success, and the SPI, GPIO and devicetree data of the drivers. The PDL's
  \<open>Cy_SysPm_SystemEnter\<close> calls back into the PLL strategy; \<open>documented_enter\<close> is its documented order,
  and \<open>well_behaved\<close> states what the theorems rely on.

  \<^bold>\<open>Not modelled.\<close> Apps 07, 07a and 10 have byte-identical copies of files of apps 06 and 09 (up to an
  address), which share one model; host scripts, build files and register descriptions. Timing is not modelled beyond the cycle counts the
  code reads, the handlers of \<open>wifi_connect.c\<close> are atomic, and interrupts only where the code masks them or the kernel calls a hook.
\<close>

end
